theory Spec2Isabelle
  imports Main "HOL-Library.Word"
begin

section \<open>Identity pairs and the model document (package modelinfo)\<close>

text \<open>
  The reconciler of package \<open>generator\<close> (functions \<open>mergeBindingWithModelInfo\<close>,
  \<open>getModelEntity\<close>, \<open>mergeModelEntity\<close>, \<open>getModelProperty\<close>, \<open>mergeModelProperty\<close>,
  \<open>getModelRelation\<close>, \<open>mergeModelRelation\<close>) and the loader of
  \<open>modelinfo/fileio.go\<close> are embedded from their Go source. The types and methods of
  package \<open>modelinfo\<close> that they call are described by the specification only; each such
  definition says so in its comment.

  Go pointers into the document are positions: a \<open>*modelinfo.Entity\<close> is the position of
  the entity in \<open>ModelInfo.Entities\<close>, a \<open>*modelinfo.Property\<close> the position of the
  property in its entity's \<open>Properties\<close>. The Go code mutates the document and the
  binding in place, also on the paths that end in an error; every function therefore
  returns the document (and the binding descriptor it writes to) together with its
  result or error.
\<close>

type_synonym Id = "32 word"
type_synonym Uid = "64 word"

text \<open>Modelled from the spec: the identity pair \<open>{id: uint32, uid: uint64}\<close> (type
  \<open>modelinfo.IdUid\<close>); \<open>CreateIdUid\<close> builds one. The zero pair stands for an empty one.\<close>

datatype IdUid = CreateIdUid (idPart: Id) (uidPart: Uid)

datatype errInfo = ModelUid Uid | NotFoundInModel

datatype error =
    EntityUidNotFound Uid
  | EntityNameNotFound string
  | PropertyUidNotFound Uid
  | PropertyNameNotFound string
  | RelationUidNotFound Uid
  | RelationNameNotFound string
  | ErrPair error error
  | EntityUidAnnotationEmpty errInfo string
  | PropertyUidAnnotationEmpty string string Uid Uid
  | UnknownPropertyUidAnnotationEmpty string string
  | RelationUidAnnotationEmpty errInfo string string
  | UidGenerationFailed
  | IdCounterOverflow
  | NilIndexId
  | PropertyNotInEntity
  | RelationNotInEntity
  | OpenFileError string
  | CannotReadFile string string

text \<open>Modelled from the spec: \<open>IdUid.Get\<close> and \<open>IdUid.GetUid\<close> read the components of a
  pair. The document holds pairs already parsed, so reading succeeds; the error result
  of the Go signature is kept so that the callers' error branches stay in the model.\<close>

definition Get :: "IdUid \<Rightarrow> error + (Id \<times> Uid)" where
  "Get p = Inr (idPart p, uidPart p)"

definition GetUid :: "IdUid \<Rightarrow> error + Uid" where
  "GetUid p = Inr (uidPart p)"

text \<open>Modelled from the spec: \<open>Property\<close>, \<open>StandaloneRelation\<close>, \<open>Entity\<close> and the
  document \<open>ModelInfo\<close> of section 3 and the JSON layout of section 6. \<open>Rand\<close> is the
  random source of the UID pool, given as the sequence of values it will draw;
  \<open>HandedOutUids\<close> are the UIDs generated in this run.\<close>

record ModelProperty =
  mpId :: IdUid
  mpName :: string
  mpIndexId :: "IdUid option"
  mpType :: int
  mpFlags :: int
  mpRelationTarget :: string

record ModelRelation =
  mrId :: IdUid
  mrName :: string
  mrTargetEntityId :: IdUid

record ModelEntity =
  meId :: IdUid
  meName :: string
  meLastPropertyId :: IdUid
  meProperties :: "ModelProperty list"
  meRelations :: "ModelRelation list"

record ModelInfo =
  Note1 :: string
  Note2 :: string
  Note3 :: string
  Entities :: "ModelEntity list"
  LastEntityId :: IdUid
  LastIndexId :: IdUid
  LastRelationId :: IdUid
  ModelVersion :: int
  MinimumParserVersion :: int
  RetiredEntityUids :: "Uid list"
  RetiredIndexUids :: "Uid list"
  RetiredPropertyUids :: "Uid list"
  RetiredRelationUids :: "Uid list"
  Version :: int
  Package :: string
  Rand :: "Uid list"
  HandedOutUids :: "Uid list"

subsection \<open>Reading and writing through a pointer\<close>

definition updEntity :: "nat \<Rightarrow> (ModelEntity \<Rightarrow> ModelEntity) \<Rightarrow> ModelInfo \<Rightarrow> ModelInfo" where
  "updEntity k f m = m\<lparr>Entities := (Entities m)[k := f (Entities m ! k)]\<rparr>"

definition theProperty :: "ModelInfo \<Rightarrow> nat \<Rightarrow> nat \<Rightarrow> ModelProperty" where
  "theProperty m k j = meProperties (Entities m ! k) ! j"

definition updProperty ::
  "nat \<Rightarrow> nat \<Rightarrow> (ModelProperty \<Rightarrow> ModelProperty) \<Rightarrow> ModelInfo \<Rightarrow> ModelInfo" where
  "updProperty k j f m =
     updEntity k (\<lambda>e. e\<lparr>meProperties := (meProperties e)[j := f (meProperties e ! j)]\<rparr>) m"

definition theRelation :: "ModelInfo \<Rightarrow> nat \<Rightarrow> nat \<Rightarrow> ModelRelation" where
  "theRelation m k j = meRelations (Entities m ! k) ! j"

definition updRelation ::
  "nat \<Rightarrow> nat \<Rightarrow> (ModelRelation \<Rightarrow> ModelRelation) \<Rightarrow> ModelInfo \<Rightarrow> ModelInfo" where
  "updRelation k j f m =
     updEntity k (\<lambda>e. e\<lparr>meRelations := (meRelations e)[j := f (meRelations e ! j)]\<rparr>) m"

text \<open>The position of the first element that satisfies a test, as a linear search
  returns it.\<close>

fun findIndex :: "('a \<Rightarrow> bool) \<Rightarrow> 'a list \<Rightarrow> nat option" where
  "findIndex P [] = None"
| "findIndex P (x # xs) = (if P x then Some 0 else map_option Suc (findIndex P xs))"

text \<open>The list without its element at a position.\<close>

definition deleteAt :: "nat \<Rightarrow> 'a list \<Rightarrow> 'a list" where
  "deleteAt j xs = take j xs @ drop (Suc j) xs"

subsection \<open>UID pool\<close>

text \<open>Modelled from the spec (4.1): the known UIDs are the active identities of all
  entities, properties, indexes and relations, the four retired lists and the UIDs
  handed out in this run.\<close>

definition propertyUids :: "ModelProperty \<Rightarrow> Uid list" where
  "propertyUids p =
     uidPart (mpId p) # (case mpIndexId p of None \<Rightarrow> [] | Some ix \<Rightarrow> [uidPart ix])"

definition entityUids :: "ModelEntity \<Rightarrow> Uid list" where
  "entityUids e =
     uidPart (meId e) # concat (map propertyUids (meProperties e))
       @ map (\<lambda>r. uidPart (mrId r)) (meRelations e)"

definition knownUids :: "ModelInfo \<Rightarrow> Uid list" where
  "knownUids m =
     concat (map entityUids (Entities m))
       @ RetiredEntityUids m @ RetiredIndexUids m @ RetiredPropertyUids m
       @ RetiredRelationUids m @ HandedOutUids m"

text \<open>Modelled from the spec (4.1): \<open>Generate\<close> draws values, skipping zero (the value
  that means "unset") and every known UID, and fails when the source is exhausted.\<close>

fun drawUid :: "Uid list \<Rightarrow> Uid list \<Rightarrow> (Uid \<times> Uid list) option" where
  "drawUid known [] = None"
| "drawUid known (c # cs) =
     (if c \<noteq> 0 \<and> c \<notin> set known then Some (c, cs) else drawUid known cs)"

definition GenerateUid :: "ModelInfo \<Rightarrow> (error + Uid) \<times> ModelInfo" where
  "GenerateUid m =
     (case drawUid (knownUids m) (Rand m) of
        None \<Rightarrow> (Inl UidGenerationFailed, m\<lparr>Rand := []\<rparr>)
      | Some (u, rest) \<Rightarrow> (Inr u, m\<lparr>Rand := rest, HandedOutUids := HandedOutUids m @ [u]\<rparr>))"

subsection \<open>Lookups\<close>

text \<open>Modelled from the spec (4.2, step 1): \<open>ModelInfo.FindEntityByUid\<close> looks the UID
  up among the document's entities and fails with an unknown-UID error.\<close>

definition FindEntityByUid :: "ModelInfo \<Rightarrow> Uid \<Rightarrow> error + nat" where
  "FindEntityByUid m u =
     (case findIndex (\<lambda>e. uidPart (meId e) = u) (Entities m) of
        None \<Rightarrow> Inl (EntityUidNotFound u) | Some k \<Rightarrow> Inr k)"

text \<open>Modelled from the spec (4.2, step 2): \<open>ModelInfo.FindEntityByName\<close> looks an entity
  up by name.\<close>

definition FindEntityByName :: "ModelInfo \<Rightarrow> string \<Rightarrow> error + nat" where
  "FindEntityByName m n =
     (case findIndex (\<lambda>e. meName e = n) (Entities m) of
        None \<Rightarrow> Inl (EntityNameNotFound n) | Some k \<Rightarrow> Inr k)"

text \<open>Modelled from the spec (4.2, property merge): the same lookups, scoped to the
  entity's own property list.\<close>

definition FindPropertyByUid :: "ModelEntity \<Rightarrow> Uid \<Rightarrow> error + nat" where
  "FindPropertyByUid e u =
     (case findIndex (\<lambda>p. uidPart (mpId p) = u) (meProperties e) of
        None \<Rightarrow> Inl (PropertyUidNotFound u) | Some j \<Rightarrow> Inr j)"

definition FindPropertyByName :: "ModelEntity \<Rightarrow> string \<Rightarrow> error + nat" where
  "FindPropertyByName e n =
     (case findIndex (\<lambda>p. mpName p = n) (meProperties e) of
        None \<Rightarrow> Inl (PropertyNameNotFound n) | Some j \<Rightarrow> Inr j)"

text \<open>Modelled from the spec (4.2, relation merge): the same lookups, scoped to the
  entity's relations.\<close>

definition FindRelationByUid :: "ModelEntity \<Rightarrow> Uid \<Rightarrow> error + nat" where
  "FindRelationByUid e u =
     (case findIndex (\<lambda>r. uidPart (mrId r) = u) (meRelations e) of
        None \<Rightarrow> Inl (RelationUidNotFound u) | Some j \<Rightarrow> Inr j)"

definition FindRelationByName :: "ModelEntity \<Rightarrow> string \<Rightarrow> error + nat" where
  "FindRelationByName e n =
     (case findIndex (\<lambda>r. mrName r = n) (meRelations e) of
        None \<Rightarrow> Inl (RelationNameNotFound n) | Some j \<Rightarrow> Inr j)"

subsection \<open>Creation and removal\<close>

text \<open>Modelled from the spec (4.2, step 4): \<open>ModelInfo.CreateEntity\<close> gives the new
  entity the local id one past \<open>lastEntityId.id\<close> and a generated UID, appends it and
  records the pair as the last used one. A counter at its maximum is the spec's
  "counter overflow" failure.\<close>

definition CreateEntity :: "string \<Rightarrow> ModelInfo \<Rightarrow> (error + nat) \<times> ModelInfo" where
  "CreateEntity name m =
     (if idPart (LastEntityId m) = - 1 then (Inl IdCounterOverflow, m)
      else case GenerateUid m of
        (Inl err, m1) \<Rightarrow> (Inl err, m1)
      | (Inr u, m1) \<Rightarrow>
          let newId = CreateIdUid (idPart (LastEntityId m) + 1) u;
              entity = \<lparr>meId = newId, meName = name, meLastPropertyId = CreateIdUid 0 0,
                        meProperties = [], meRelations = []\<rparr>
          in (Inr (length (Entities m)),
              m1\<lparr>Entities := Entities m1 @ [entity], LastEntityId := newId\<rparr>))"

text \<open>Modelled from the spec (4.2, property merge): \<open>Entity.CreateProperty\<close> draws the
  local id from the entity's own \<open>lastPropertyId\<close>; the counter becomes the larger of
  its value and the pair just assigned.\<close>

definition CreateProperty :: "nat \<Rightarrow> ModelInfo \<Rightarrow> (error + nat) \<times> ModelInfo" where
  "CreateProperty k m =
     (if idPart (meLastPropertyId (Entities m ! k)) = - 1 then (Inl IdCounterOverflow, m)
      else case GenerateUid m of
        (Inl err, m1) \<Rightarrow> (Inl err, m1)
      | (Inr u, m1) \<Rightarrow>
          let newId = CreateIdUid (idPart (meLastPropertyId (Entities m ! k)) + 1) u;
              property = \<lparr>mpId = newId, mpName = [], mpIndexId = None, mpType = 0,
                          mpFlags = 0, mpRelationTarget = []\<rparr>
          in (Inr (length (meProperties (Entities m ! k))),
              updEntity k (\<lambda>e. e\<lparr>meProperties := meProperties e @ [property],
                                  meLastPropertyId :=
                                    (if idPart (meLastPropertyId e) < idPart newId then newId
                                     else meLastPropertyId e)\<rparr>) m1))"

text \<open>Modelled from the spec (4.2): \<open>Property.CreateIndex\<close> creates an index identity pair,
  one past the document's \<open>lastIndexId\<close>, with a generated UID.\<close>

definition CreateIndex :: "nat \<Rightarrow> nat \<Rightarrow> ModelInfo \<Rightarrow> error option \<times> ModelInfo" where
  "CreateIndex k j m =
     (if idPart (LastIndexId m) = - 1 then (Some IdCounterOverflow, m)
      else case GenerateUid m of
        (Inl err, m1) \<Rightarrow> (Some err, m1)
      | (Inr u, m1) \<Rightarrow>
          let newId = CreateIdUid (idPart (LastIndexId m) + 1) u
          in (None, (updProperty k j (\<lambda>p. p\<lparr>mpIndexId := Some newId\<rparr>) m1)
                      \<lparr>LastIndexId := newId\<rparr>))"

text \<open>Modelled from the spec (4.1, 4.2): \<open>Property.RemoveIndex\<close> retires the UID of the
  existing index and leaves the property without one.\<close>

definition RemoveIndex :: "nat \<Rightarrow> nat \<Rightarrow> ModelInfo \<Rightarrow> error option \<times> ModelInfo" where
  "RemoveIndex k j m =
     (case mpIndexId (theProperty m k j) of
        None \<Rightarrow> (None, m)
      | Some ix \<Rightarrow>
          (None, (updProperty k j (\<lambda>p. p\<lparr>mpIndexId := None\<rparr>) m)
                   \<lparr>RetiredIndexUids := RetiredIndexUids m @ [uidPart ix]\<rparr>))"

text \<open>Modelled from the spec (4.1, 4.2): \<open>Entity.RemoveProperty\<close> retires the property's
  UID into \<open>retiredPropertyUids\<close> and deletes its slot; the index of a removed property
  is removed with it (4.1: a removed index has its UID retired). A position outside
  the list stands for a pointer that is not among the entity's properties.\<close>

definition RemoveProperty :: "nat \<Rightarrow> nat \<Rightarrow> ModelInfo \<Rightarrow> error option \<times> ModelInfo" where
  "RemoveProperty k j m =
     (if length (meProperties (Entities m ! k)) \<le> j then (Some PropertyNotInEntity, m)
      else case (if mpIndexId (theProperty m k j) \<noteq> None then RemoveIndex k j m
                 else (None, m)) of
        (Some err, m1) \<Rightarrow> (Some err, m1)
      | (None, m1) \<Rightarrow>
          (None, (updEntity k (\<lambda>e. e\<lparr>meProperties := deleteAt j (meProperties e)\<rparr>) m1)
                   \<lparr>RetiredPropertyUids :=
                      RetiredPropertyUids m1 @ [uidPart (mpId (theProperty m k j))]\<rparr>))"

text \<open>Modelled from the spec (3, 4.2): \<open>Entity.CreateRelation\<close> appends a relation whose
  local id is one past the document's \<open>lastRelationId\<close> (the only relation counter of
  the data model), with a generated UID.\<close>

definition CreateRelation :: "nat \<Rightarrow> ModelInfo \<Rightarrow> (error + nat) \<times> ModelInfo" where
  "CreateRelation k m =
     (if idPart (LastRelationId m) = - 1 then (Inl IdCounterOverflow, m)
      else case GenerateUid m of
        (Inl err, m1) \<Rightarrow> (Inl err, m1)
      | (Inr u, m1) \<Rightarrow>
          let newId = CreateIdUid (idPart (LastRelationId m) + 1) u;
              relation = \<lparr>mrId = newId, mrName = [], mrTargetEntityId = CreateIdUid 0 0\<rparr>
          in (Inr (length (meRelations (Entities m ! k))),
              (updEntity k (\<lambda>e. e\<lparr>meRelations := meRelations e @ [relation]\<rparr>) m1)
                \<lparr>LastRelationId := newId\<rparr>))"

text \<open>Modelled from the spec (4.2): \<open>Entity.RemoveRelation\<close> deletes the relation and
  retires its UID.\<close>

definition RemoveRelation :: "nat \<Rightarrow> nat \<Rightarrow> ModelInfo \<Rightarrow> error option \<times> ModelInfo" where
  "RemoveRelation k j m =
     (if length (meRelations (Entities m ! k)) \<le> j then (Some RelationNotInEntity, m)
      else (None, (updEntity k (\<lambda>e. e\<lparr>meRelations := deleteAt j (meRelations e)\<rparr>) m)
                    \<lparr>RetiredRelationUids :=
                       RetiredRelationUids m @ [uidPart (mrId (theRelation m k j))]\<rparr>))"

text \<open>Modelled from the spec (3): \<open>StandaloneRelation.SetTarget\<close> stores the target
  entity's identity in \<open>targetEntityId\<close>.\<close>

definition SetTarget :: "ModelEntity \<Rightarrow> ModelRelation \<Rightarrow> ModelRelation" where
  "SetTarget targetEntity r = r\<lparr>mrTargetEntityId := meId targetEntity\<rparr>"

section \<open>Binding descriptors (package generator)\<close>

text \<open>Modelled from the spec (3, binding-side descriptors): the entity, property and
  relation descriptors that the reconciler reads and writes identities back to. Only
  the fields that the reconciler touches are kept. \<open>bpEntityName\<close> is what
  \<open>bindingProperty.entity.Name\<close> reads, \<open>bpRelation\<close> is
  \<open>bindingProperty.Relation.Target.Name\<close> when \<open>Relation\<close> is not nil, and \<open>bpObFlags\<close>
  is the value of \<open>ObFlagsCombined()\<close>.\<close>

record BindingIndex =
  biId :: Id
  biUid :: Uid

record BindingTarget =
  btName :: string
  btId :: Id
  btUid :: Uid

record BindingRelation =
  brName :: string
  brId :: Id
  brUid :: Uid
  brUidRequest :: bool
  brTarget :: BindingTarget

record BindingProperty =
  bpName :: string
  bpId :: Id
  bpUid :: Uid
  bpUidRequest :: bool
  bpIndex :: "BindingIndex option"
  bpRelation :: "string option"
  bpObType :: int
  bpObFlags :: int
  bpEntityName :: string

record BindingEntity =
  beName :: string
  beId :: Id
  beUid :: Uid
  beUidRequest :: bool
  beProperties :: "BindingProperty list"
  beRelations :: "BindingRelation list"
  beLastPropertyId :: IdUid

record Binding =
  bPackageName :: string
  bEntities :: "BindingEntity list"

definition ObFlagsCombined :: "BindingProperty \<Rightarrow> int" where
  "ObFlagsCombined bindingProperty = bpObFlags bindingProperty"

section \<open>The reconciler\<close>

subsection \<open>Entities\<close>

text \<open>\<open>getModelEntity\<close>: an explicit UID is looked up and nothing else; otherwise the
  name is looked up, a UID request is refused, and a missing entity is created.\<close>

definition getModelEntity :: "BindingEntity \<Rightarrow> ModelInfo \<Rightarrow> (error + nat) \<times> ModelInfo" where
  "getModelEntity bindingEntity modelInfo =
     (if beUid bindingEntity \<noteq> 0 then
        (FindEntityByUid modelInfo (beUid bindingEntity), modelInfo)
      else
        let entity = FindEntityByName modelInfo (beName bindingEntity) in
        if beUidRequest bindingEntity then
          (case entity of
             Inr k \<Rightarrow>
               (case GetUid (meId (Entities modelInfo ! k)) of
                  Inl err \<Rightarrow> (Inl err, modelInfo)
                | Inr uid \<Rightarrow>
                    (Inl (EntityUidAnnotationEmpty (ModelUid uid) (beName bindingEntity)),
                     modelInfo))
           | Inl _ \<Rightarrow>
               (Inl (EntityUidAnnotationEmpty NotFoundInModel (beName bindingEntity)),
                modelInfo))
        else
          (case entity of
             Inl _ \<Rightarrow> CreateEntity (beName bindingEntity) modelInfo
           | Inr k \<Rightarrow> (Inr k, modelInfo)))"

subsection \<open>Properties\<close>

text \<open>\<open>getModelProperty\<close>. With an explicit UID the property is looked up by UID and,
  failing that, by name (the "reset property data" use-case); both lookups failing
  gives the two errors joined.\<close>

definition getModelProperty ::
  "BindingProperty \<Rightarrow> nat \<Rightarrow> ModelInfo \<Rightarrow> (error + nat) \<times> ModelInfo" where
  "getModelProperty bindingProperty k modelInfo =
     (let modelEntity = Entities modelInfo ! k in
      if bpUid bindingProperty \<noteq> 0 then
        (case FindPropertyByUid modelEntity (bpUid bindingProperty) of
           Inr j \<Rightarrow> (Inr j, modelInfo)
         | Inl err \<Rightarrow>
             (case FindPropertyByName modelEntity (bpName bindingProperty) of
                Inl err2 \<Rightarrow> (Inl (ErrPair err err2), modelInfo)
              | Inr j \<Rightarrow> (Inr j, modelInfo)))
      else
        let property = FindPropertyByName modelEntity (bpName bindingProperty) in
        if bpUidRequest bindingProperty then
          (case property of
             Inr j \<Rightarrow>
               (case GetUid (mpId (meProperties modelEntity ! j)) of
                  Inl err \<Rightarrow> (Inl err, modelInfo)
                | Inr uid \<Rightarrow>
                    (case GenerateUid modelInfo of
                       (Inl err, m1) \<Rightarrow> (Inl err, m1)
                     | (Inr newUid, m1) \<Rightarrow>
                         (Inl (PropertyUidAnnotationEmpty (bpName bindingProperty)
                                 (bpEntityName bindingProperty) uid newUid), m1)))
           | Inl _ \<Rightarrow>
               (Inl (UnknownPropertyUidAnnotationEmpty (bpName bindingProperty)
                       (bpEntityName bindingProperty)), modelInfo))
        else
          (case property of
             Inl _ \<Rightarrow> CreateProperty k modelInfo
           | Inr j \<Rightarrow> (Inr j, modelInfo)))"

text \<open>The index part of \<open>mergeModelProperty\<close> (the branch on \<open>bindingProperty.Index\<close>).\<close>

definition mergeModelPropertyIndex ::
  "BindingProperty \<Rightarrow> nat \<Rightarrow> nat \<Rightarrow> ModelInfo \<Rightarrow> error option \<times> BindingProperty \<times> ModelInfo" where
  "mergeModelPropertyIndex bindingProperty k j m =
     (case bpIndex bindingProperty of
        None \<Rightarrow>
          (if mpIndexId (theProperty m k j) \<noteq> None then
             (case RemoveIndex k j m of (err, m1) \<Rightarrow> (err, bindingProperty, m1))
           else (None, bindingProperty, m))
      | Some bindingIndex \<Rightarrow>
          (case (if mpIndexId (theProperty m k j) = None then CreateIndex k j m
                 else (None, m)) of
             (Some err, m1) \<Rightarrow> (Some err, bindingProperty, m1)
           | (None, m1) \<Rightarrow>
               (case mpIndexId (theProperty m1 k j) of
                  None \<Rightarrow> (Some NilIndexId, bindingProperty, m1)
                | Some ix \<Rightarrow>
                    (case Get ix of
                       Inl err \<Rightarrow> (Some err, bindingProperty, m1)
                     | Inr (i, u) \<Rightarrow>
                         (None,
                          bindingProperty\<lparr>bpIndex := Some (bindingIndex\<lparr>biId := i, biUid := u\<rparr>)\<rparr>,
                          m1)))))"

text \<open>\<open>mergeModelProperty\<close>: the name is copied; an explicit UID replaces the UID of
  the model property and keeps its local id; the pair is read back; the index is
  reconciled; relation target, type and flags are copied.\<close>

definition mergeModelProperty ::
  "BindingProperty \<Rightarrow> nat \<Rightarrow> nat \<Rightarrow> ModelInfo \<Rightarrow> error option \<times> BindingProperty \<times> ModelInfo" where
  "mergeModelProperty bindingProperty k j m =
     (let m1 = updProperty k j (\<lambda>p. p\<lparr>mpName := bpName bindingProperty\<rparr>) m in
      case (if bpUid bindingProperty \<noteq> 0 then
              (case Get (mpId (theProperty m1 k j)) of
                 Inl err \<Rightarrow> Inl err
               | Inr (i, _) \<Rightarrow>
                   Inr (updProperty k j
                          (\<lambda>p. p\<lparr>mpId := CreateIdUid i (bpUid bindingProperty)\<rparr>) m1))
            else Inr m1) of
        Inl err \<Rightarrow> (Some err, bindingProperty, m1)
      | Inr m2 \<Rightarrow>
          (case Get (mpId (theProperty m2 k j)) of
             Inl err \<Rightarrow> (Some err, bindingProperty, m2)
           | Inr (i, u) \<Rightarrow>
               (case mergeModelPropertyIndex (bindingProperty\<lparr>bpId := i, bpUid := u\<rparr>) k j m2 of
                  (Some err, bp2, m3) \<Rightarrow> (Some err, bp2, m3)
                | (None, bp2, m3) \<Rightarrow>
                    (None, bp2,
                     updProperty k j
                       (\<lambda>p. p\<lparr>mpRelationTarget :=
                                 (case bpRelation bindingProperty of
                                    Some targetName \<Rightarrow> targetName | None \<Rightarrow> []),
                               mpType := bpObType bindingProperty,
                               mpFlags := ObFlagsCombined bindingProperty\<rparr>) m3))))"

definition bindingPropertyExists :: "ModelProperty \<Rightarrow> BindingEntity \<Rightarrow> bool" where
  "bindingPropertyExists modelProperty bindingEntity =
     list_ex (\<lambda>bindingProperty. bpName bindingProperty = mpName modelProperty)
       (beProperties bindingEntity)"

text \<open>The first loop of the property region of \<open>mergeModelEntity\<close>.\<close>

fun mergeProperties ::
  "BindingProperty list \<Rightarrow> nat \<Rightarrow> ModelInfo \<Rightarrow> error option \<times> BindingProperty list \<times> ModelInfo" where
  "mergeProperties [] k m = (None, [], m)"
| "mergeProperties (bp # bps) k m =
     (case getModelProperty bp k m of
        (Inl err, m1) \<Rightarrow> (Some err, bp # bps, m1)
      | (Inr j, m1) \<Rightarrow>
          (case mergeModelProperty bp k j m1 of
             (Some err, bp', m2) \<Rightarrow> (Some err, bp' # bps, m2)
           | (None, bp', m2) \<Rightarrow>
               (case mergeProperties bps k m2 of
                  (err, bps', m3) \<Rightarrow> (err, bp' # bps', m3))))"

text \<open>The second loop collects the pointers of the properties that no binding property
  is named like: here, their positions in list order.\<close>

definition removedProperties :: "ModelProperty list \<Rightarrow> BindingEntity \<Rightarrow> nat list" where
  "removedProperties ps bindingEntity =
     filter (\<lambda>j. \<not> bindingPropertyExists (ps ! j) bindingEntity) [0..<length ps]"

text \<open>The third loop removes them one by one. A property collected at position \<open>j\<close>
  stands at position \<open>j - removed\<close> once \<open>removed\<close> properties before it are gone.\<close>

fun removeProperties :: "nat list \<Rightarrow> nat \<Rightarrow> nat \<Rightarrow> ModelInfo \<Rightarrow> error option \<times> ModelInfo" where
  "removeProperties [] removed k m = (None, m)"
| "removeProperties (j # js) removed k m =
     (case RemoveProperty k (j - removed) m of
        (Some err, m1) \<Rightarrow> (Some err, m1)
      | (None, m1) \<Rightarrow> removeProperties js (Suc removed) k m1)"

subsection \<open>Standalone relations\<close>

definition getModelRelation ::
  "BindingRelation \<Rightarrow> nat \<Rightarrow> ModelInfo \<Rightarrow> (error + nat) \<times> ModelInfo" where
  "getModelRelation bindingRelation k modelInfo =
     (let modelEntity = Entities modelInfo ! k in
      if brUid bindingRelation \<noteq> 0 then
        (FindRelationByUid modelEntity (brUid bindingRelation), modelInfo)
      else
        let relation = FindRelationByName modelEntity (brName bindingRelation) in
        if brUidRequest bindingRelation then
          (case relation of
             Inr j \<Rightarrow>
               (case GetUid (mrId (meRelations modelEntity ! j)) of
                  Inl err \<Rightarrow> (Inl err, modelInfo)
                | Inr uid \<Rightarrow>
                    (Inl (RelationUidAnnotationEmpty (ModelUid uid) (brName bindingRelation)
                            (meName modelEntity)), modelInfo))
           | Inl _ \<Rightarrow>
               (Inl (RelationUidAnnotationEmpty NotFoundInModel (brName bindingRelation)
                       (meName modelEntity)), modelInfo))
        else
          (case relation of
             Inl _ \<Rightarrow> CreateRelation k modelInfo
           | Inr j \<Rightarrow> (Inr j, modelInfo)))"

text \<open>\<open>mergeModelRelation\<close>: the target entity is looked up by name in the document as it
  is at this moment.\<close>

definition mergeModelRelation ::
  "BindingRelation \<Rightarrow> nat \<Rightarrow> nat \<Rightarrow> ModelInfo \<Rightarrow> error option \<times> BindingRelation \<times> ModelInfo" where
  "mergeModelRelation bindingRelation k j m =
     (let m1 = updRelation k j (\<lambda>r. r\<lparr>mrName := brName bindingRelation\<rparr>) m in
      case Get (mrId (theRelation m1 k j)) of
        Inl err \<Rightarrow> (Some err, bindingRelation, m1)
      | Inr (i, u) \<Rightarrow>
          let br1 = bindingRelation\<lparr>brId := i, brUid := u\<rparr> in
          (case FindEntityByName m1 (btName (brTarget br1)) of
             Inl err \<Rightarrow> (Some err, br1, m1)
           | Inr t \<Rightarrow>
               (case Get (meId (Entities m1 ! t)) of
                  Inl err \<Rightarrow> (Some err, br1, m1)
                | Inr (ti, tu) \<Rightarrow>
                    (None, br1\<lparr>brTarget := (brTarget br1)\<lparr>btId := ti, btUid := tu\<rparr>\<rparr>,
                     updRelation k j (SetTarget (Entities m1 ! t)) m1))))"

definition bindingRelationExists :: "ModelRelation \<Rightarrow> BindingEntity \<Rightarrow> bool" where
  "bindingRelationExists modelRelation bindingEntity =
     list_ex (\<lambda>bindingRelation. brName bindingRelation = mrName modelRelation)
       (beRelations bindingEntity)"

fun mergeRelations ::
  "BindingRelation list \<Rightarrow> nat \<Rightarrow> ModelInfo \<Rightarrow> error option \<times> BindingRelation list \<times> ModelInfo" where
  "mergeRelations [] k m = (None, [], m)"
| "mergeRelations (br # brs) k m =
     (case getModelRelation br k m of
        (Inl err, m1) \<Rightarrow> (Some err, br # brs, m1)
      | (Inr j, m1) \<Rightarrow>
          (case mergeModelRelation br k j m1 of
             (Some err, br', m2) \<Rightarrow> (Some err, br' # brs, m2)
           | (None, br', m2) \<Rightarrow>
               (case mergeRelations brs k m2 of
                  (err, brs', m3) \<Rightarrow> (err, br' # brs', m3))))"

definition removedRelations :: "ModelRelation list \<Rightarrow> BindingEntity \<Rightarrow> nat list" where
  "removedRelations rs bindingEntity =
     filter (\<lambda>j. \<not> bindingRelationExists (rs ! j) bindingEntity) [0..<length rs]"

fun removeRelations :: "nat list \<Rightarrow> nat \<Rightarrow> nat \<Rightarrow> ModelInfo \<Rightarrow> error option \<times> ModelInfo" where
  "removeRelations [] removed k m = (None, m)"
| "removeRelations (j # js) removed k m =
     (case RemoveRelation k (j - removed) m of
        (Some err, m1) \<Rightarrow> (Some err, m1)
      | (None, m1) \<Rightarrow> removeRelations js (Suc removed) k m1)"

subsection \<open>Merging one entity and the whole binding\<close>

definition mergeModelEntity ::
  "BindingEntity \<Rightarrow> nat \<Rightarrow> ModelInfo \<Rightarrow> error option \<times> BindingEntity \<times> ModelInfo" where
  "mergeModelEntity bindingEntity k modelInfo =
     (let m1 = updEntity k (\<lambda>e. e\<lparr>meName := beName bindingEntity\<rparr>) modelInfo in
      case Get (meId (Entities m1 ! k)) of
        Inl err \<Rightarrow> (Some err, bindingEntity, m1)
      | Inr (i, u) \<Rightarrow>
          let be1 = bindingEntity\<lparr>beId := i, beUid := u\<rparr> in
          (case mergeProperties (beProperties be1) k m1 of
             (Some err, bps, m2) \<Rightarrow> (Some err, be1\<lparr>beProperties := bps\<rparr>, m2)
           | (None, bps, m2) \<Rightarrow>
               let be2 = be1\<lparr>beProperties := bps\<rparr> in
               (case removeProperties
                       (removedProperties (meProperties (Entities m2 ! k)) be2) 0 k m2 of
                  (Some err, m3) \<Rightarrow> (Some err, be2, m3)
                | (None, m3) \<Rightarrow>
                    let be3 = be2\<lparr>beLastPropertyId := meLastPropertyId (Entities m3 ! k)\<rparr> in
                    (case mergeRelations (beRelations be3) k m3 of
                       (Some err, brs, m4) \<Rightarrow> (Some err, be3\<lparr>beRelations := brs\<rparr>, m4)
                     | (None, brs, m4) \<Rightarrow>
                         let be4 = be3\<lparr>beRelations := brs\<rparr> in
                         (case removeRelations
                                 (removedRelations (meRelations (Entities m4 ! k)) be4) 0 k m4 of
                            (err, m5) \<Rightarrow> (err, be4, m5))))))"

text \<open>The first loop of \<open>mergeBindingWithModelInfo\<close> prepares all entities.\<close>

fun getModelEntities :: "BindingEntity list \<Rightarrow> ModelInfo \<Rightarrow> (error + nat list) \<times> ModelInfo" where
  "getModelEntities [] m = (Inr [], m)"
| "getModelEntities (be # bes) m =
     (case getModelEntity be m of
        (Inl err, m1) \<Rightarrow> (Inl err, m1)
      | (Inr k, m1) \<Rightarrow>
          (case getModelEntities bes m1 of
             (Inl err, m2) \<Rightarrow> (Inl err, m2)
           | (Inr ks, m2) \<Rightarrow> (Inr (k # ks), m2)))"

text \<open>The second loop merges each binding entity into the entity prepared for it.\<close>

fun mergeModelEntities ::
  "BindingEntity list \<Rightarrow> nat list \<Rightarrow> ModelInfo \<Rightarrow> error option \<times> BindingEntity list \<times> ModelInfo" where
  "mergeModelEntities (be # bes) (k # ks) m =
     (case mergeModelEntity be k m of
        (Some err, be', m1) \<Rightarrow> (Some err, be' # bes, m1)
      | (None, be', m1) \<Rightarrow>
          (case mergeModelEntities bes ks m1 of
             (err, bes', m2) \<Rightarrow> (err, be' # bes', m2)))"
| "mergeModelEntities bes ks m = (None, bes, m)"

definition mergeBindingWithModelInfo ::
  "Binding \<Rightarrow> ModelInfo \<Rightarrow> error option \<times> Binding \<times> ModelInfo" where
  "mergeBindingWithModelInfo binding modelInfo =
     (case getModelEntities (bEntities binding) modelInfo of
        (Inl err, m1) \<Rightarrow> (Some err, binding, m1)
      | (Inr models, m1) \<Rightarrow>
          (case mergeModelEntities (bEntities binding) models m1 of
             (Some err, bes, m2) \<Rightarrow> (Some err, binding\<lparr>bEntities := bes\<rparr>, m2)
           | (None, bes, m2) \<Rightarrow>
               (None, binding\<lparr>bEntities := bes\<rparr>, m2\<lparr>Package := bPackageName binding\<rparr>)))"

section \<open>Loading the model file (modelinfo/fileio.go)\<close>

text \<open>Modelled from the spec (4.3): \<open>ModelInfo.fillMissing\<close> fills the missing optional
  fields other than the versions with defaults: here the three notes, as the model files
  of the test data carry them. Absent lists are empty lists already.\<close>

definition fillMissing :: "ModelInfo \<Rightarrow> ModelInfo" where
  "fillMissing model =
     model\<lparr>Note1 := (if Note1 model = [] then
                       ''KEEP THIS FILE! Check it into a version control system (VCS) like git.''
                     else Note1 model),
           Note2 := (if Note2 model = [] then
                       ''ObjectBox manages crucial IDs for your object model. See docs for details.''
                     else Note2 model),
           Note3 := (if Note3 model = [] then
                       ''If you have VCS merge conflicts, you must resolve them according to ObjectBox docs.''
                     else Note3 model)\<rparr>"

text \<open>The file system as the loader sees it: at a path there is no file, or a file whose
  reading and unmarshalling fails with an error text, or a file that holds a document.\<close>

type_synonym FileSystem = "string \<Rightarrow> (string + ModelInfo) option"

definition fileExists :: "FileSystem \<Rightarrow> string \<Rightarrow> bool" where
  "fileExists fs path = (fs path \<noteq> None)"

text \<open>\<open>loadModelFromJSONFile\<close>: opening a missing file fails; a read or unmarshal error
  is reported with the path; a document with \<open>ModelVersion\<close> and
  \<open>MinimumParserVersion\<close> zero and an empty \<open>Note1\<close> is taken for a version 4 file;
  then the missing fields are filled.\<close>

definition loadModelFromJSONFile :: "FileSystem \<Rightarrow> string \<Rightarrow> error + ModelInfo" where
  "loadModelFromJSONFile fs path =
     (case fs path of
        None \<Rightarrow> Inl (OpenFileError path)
      | Some (Inl err) \<Rightarrow> Inl (CannotReadFile path err)
      | Some (Inr model) \<Rightarrow>
          let model1 =
                (if ModelVersion model = 0 \<and> MinimumParserVersion model = 0
                    \<and> length (Note1 model) = 0
                 then model\<lparr>ModelVersion := 4, MinimumParserVersion := 4\<rparr>
                 else model)
          in Inr (fillMissing model1))"

text \<open>Modelled from the spec (4.3): \<open>createModelInfo\<close> synthesizes an empty document with
  the current version fields (5, as the generated model file of the test data has them).\<close>

definition createModelInfo :: ModelInfo where
  "createModelInfo =
     fillMissing
       \<lparr>Note1 = [], Note2 = [], Note3 = [], Entities = [],
        LastEntityId = CreateIdUid 0 0, LastIndexId = CreateIdUid 0 0,
        LastRelationId = CreateIdUid 0 0, ModelVersion = 5, MinimumParserVersion = 5,
        RetiredEntityUids = [], RetiredIndexUids = [], RetiredPropertyUids = [],
        RetiredRelationUids = [], Version = 1, Package = [], Rand = [],
        HandedOutUids = []\<rparr>"

text \<open>\<open>createModelJSONFile\<close> creates the file with the initial content; opening and
  writing a new file do not fail in this file system.\<close>

definition createModelJSONFile ::
  "FileSystem \<Rightarrow> string \<Rightarrow> (error + ModelInfo) \<times> FileSystem" where
  "createModelJSONFile fs path =
     (Inr createModelInfo, fs(path := Some (Inr createModelInfo)))"

text \<open>\<open>LoadOrCreateModel\<close>, with the file system after it: an existing file is loaded
  and left as it is, a missing one is created.\<close>

definition LoadOrCreateModel ::
  "FileSystem \<Rightarrow> string \<Rightarrow> (error + ModelInfo) \<times> FileSystem" where
  "LoadOrCreateModel fs path =
     (if fileExists fs path then (loadModelFromJSONFile fs path, fs)
      else createModelJSONFile fs path)"

section \<open>Notions used in the proofs\<close>

text \<open>Frames (what a step leaves alone), the growth of the property counters, the
  identity of the entity that a name denotes, and what it means for a binding to be in
  place in a document.\<close>

definition othersSame :: "nat \<Rightarrow> ModelInfo \<Rightarrow> ModelInfo \<Rightarrow> bool" where
  "othersSame k m m' =
     (length (Entities m') = length (Entities m)
      \<and> (\<forall>i. i \<noteq> k \<longrightarrow> Entities m' ! i = Entities m ! i)
      \<and> meId (Entities m' ! k) = meId (Entities m ! k)
      \<and> meName (Entities m' ! k) = meName (Entities m ! k))"

definition propsStep :: "nat \<Rightarrow> ModelInfo \<Rightarrow> ModelInfo \<Rightarrow> bool" where
  "propsStep k m m' =
     (othersSame k m m' \<and> meRelations (Entities m' ! k) = meRelations (Entities m ! k))"

definition relsStep :: "nat \<Rightarrow> ModelInfo \<Rightarrow> ModelInfo \<Rightarrow> bool" where
  "relsStep k m m' =
     (othersSame k m m' \<and> meProperties (Entities m' ! k) = meProperties (Entities m ! k)
      \<and> meLastPropertyId (Entities m' ! k) = meLastPropertyId (Entities m ! k))"

definition lastPropertyIdsGrow :: "ModelInfo \<Rightarrow> ModelInfo \<Rightarrow> bool" where
  "lastPropertyIdsGrow m m' =
     (length (Entities m) \<le> length (Entities m')
      \<and> (\<forall>k<length (Entities m).
            idPart (meLastPropertyId (Entities m ! k))
              \<le> idPart (meLastPropertyId (Entities m' ! k))))"

text \<open>The identity of the first entity that bears a name, as \<open>FindEntityByName\<close> finds
  it.\<close>

definition targetId :: "ModelInfo \<Rightarrow> string \<Rightarrow> IdUid option" where
  "targetId m n =
     (case findIndex (\<lambda>e. meName e = n) (Entities m) of
        None \<Rightarrow> None | Some t \<Rightarrow> Some (meId (Entities m ! t)))"

text \<open>How the lookups of the reconciler find a document element for a binding
  descriptor once the document has it: by the explicit UID when there is one, by the
  name otherwise.\<close>

definition propertyKey :: "BindingProperty \<Rightarrow> ModelProperty \<Rightarrow> bool" where
  "propertyKey bp p =
     (if bpUid bp \<noteq> 0 then uidPart (mpId p) = bpUid bp else mpName p = bpName bp)"

definition relationKey :: "BindingRelation \<Rightarrow> ModelRelation \<Rightarrow> bool" where
  "relationKey br r =
     (if brUid br \<noteq> 0 then uidPart (mrId r) = brUid br else mrName r = brName br)"

definition entityKey :: "BindingEntity \<Rightarrow> ModelEntity \<Rightarrow> bool" where
  "entityKey be e =
     (if beUid be \<noteq> 0 then uidPart (meId e) = beUid be else meName e = beName be)"

text \<open>A document property has what \<open>mergeModelProperty\<close> gives it for a binding
  property.\<close>

definition propertyMerged :: "BindingProperty \<Rightarrow> ModelProperty \<Rightarrow> bool" where
  "propertyMerged bp p =
     (mpName p = bpName bp
      \<and> (mpIndexId p \<noteq> None) = (bpIndex bp \<noteq> None)
      \<and> mpRelationTarget p
           = (case bpRelation bp of Some targetName \<Rightarrow> targetName | None \<Rightarrow> [])
      \<and> mpType p = bpObType bp \<and> mpFlags p = ObFlagsCombined bp)"

text \<open>A binding is in place in a document when every descriptor of it is found by its
  lookup, the element found has the name and the attributes of the descriptor already,
  every relation points to the first entity that bears its target's name, and the
  entities found have no property or relation that the binding lacks.\<close>

definition propertyInPlace :: "BindingProperty \<Rightarrow> ModelProperty list \<Rightarrow> bool" where
  "propertyInPlace bp ps =
     ((bpUid bp \<noteq> 0 \<or> \<not> bpUidRequest bp)
      \<and> (case find (propertyKey bp) ps of None \<Rightarrow> False | Some p \<Rightarrow> propertyMerged bp p))"

definition relationInPlace :: "BindingRelation \<Rightarrow> ModelRelation list \<Rightarrow> ModelInfo \<Rightarrow> bool" where
  "relationInPlace br rs m =
     ((brUid br \<noteq> 0 \<or> \<not> brUidRequest br)
      \<and> (case find (relationKey br) rs of
            None \<Rightarrow> False
          | Some r \<Rightarrow> mrName r = brName br
              \<and> targetId m (btName (brTarget br)) = Some (mrTargetEntityId r)))"

definition contentInPlace :: "BindingEntity \<Rightarrow> ModelEntity \<Rightarrow> ModelInfo \<Rightarrow> bool" where
  "contentInPlace be e m =
     (list_all (\<lambda>bp. propertyInPlace bp (meProperties e)) (beProperties be)
      \<and> list_all (\<lambda>p. bindingPropertyExists p be) (meProperties e)
      \<and> list_all (\<lambda>br. relationInPlace br (meRelations e) m) (beRelations be)
      \<and> list_all (\<lambda>r. bindingRelationExists r be) (meRelations e))"

definition entityInPlace :: "BindingEntity \<Rightarrow> ModelInfo \<Rightarrow> bool" where
  "entityInPlace be m =
     ((beUid be \<noteq> 0 \<or> \<not> beUidRequest be)
      \<and> (case find (entityKey be) (Entities m) of
            None \<Rightarrow> False
          | Some e \<Rightarrow> meName e = beName be \<and> contentInPlace be e m))"

definition inPlace :: "Binding \<Rightarrow> ModelInfo \<Rightarrow> bool" where
  "inPlace b m = list_all (\<lambda>be. entityInPlace be m) (bEntities b)"

text \<open>What one merge leaves for a relation and for an entity, told with the descriptor
  as the merge wrote it back (\<open>br'\<close>, \<open>be'\<close>): the relation found for \<open>br\<close> points to
  the target identity that was written to \<open>br'\<close>.\<close>

definition relationResolved ::
  "BindingRelation \<Rightarrow> BindingRelation \<Rightarrow> ModelRelation list \<Rightarrow> bool" where
  "relationResolved br br' rs =
     ((brUid br \<noteq> 0 \<or> \<not> brUidRequest br)
      \<and> btName (brTarget br') = btName (brTarget br)
      \<and> (case find (relationKey br) rs of
            None \<Rightarrow> False
          | Some r \<Rightarrow> mrName r = brName br
              \<and> mrTargetEntityId r
                   = CreateIdUid (btId (brTarget br')) (btUid (brTarget br'))))"

definition entityContent :: "BindingEntity \<Rightarrow> BindingEntity \<Rightarrow> ModelEntity \<Rightarrow> bool" where
  "entityContent be be' e =
     (meName e = beName be
      \<and> list_all (\<lambda>bp. propertyInPlace bp (meProperties e)) (beProperties be)
      \<and> list_all (\<lambda>p. bindingPropertyExists p be) (meProperties e)
      \<and> list_all2 (\<lambda>br br'. relationResolved br br' (meRelations e))
           (beRelations be) (beRelations be')
      \<and> list_all (\<lambda>r. bindingRelationExists r be) (meRelations e))"

definition entityResolved :: "BindingEntity \<Rightarrow> BindingEntity \<Rightarrow> ModelEntity list \<Rightarrow> bool" where
  "entityResolved be be' es =
     (case find (entityKey be) es of None \<Rightarrow> False | Some e \<Rightarrow> entityContent be be' e)"

text \<open>The conditions under which a second merge is shown to change nothing. The names
  of a binding are distinct: no two entities have the same name, and within an entity no
  two properties and no two relations have.\<close>

definition distinctNames :: "Binding \<Rightarrow> bool" where
  "distinctNames b =
     (distinct (map beName (bEntities b))
      \<and> list_all (\<lambda>be. distinct (map bpName (beProperties be))
                       \<and> distinct (map brName (beRelations be))) (bEntities b))"

text \<open>A merge writes the identity of the document element it resolved a descriptor to
  back into the descriptor. The descriptors of a merged binding were resolved apart when
  the local ids written back to its entities are pairwise distinct, and so are the ones
  written back to the properties, and to the relations, of each entity: no two
  descriptors were resolved to one document element.\<close>

definition resolvedApart :: "Binding \<Rightarrow> bool" where
  "resolvedApart b =
     (distinct (map beId (bEntities b))
      \<and> list_all (\<lambda>be. distinct (map bpId (beProperties be))
                       \<and> distinct (map brId (beRelations be))) (bEntities b))"

text \<open>The target identity written back to each relation of a merged binding is the
  identity of the first entity of the document that bears the target's name.\<close>

definition targetsAsNamed :: "Binding \<Rightarrow> ModelInfo \<Rightarrow> bool" where
  "targetsAsNamed b m =
     list_all (\<lambda>be. list_all (\<lambda>br. targetId m (btName (brTarget br))
                                     = Some (CreateIdUid (btId (brTarget br)) (btUid (brTarget br))))
                       (beRelations be)) (bEntities b)"

text \<open>The binding and the document that a merge leaves.\<close>

definition mergedBinding :: "Binding \<Rightarrow> ModelInfo \<Rightarrow> Binding" where
  "mergedBinding b m = fst (snd (mergeBindingWithModelInfo b m))"

definition mergedModel :: "Binding \<Rightarrow> ModelInfo \<Rightarrow> ModelInfo" where
  "mergedModel b m = snd (snd (mergeBindingWithModelInfo b m))"

text \<open>What the two removal loops of \<open>mergeModelEntity\<close> leave: the properties
  (relations) that some binding property (relation) is named like, and the UIDs of the
  others retired.\<close>

definition withoutMissingProperties :: "BindingEntity \<Rightarrow> nat \<Rightarrow> ModelInfo \<Rightarrow> ModelInfo" where
  "withoutMissingProperties be k m =
     m\<lparr>Entities := (Entities m)[k := (Entities m ! k)
          \<lparr>meProperties := filter (\<lambda>p. bindingPropertyExists p be)
                             (meProperties (Entities m ! k))\<rparr>],
       RetiredIndexUids := RetiredIndexUids m
         @ concat (map (\<lambda>p. tl (propertyUids p))
             (filter (\<lambda>p. \<not> bindingPropertyExists p be) (meProperties (Entities m ! k)))),
       RetiredPropertyUids := RetiredPropertyUids m
         @ map (\<lambda>p. uidPart (mpId p))
             (filter (\<lambda>p. \<not> bindingPropertyExists p be) (meProperties (Entities m ! k)))\<rparr>"

definition withoutMissingRelations :: "BindingEntity \<Rightarrow> nat \<Rightarrow> ModelInfo \<Rightarrow> ModelInfo" where
  "withoutMissingRelations be k m =
     m\<lparr>Entities := (Entities m)[k := (Entities m ! k)
          \<lparr>meRelations := filter (\<lambda>x. bindingRelationExists x be)
                            (meRelations (Entities m ! k))\<rparr>],
       RetiredRelationUids := RetiredRelationUids m
         @ map (\<lambda>x. uidPart (mrId x))
             (filter (\<lambda>x. \<not> bindingRelationExists x be) (meRelations (Entities m ! k)))\<rparr>"

section \<open>Example documents and bindings\<close>

text \<open>A document with one entity \<open>Task\<close> and two properties, the second one indexed,
  and builders for binding descriptors; the concrete checks below use them.\<close>

definition exProperties :: "ModelProperty list" where
  "exProperties =
     [\<lparr>mpId = CreateIdUid 1 100, mpName = ''Id'', mpIndexId = None, mpType = 6, mpFlags = 1,
       mpRelationTarget = []\<rparr>,
      \<lparr>mpId = CreateIdUid 2 101, mpName = ''Name'', mpIndexId = Some (CreateIdUid 1 300),
       mpType = 9, mpFlags = 8, mpRelationTarget = []\<rparr>]"

definition exModel :: ModelInfo where
  "exModel =
     \<lparr>Note1 = [], Note2 = [], Note3 = [],
      Entities = [\<lparr>meId = CreateIdUid 1 50, meName = ''Task'',
                   meLastPropertyId = CreateIdUid 2 101, meProperties = exProperties,
                   meRelations = []\<rparr>],
      LastEntityId = CreateIdUid 1 50, LastIndexId = CreateIdUid 1 300,
      LastRelationId = CreateIdUid 0 0, ModelVersion = 5, MinimumParserVersion = 5,
      RetiredEntityUids = [], RetiredIndexUids = [], RetiredPropertyUids = [],
      RetiredRelationUids = [], Version = 1, Package = [], Rand = [0, 100, 7, 8, 9],
      HandedOutUids = []\<rparr>"

definition exBindingProperty :: "string \<Rightarrow> Uid \<Rightarrow> bool \<Rightarrow> BindingProperty" where
  "exBindingProperty name u hasIndex =
     \<lparr>bpName = name, bpId = 0, bpUid = u, bpUidRequest = False,
      bpIndex = (if hasIndex then Some \<lparr>biId = 0, biUid = 0\<rparr> else None),
      bpRelation = None, bpObType = 9, bpObFlags = 8, bpEntityName = ''Task''\<rparr>"

definition exBindingEntity ::
  "string \<Rightarrow> Uid \<Rightarrow> bool \<Rightarrow> BindingProperty list \<Rightarrow> BindingRelation list \<Rightarrow> BindingEntity" where
  "exBindingEntity name u request properties relations =
     \<lparr>beName = name, beId = 0, beUid = u, beUidRequest = request,
      beProperties = map (\<lambda>p. p\<lparr>bpEntityName := name\<rparr>) properties,
      beRelations = relations, beLastPropertyId = CreateIdUid 0 0\<rparr>"

definition exFileSystem :: "ModelInfo \<Rightarrow> FileSystem" where
  "exFileSystem model = (\<lambda>path. if path = ''objectbox-model.json'' then Some (Inr model) else None)"

definition exRelation :: "string \<Rightarrow> string \<Rightarrow> BindingRelation" where
  "exRelation name target =
     \<lparr>brName = name, brId = 0, brUid = 0, brUidRequest = False,
      brTarget = \<lparr>btName = target, btId = 0, btUid = 0\<rparr>\<rparr>"

definition exRenameBinding :: Binding where
  "exRenameBinding =
     \<lparr>bPackageName = ''model'',
      bEntities = [exBindingEntity ''Owner'' 0 False [] [exRelation ''jobs'' ''Job''],
                   exBindingEntity ''Job'' 50 False
                     [exBindingProperty ''Id'' 0 False, exBindingProperty ''Name'' 0 True] []]\<rparr>"

definition exAliasBinding :: Binding where
  "exAliasBinding =
     \<lparr>bPackageName = ''model'',
      bEntities = [exBindingEntity ''Job'' 50 False [exBindingProperty ''Id'' 100 False] [],
                   exBindingEntity ''Task'' 0 False [exBindingProperty ''Title'' 0 False] []]\<rparr>"

definition exPlainBinding :: Binding where
  "exPlainBinding =
     \<lparr>bPackageName = ''model'',
      bEntities = [exBindingEntity ''Task'' 0 False
                     [exBindingProperty ''Id'' 0 False, exBindingProperty ''Email'' 0 True] [],
                   exBindingEntity ''Group'' 0 False [exBindingProperty ''Id'' 0 False]
                     [exRelation ''tasks'' ''Task'']]\<rparr>"

text \<open>A binding that renames the entity \<open>Task\<close> to \<open>Job\<close> by its UID, gives property
  \<open>Id\<close> a new UID, renames property \<open>Name\<close> to \<open>Title\<close> by its UID, and adds an entity
  with a relation to the renamed one.\<close>

definition exMovedBinding :: Binding where
  "exMovedBinding =
     \<lparr>bPackageName = ''model'',
      bEntities = [exBindingEntity ''Job'' 50 False
                     [exBindingProperty ''Id'' 999 False, exBindingProperty ''Title'' 101 True] [],
                   exBindingEntity ''Owner'' 0 False [exBindingProperty ''Id'' 0 False]
                     [exRelation ''jobs'' ''Job'']]\<rparr>"

text \<open>Three bindings that each break one condition of the second-merge theorem: two
  entities of one name; a relation whose target is renamed later in the same merge; two
  properties that resolve to one document property.\<close>

definition exTwinBinding :: Binding where
  "exTwinBinding =
     \<lparr>bPackageName = ''model'',
      bEntities = [exBindingEntity ''A'' 50 False [exBindingProperty ''Id'' 0 False] [],
                   exBindingEntity ''A'' 0 False [exBindingProperty ''Title'' 0 False] []]\<rparr>"

definition exLateTargetBinding :: Binding where
  "exLateTargetBinding =
     \<lparr>bPackageName = ''model'',
      bEntities = [exBindingEntity ''Owner'' 0 False [] [exRelation ''jobs'' ''Task''],
                   exBindingEntity ''Job'' 50 False
                     [exBindingProperty ''Id'' 0 False, exBindingProperty ''Name'' 0 True] []]\<rparr>"

definition exSharedPropertyBinding :: Binding where
  "exSharedPropertyBinding =
     \<lparr>bPackageName = ''model'',
      bEntities = [exBindingEntity ''Task'' 0 False
                     [exBindingProperty ''Name'' 0 True, exBindingProperty ''Title'' 101 True] []]\<rparr>"

definition exModelAfterRemoval :: ModelInfo where
  "exModelAfterRemoval =
     exModel\<lparr>Entities := [\<lparr>meId = CreateIdUid 1 50, meName = ''Task'',
                            meLastPropertyId = CreateIdUid 2 101,
                            meProperties = [hd exProperties], meRelations = []\<rparr>],
             RetiredIndexUids := [300], RetiredPropertyUids := [101], Rand := [101, 7, 8]\<rparr>"

section \<open>Basic facts\<close>

lemmas ex_defs = exModel_def exProperties_def exBindingProperty_def exBindingEntity_def

lemmas ex2_defs = exFileSystem_def exRelation_def exRenameBinding_def exAliasBinding_def
  exPlainBinding_def exModelAfterRemoval_def

lemmas ex3_defs = exMovedBinding_def exTwinBinding_def exLateTargetBinding_def
  exSharedPropertyBinding_def mergedBinding_def mergedModel_def distinctNames_def
  resolvedApart_def targetsAsNamed_def targetId_def

lemmas eval_defs = getModelEntity_def getModelProperty_def mergeModelProperty_def
  mergeModelPropertyIndex_def mergeModelEntity_def mergeBindingWithModelInfo_def
  getModelRelation_def mergeModelRelation_def
  FindEntityByUid_def FindEntityByName_def FindPropertyByUid_def FindPropertyByName_def
  FindRelationByUid_def FindRelationByName_def CreateEntity_def CreateProperty_def
  CreateIndex_def RemoveIndex_def RemoveProperty_def CreateRelation_def RemoveRelation_def
  SetTarget_def GenerateUid_def knownUids_def entityUids_def propertyUids_def
  updEntity_def updProperty_def updRelation_def theProperty_def theRelation_def deleteAt_def
  bindingPropertyExists_def bindingRelationExists_def removedProperties_def
  removedRelations_def ObFlagsCombined_def Let_def

lemma Get_eq [simp]: "Get p = Inr (idPart p, uidPart p)"
  by (simp add: Get_def)

lemma GetUid_eq [simp]: "GetUid p = Inr (uidPart p)"
  by (simp add: GetUid_def)

lemma findIndex_Some:
  "findIndex P xs = Some k \<Longrightarrow> k < length xs \<and> P (xs ! k) \<and> (\<forall>i<k. \<not> P (xs ! i))"
proof (induction xs arbitrary: k)
  case Nil
  then show ?case by simp
next
  case (Cons x xs)
  show ?case
  proof (cases "P x")
    case True
    with Cons.prems show ?thesis by simp
  next
    case False
    with Cons.prems obtain k' where k': "findIndex P xs = Some k'" "k = Suc k'"
      by auto
    from Cons.IH [OF k'(1)] False k'(2) show ?thesis
      by (auto simp: nth_Cons split: nat.splits)
  qed
qed

lemma findIndex_None: "findIndex P xs = None \<longleftrightarrow> (\<forall>x\<in>set xs. \<not> P x)"
  by (induction xs) auto

lemma findIndex_exists: "\<exists>x\<in>set xs. P x \<Longrightarrow> \<exists>k. findIndex P xs = Some k"
  using findIndex_None [of P xs] by (cases "findIndex P xs") auto

lemma drawUid_Some:
  "drawUid known cs = Some (u, rest) \<Longrightarrow> u \<noteq> 0 \<and> u \<notin> set known \<and> u \<in> set cs"
  by (induction cs) (auto split: if_splits)

lemma getModelEntity_Entities:
  "getModelEntity be m = (r, m') \<Longrightarrow> \<exists>new. Entities m' = Entities m @ new"
  by (auto simp: getModelEntity_def CreateEntity_def GenerateUid_def Let_def
           split: if_splits sum.splits option.splits prod.splits)

lemma getModelEntities_Entities:
  "getModelEntities bes m = (r, m') \<Longrightarrow> \<exists>new. Entities m' = Entities m @ new"
proof (induction bes arbitrary: m r m')
  case Nil
  then show ?case by simp
next
  case (Cons be bes)
  obtain r1 m1 where g: "getModelEntity be m = (r1, m1)" by (cases "getModelEntity be m")
  from getModelEntity_Entities [OF g] obtain new1 where n1: "Entities m1 = Entities m @ new1" ..
  show ?case
  proof (cases r1)
    case (Inl err)
    with Cons.prems g n1 show ?thesis by auto
  next
    case (Inr k)
    obtain r2 m2 where g2: "getModelEntities bes m1 = (r2, m2)" by (cases "getModelEntities bes m1")
    from Cons.IH [OF g2] obtain new2 where "Entities m2 = Entities m1 @ new2" ..
    with Cons.prems g g2 Inr n1 show ?thesis by (auto split: sum.splits)
  qed
qed

lemma getModelEntity_uidRequest:
  "beUid be = 0 \<Longrightarrow> beUidRequest be \<Longrightarrow> \<exists>err. getModelEntity be m = (Inl err, m)"
  by (simp add: getModelEntity_def Let_def split: sum.splits)

lemma getModelEntities_uidRequest:
  "\<exists>be\<in>set bes. beUid be = 0 \<and> beUidRequest be \<Longrightarrow>
   \<exists>err m'. getModelEntities bes m = (Inl err, m')"
proof (induction bes arbitrary: m)
  case Nil
  then show ?case by simp
next
  case (Cons be bes)
  obtain r1 m1 where g: "getModelEntity be m = (r1, m1)" by (cases "getModelEntity be m")
  show ?case
  proof (cases r1)
    case (Inl err)
    with g show ?thesis by simp
  next
    case (Inr k)
    have "\<not> (beUid be = 0 \<and> beUidRequest be)"
      using getModelEntity_uidRequest [of be m] g Inr by auto
    with Cons.prems have "\<exists>be\<in>set bes. beUid be = 0 \<and> beUidRequest be" by auto
    from Cons.IH [OF this, of m1] obtain err m' where "getModelEntities bes m1 = (Inl err, m')"
      by blast
    with g Inr show ?thesis by simp
  qed
qed

lemma length_Entities_updEntity [simp]: "length (Entities (updEntity k f m)) = length (Entities m)"
  by (simp add: updEntity_def)

lemma length_Entities_updProperty [simp]:
  "length (Entities (updProperty k j f m)) = length (Entities m)"
  by (simp add: updProperty_def)

lemma nth_Entities_updEntity:
  "k < length (Entities m) \<Longrightarrow>
   Entities (updEntity k f m) ! i = (if i = k then f (Entities m ! k) else Entities m ! i)"
  by (simp add: updEntity_def)

lemma properties_updProperty:
  "k < length (Entities m) \<Longrightarrow>
   meProperties (Entities (updProperty k j f m) ! k)
     = (meProperties (Entities m ! k))[j := f (meProperties (Entities m ! k) ! j)]"
  by (simp add: updProperty_def updEntity_def)

lemma theProperty_updProperty:
  "k < length (Entities m) \<Longrightarrow> j < length (meProperties (Entities m ! k)) \<Longrightarrow>
   theProperty (updProperty k j f m) k j = f (theProperty m k j)"
  by (simp add: theProperty_def properties_updProperty)

lemma mergeModelProperty_steps:
  "mergeModelProperty bp k j m =
     (let m1 = updProperty k j (\<lambda>p. p\<lparr>mpName := bpName bp\<rparr>) m;
          m2 = (if bpUid bp \<noteq> 0
                then updProperty k j
                       (\<lambda>p. p\<lparr>mpId := CreateIdUid (idPart (mpId (theProperty m1 k j))) (bpUid bp)\<rparr>) m1
                else m1)
      in case mergeModelPropertyIndex
                (bp\<lparr>bpId := idPart (mpId (theProperty m2 k j)),
                    bpUid := uidPart (mpId (theProperty m2 k j))\<rparr>) k j m2 of
           (Some err, bp2, m3) \<Rightarrow> (Some err, bp2, m3)
         | (None, bp2, m3) \<Rightarrow>
             (None, bp2,
              updProperty k j
                (\<lambda>p. p\<lparr>mpRelationTarget :=
                          (case bpRelation bp of Some targetName \<Rightarrow> targetName | None \<Rightarrow> []),
                        mpType := bpObType bp, mpFlags := ObFlagsCombined bp\<rparr>) m3))"
  by (simp add: mergeModelProperty_def Let_def)

lemma mergeModelPropertyIndex_keeps_id:
  assumes "k < length (Entities m)" "j < length (meProperties (Entities m ! k))"
    and "mergeModelPropertyIndex bp k j m = (err, bp', m')"
  shows "mpId (theProperty m' k j) = mpId (theProperty m k j) \<and> bpId bp' = bpId bp
         \<and> bpUid bp' = bpUid bp \<and> length (Entities m') = length (Entities m)
         \<and> length (meProperties (Entities m' ! k)) = length (meProperties (Entities m ! k))"
  using assms
  by (auto simp: mergeModelPropertyIndex_def RemoveIndex_def CreateIndex_def GenerateUid_def
        updProperty_def updEntity_def theProperty_def Let_def
      split: option.splits if_splits prod.splits sum.splits)

lemma getModelProperty_explicit_uid:
  assumes "bpUid bp \<noteq> 0" "getModelProperty bp k m = (Inr j, m1)"
  shows "m1 = m \<and> j < length (meProperties (Entities m ! k))"
  using assms
  by (auto simp: getModelProperty_def FindPropertyByUid_def FindPropertyByName_def Let_def
      split: option.splits sum.splits dest: findIndex_Some)

lemma updProperty_id:
  "f (theProperty m k j) = theProperty m k j \<Longrightarrow> updProperty k j f m = m"
  by (simp add: updProperty_def updEntity_def theProperty_def)

lemma mergeModelPropertyIndex_success:
  assumes "k < length (Entities m)" "j < length (meProperties (Entities m ! k))"
    and "mergeModelPropertyIndex bp k j m = (None, bp', m')"
  shows "(mpIndexId (theProperty m' k j) \<noteq> None) = (bpIndex bp \<noteq> None)"
    and "bpIndex bp \<noteq> None \<Longrightarrow> mpIndexId (theProperty m k j) = None \<Longrightarrow>
         \<exists>u. u \<noteq> 0 \<and> mpIndexId (theProperty m' k j) = Some (CreateIdUid (idPart (LastIndexId m) + 1) u)
            \<and> LastIndexId m' = CreateIdUid (idPart (LastIndexId m) + 1) u
            \<and> RetiredIndexUids m' = RetiredIndexUids m"
    and "bpIndex bp = None \<Longrightarrow> mpIndexId (theProperty m k j) = Some ix \<Longrightarrow>
         RetiredIndexUids m' = RetiredIndexUids m @ [uidPart ix] \<and> LastIndexId m' = LastIndexId m"
    and "bpIndex bp \<noteq> None \<Longrightarrow> mpIndexId (theProperty m k j) = Some ix \<Longrightarrow>
         mpIndexId (theProperty m' k j) = Some ix \<and> RetiredIndexUids m' = RetiredIndexUids m
         \<and> LastIndexId m' = LastIndexId m"
  using assms
  by (auto simp: mergeModelPropertyIndex_def RemoveIndex_def CreateIndex_def GenerateUid_def
        updProperty_def updEntity_def theProperty_def Let_def
      split: option.splits if_splits prod.splits sum.splits dest: drawUid_Some)

lemma mergeModelProperty_cases:
  assumes "mergeModelProperty bp k j m = (err, bp', m')"
  obtains m2 bp1 m3 where
    "m2 = (if bpUid bp \<noteq> 0
           then updProperty k j
                  (\<lambda>p. p\<lparr>mpId := CreateIdUid
                            (idPart (mpId (theProperty (updProperty k j (\<lambda>p. p\<lparr>mpName := bpName bp\<rparr>) m) k j)))
                            (bpUid bp)\<rparr>)
                  (updProperty k j (\<lambda>p. p\<lparr>mpName := bpName bp\<rparr>) m)
           else updProperty k j (\<lambda>p. p\<lparr>mpName := bpName bp\<rparr>) m)"
    "bp1 = bp\<lparr>bpId := idPart (mpId (theProperty m2 k j)),
              bpUid := uidPart (mpId (theProperty m2 k j))\<rparr>"
    "mergeModelPropertyIndex bp1 k j m2 = (err, bp', m3)"
    "m' = (case err of Some e \<Rightarrow> m3
           | None \<Rightarrow> updProperty k j
                (\<lambda>p. p\<lparr>mpRelationTarget :=
                          (case bpRelation bp of Some targetName \<Rightarrow> targetName | None \<Rightarrow> []),
                        mpType := bpObType bp, mpFlags := ObFlagsCombined bp\<rparr>) m3)"
  using assms unfolding mergeModelProperty_steps Let_def
  by (auto split: prod.splits option.splits)

lemma find_findIndex: "find P xs = map_option (\<lambda>j. xs ! j) (findIndex P xs)"
  by (induction xs) (auto simp: option.map_comp comp_def)

lemma findIndex_find_Some:
  "find P xs = Some x \<Longrightarrow> \<exists>j. findIndex P xs = Some j \<and> j < length xs \<and> xs ! j = x"
  using find_findIndex [of P xs] findIndex_Some [of P xs] by (cases "findIndex P xs") auto

lemma findIndex_append:
  "findIndex P (xs @ ys) =
     (case findIndex P xs of Some j \<Rightarrow> Some j
      | None \<Rightarrow> map_option (\<lambda>j. length xs + j) (findIndex P ys))"
  by (induction xs) (cases "findIndex P ys"; auto split: option.splits)+

lemma findIndex_map: "findIndex P (map f xs) = findIndex (\<lambda>x. P (f x)) xs"
  by (induction xs) auto

lemma findIndex_cong_nth:
  "length xs = length ys \<Longrightarrow> (\<And>i. i < length xs \<Longrightarrow> P (xs ! i) = Q (ys ! i)) \<Longrightarrow>
   findIndex P xs = findIndex Q ys"
proof (induction xs arbitrary: ys)
  case Nil
  then show ?case by simp
next
  case (Cons x xs)
  then obtain y ys' where ys: "ys = y # ys'" by (cases ys) auto
  from Cons.prems(2) [of 0] ys have h: "P x = Q y" by simp
  have "findIndex P xs = findIndex Q ys'"
  proof (rule Cons.IH)
    show "length xs = length ys'" using Cons.prems(1) ys by simp
    fix i assume "i < length xs"
    with Cons.prems(2) [of "Suc i"] ys show "P (xs ! i) = Q (ys' ! i)" by simp
  qed
  with h ys show ?case by simp
qed

lemma removedProperties_Nil [simp]: "removedProperties [] be = []"
  by (simp add: removedProperties_def)

lemma removedProperties_Cons:
  "removedProperties (p # ps) be =
     (if bindingPropertyExists p be then [] else [0]) @ map Suc (removedProperties ps be)"
proof -
  have "[0..<length (p # ps)] = 0 # map Suc [0..<length ps]"
    by (simp add: upt_conv_Cons map_Suc_upt del: upt_Suc)
  then show ?thesis
    by (simp add: removedProperties_def filter_map comp_def del: upt_Suc)
qed

lemma removedRelations_Nil [simp]: "removedRelations [] be = []"
  by (simp add: removedRelations_def)

lemma removedRelations_Cons:
  "removedRelations (r # rs) be =
     (if bindingRelationExists r be then [] else [0]) @ map Suc (removedRelations rs be)"
proof -
  have "[0..<length (r # rs)] = 0 # map Suc [0..<length rs]"
    by (simp add: upt_conv_Cons map_Suc_upt del: upt_Suc)
  then show ?thesis
    by (simp add: removedRelations_def filter_map comp_def del: upt_Suc)
qed

lemma othersSame_refl [simp]: "othersSame k m m"
  by (simp add: othersSame_def)

lemma othersSame_trans: "othersSame k m m1 \<Longrightarrow> othersSame k m1 m2 \<Longrightarrow> othersSame k m m2"
  by (simp add: othersSame_def)

lemma propsStep_refl [simp]: "propsStep k m m"
  by (simp add: propsStep_def)

lemma propsStep_trans: "propsStep k m m1 \<Longrightarrow> propsStep k m1 m2 \<Longrightarrow> propsStep k m m2"
  by (auto simp: propsStep_def intro: othersSame_trans)

lemma relsStep_refl [simp]: "relsStep k m m"
  by (simp add: relsStep_def)

lemma relsStep_trans: "relsStep k m m1 \<Longrightarrow> relsStep k m1 m2 \<Longrightarrow> relsStep k m m2"
  by (auto simp: relsStep_def intro: othersSame_trans)

lemma propsStep_same_Entities: "Entities m' = Entities m \<Longrightarrow> propsStep k m m'"
  by (simp add: propsStep_def othersSame_def)

lemma relsStep_same_Entities: "Entities m' = Entities m \<Longrightarrow> relsStep k m m'"
  by (simp add: relsStep_def othersSame_def)

lemma word_less_succ: "x \<noteq> - 1 \<Longrightarrow> x < x + 1" for x :: "'a::len word"
proof -
  assume "x \<noteq> - 1"
  then have "1 + x \<noteq> 0" using max_word_wrap [of x] by (auto simp: add.commute)
  then have "unat (1 + x) = Suc (unat x)" by (rule unatSuc)
  then show ?thesis by (simp add: word_less_nat_alt add.commute)
qed

lemma GenerateUid_Entities [simp]: "Entities (snd (GenerateUid m)) = Entities m"
  by (simp add: GenerateUid_def split: option.splits prod.splits)

lemma GenerateUid_Inr:
  "GenerateUid m = (Inr u, m') \<Longrightarrow>
   u \<noteq> 0 \<and> u \<notin> set (knownUids m) \<and> Entities m' = Entities m
   \<and> RetiredPropertyUids m' = RetiredPropertyUids m \<and> RetiredIndexUids m' = RetiredIndexUids m"
  by (auto simp: GenerateUid_def split: option.splits prod.splits dest: drawUid_Some)

lemma GenerateUid_Inl: "GenerateUid m = (Inl e, m') \<Longrightarrow> Entities m' = Entities m"
  by (auto simp: GenerateUid_def split: option.splits prod.splits)

lemma CreateProperty_Inl: "CreateProperty k m = (Inl e, m') \<Longrightarrow> Entities m' = Entities m"
  by (auto simp: CreateProperty_def Let_def split: if_splits prod.splits sum.splits
           dest: GenerateUid_Inl)

lemma CreateProperty_Inr:
  assumes "k < length (Entities m)" "CreateProperty k m = (Inr j, m')"
  shows "propsStep k m m'" and "j = length (meProperties (Entities m ! k))"
    and "\<exists>u. u \<noteq> 0 \<and> u \<notin> set (knownUids m)
           \<and> meProperties (Entities m' ! k) = meProperties (Entities m ! k) @
               [\<lparr>mpId = CreateIdUid (idPart (meLastPropertyId (Entities m ! k)) + 1) u,
                 mpName = [], mpIndexId = None, mpType = 0, mpFlags = 0, mpRelationTarget = []\<rparr>]
           \<and> meLastPropertyId (Entities m' ! k)
               = CreateIdUid (idPart (meLastPropertyId (Entities m ! k)) + 1) u"
    and "idPart (meLastPropertyId (Entities m ! k)) \<noteq> - 1"
proof -
  from assms(2) have nm: "idPart (meLastPropertyId (Entities m ! k)) \<noteq> - 1"
    by (auto simp: CreateProperty_def split: if_splits)
  with assms(2) obtain u m1 where g: "GenerateUid m = (Inr u, m1)"
    and r: "(Inr j :: error + nat, m') =
      (Inr (length (meProperties (Entities m ! k))),
       updEntity k (\<lambda>e. e\<lparr>meProperties := meProperties e @
            [\<lparr>mpId = CreateIdUid (idPart (meLastPropertyId (Entities m ! k)) + 1) u,
              mpName = [], mpIndexId = None, mpType = 0, mpFlags = 0, mpRelationTarget = []\<rparr>],
          meLastPropertyId :=
            (if idPart (meLastPropertyId e) < idPart (CreateIdUid (idPart (meLastPropertyId (Entities m ! k)) + 1) u)
             then CreateIdUid (idPart (meLastPropertyId (Entities m ! k)) + 1) u
             else meLastPropertyId e)\<rparr>) m1)"
    by (auto simp: CreateProperty_def Let_def split: prod.splits sum.splits)
  from GenerateUid_Inr [OF g] have u: "u \<noteq> 0" "u \<notin> set (knownUids m)"
    and e1: "Entities m1 = Entities m" by simp_all
  from r show "j = length (meProperties (Entities m ! k))" by simp
  from r assms(1) e1 show "propsStep k m m'"
    by (simp add: propsStep_def othersSame_def updEntity_def)
  from r assms(1) e1 u word_less_succ [OF nm]
  show "\<exists>u. u \<noteq> 0 \<and> u \<notin> set (knownUids m)
           \<and> meProperties (Entities m' ! k) = meProperties (Entities m ! k) @
               [\<lparr>mpId = CreateIdUid (idPart (meLastPropertyId (Entities m ! k)) + 1) u,
                 mpName = [], mpIndexId = None, mpType = 0, mpFlags = 0, mpRelationTarget = []\<rparr>]
           \<and> meLastPropertyId (Entities m' ! k)
               = CreateIdUid (idPart (meLastPropertyId (Entities m ! k)) + 1) u"
    by (auto simp: updEntity_def)
  show "idPart (meLastPropertyId (Entities m ! k)) \<noteq> - 1" by (rule nm)
qed

lemma updProperty_propsStep:
  "k < length (Entities m) \<Longrightarrow> propsStep k m (updProperty k j f m)"
  by (simp add: propsStep_def othersSame_def updProperty_def updEntity_def)

lemma updProperty_last:
  "k < length (Entities m) \<Longrightarrow>
   meLastPropertyId (Entities (updProperty k j f m) ! k) = meLastPropertyId (Entities m ! k)"
  by (simp add: updProperty_def updEntity_def)

lemma list_update_same_index:
  "mpIndexId (xs ! j) = ix \<Longrightarrow> xs[j := (xs ! j)\<lparr>mpIndexId := ix\<rparr>] = xs"
  by auto

lemma mergeModelPropertyIndex_effect:
  assumes "k < length (Entities m)" "j < length (meProperties (Entities m ! k))"
    and "mergeModelPropertyIndex bp k j m = (err, bp', m')"
  shows "propsStep k m m'"
    and "meLastPropertyId (Entities m' ! k) = meLastPropertyId (Entities m ! k)"
    and "meProperties (Entities m' ! k)
            = (meProperties (Entities m ! k))[j := (meProperties (Entities m ! k) ! j)
                 \<lparr>mpIndexId := mpIndexId (meProperties (Entities m' ! k) ! j)\<rparr>]"
    and "err = None \<Longrightarrow>
           (mpIndexId (meProperties (Entities m' ! k) ! j) \<noteq> None) = (bpIndex bp \<noteq> None)"
    and "err = None \<Longrightarrow> bpIndex bp \<noteq> None \<Longrightarrow>
           mpIndexId (meProperties (Entities m ! k) ! j) \<noteq> None \<Longrightarrow>
           mpIndexId (meProperties (Entities m' ! k) ! j)
             = mpIndexId (meProperties (Entities m ! k) ! j)"
    and "bpName bp' = bpName bp"
  using assms
  by (auto simp: mergeModelPropertyIndex_def RemoveIndex_def CreateIndex_def GenerateUid_def
        updProperty_def updEntity_def theProperty_def Let_def propsStep_def othersSame_def
        list_update_same_index
      split: option.splits if_splits prod.splits sum.splits)

lemma mergeModelProperty_effect:
  assumes k: "k < length (Entities m)" and j: "j < length (meProperties (Entities m ! k))"
    and r: "mergeModelProperty bp k j m = (err, bp', m')"
  shows "propsStep k m m'"
    and "meLastPropertyId (Entities m' ! k) = meLastPropertyId (Entities m ! k)"
    and "length (meProperties (Entities m' ! k)) = length (meProperties (Entities m ! k))"
    and "\<And>i. i \<noteq> j \<Longrightarrow> meProperties (Entities m' ! k) ! i = meProperties (Entities m ! k) ! i"
    and "mpName (meProperties (Entities m' ! k) ! j) = bpName bp"
    and "mpId (meProperties (Entities m' ! k) ! j)
           = (if bpUid bp \<noteq> 0
              then CreateIdUid (idPart (mpId (meProperties (Entities m ! k) ! j))) (bpUid bp)
              else mpId (meProperties (Entities m ! k) ! j))"
    and "err = None \<Longrightarrow>
           (mpIndexId (meProperties (Entities m' ! k) ! j) \<noteq> None) = (bpIndex bp \<noteq> None)
           \<and> mpRelationTarget (meProperties (Entities m' ! k) ! j)
                = (case bpRelation bp of Some targetName \<Rightarrow> targetName | None \<Rightarrow> [])
           \<and> mpType (meProperties (Entities m' ! k) ! j) = bpObType bp
           \<and> mpFlags (meProperties (Entities m' ! k) ! j) = ObFlagsCombined bp"
    and "bpName bp' = bpName bp"
proof -
  define ma where "ma = updProperty k j (\<lambda>p. p\<lparr>mpName := bpName bp\<rparr>) m"
  from r obtain m2 bp1 m3 where
    m2: "m2 = (if bpUid bp \<noteq> 0
           then updProperty k j
                  (\<lambda>p. p\<lparr>mpId := CreateIdUid (idPart (mpId (theProperty ma k j))) (bpUid bp)\<rparr>) ma
           else ma)"
    and bp1: "bp1 = bp\<lparr>bpId := idPart (mpId (theProperty m2 k j)),
              bpUid := uidPart (mpId (theProperty m2 k j))\<rparr>"
    and ix: "mergeModelPropertyIndex bp1 k j m2 = (err, bp', m3)"
    and m': "m' = (case err of Some e \<Rightarrow> m3
           | None \<Rightarrow> updProperty k j
                (\<lambda>p. p\<lparr>mpRelationTarget :=
                          (case bpRelation bp of Some targetName \<Rightarrow> targetName | None \<Rightarrow> []),
                        mpType := bpObType bp, mpFlags := ObFlagsCombined bp\<rparr>) m3)"
    unfolding ma_def by (rule mergeModelProperty_cases)
  let ?P = "meProperties (Entities m ! k)"
  have ka: "k < length (Entities ma)" and pa: "meProperties (Entities ma ! k) = ?P[j := (?P ! j)\<lparr>mpName := bpName bp\<rparr>]"
    and sa: "propsStep k m ma" and la: "meLastPropertyId (Entities ma ! k) = meLastPropertyId (Entities m ! k)"
    using k by (simp_all add: ma_def properties_updProperty updProperty_propsStep updProperty_last)
  have k2: "k < length (Entities m2)"
    and p2: "meProperties (Entities m2 ! k)
        = ?P[j := (?P ! j)\<lparr>mpName := bpName bp,
                            mpId := (if bpUid bp \<noteq> 0
                                     then CreateIdUid (idPart (mpId (?P ! j))) (bpUid bp)
                                     else mpId (?P ! j))\<rparr>]"
    and s2: "propsStep k ma m2"
    and l2: "meLastPropertyId (Entities m2 ! k) = meLastPropertyId (Entities ma ! k)"
    using ka j pa
    by (simp_all add: m2 properties_updProperty updProperty_propsStep updProperty_last
          theProperty_def)
  have j2: "j < length (meProperties (Entities m2 ! k))" using j p2 by simp
  note e3 = mergeModelPropertyIndex_effect [OF k2 j2 ix]
  have k3: "k < length (Entities m3)" using e3(1) k2 by (simp add: propsStep_def othersSame_def)
  have b1: "bpIndex bp1 = bpIndex bp" "bpName bp1 = bpName bp" by (simp_all add: bp1)
  have s': "propsStep k m3 m'" and l': "meLastPropertyId (Entities m' ! k) = meLastPropertyId (Entities m3 ! k)"
    using k3 by (cases err; simp add: m' updProperty_propsStep updProperty_last)+
  show "propsStep k m m'"
    using sa s2 e3(1) s' by (blast intro: propsStep_trans)
  show "meLastPropertyId (Entities m' ! k) = meLastPropertyId (Entities m ! k)"
    using l' e3(2) l2 la by simp
  have p': "meProperties (Entities m' ! k) =
      (case err of Some e \<Rightarrow> meProperties (Entities m3 ! k)
       | None \<Rightarrow> (meProperties (Entities m3 ! k))[j := (meProperties (Entities m3 ! k) ! j)
            \<lparr>mpRelationTarget :=
                (case bpRelation bp of Some targetName \<Rightarrow> targetName | None \<Rightarrow> []),
              mpType := bpObType bp, mpFlags := ObFlagsCombined bp\<rparr>])"
    using k3 by (cases err) (simp_all add: m' properties_updProperty)
  have p3: "meProperties (Entities m3 ! k)
      = (meProperties (Entities m2 ! k))[j := (meProperties (Entities m2 ! k) ! j)
           \<lparr>mpIndexId := mpIndexId (meProperties (Entities m3 ! k) ! j)\<rparr>]"
    by (rule e3(3))
  have len3: "length (meProperties (Entities m3 ! k)) = length ?P"
    by (subst p3) (simp add: p2)
  show "length (meProperties (Entities m' ! k)) = length ?P"
    using len3 by (cases err) (simp_all add: p')
  have nth3: "\<And>i. i \<noteq> j \<Longrightarrow> meProperties (Entities m3 ! k) ! i = ?P ! i"
    by (subst p3) (simp add: p2)
  show "\<And>i. i \<noteq> j \<Longrightarrow> meProperties (Entities m' ! k) ! i = ?P ! i"
    using nth3 by (cases err) (simp_all add: p')
  have at3: "meProperties (Entities m3 ! k) ! j
      = (?P ! j)\<lparr>mpName := bpName bp,
                  mpId := (if bpUid bp \<noteq> 0
                           then CreateIdUid (idPart (mpId (?P ! j))) (bpUid bp)
                           else mpId (?P ! j)),
                  mpIndexId := mpIndexId (meProperties (Entities m3 ! k) ! j)\<rparr>"
    using j by (subst p3) (simp add: p2)
  have n3: "mpName (meProperties (Entities m3 ! k) ! j) = bpName bp"
    and i3: "mpId (meProperties (Entities m3 ! k) ! j)
           = (if bpUid bp \<noteq> 0 then CreateIdUid (idPart (mpId (?P ! j))) (bpUid bp)
              else mpId (?P ! j))"
    by (subst at3, simp)+
  show "mpName (meProperties (Entities m' ! k) ! j) = bpName bp"
    using n3 j len3 by (cases err) (simp_all add: p')
  show "mpId (meProperties (Entities m' ! k) ! j)
           = (if bpUid bp \<noteq> 0
              then CreateIdUid (idPart (mpId (?P ! j))) (bpUid bp)
              else mpId (?P ! j))"
    using i3 j len3 by (cases err) (simp_all add: p')
  show "bpName bp' = bpName bp" using e3(6) b1 by simp
  assume ok: "err = None"
  from e3(4) [OF ok] b1 have "(mpIndexId (meProperties (Entities m3 ! k) ! j) \<noteq> None) = (bpIndex bp \<noteq> None)"
    by simp
  then show "(mpIndexId (meProperties (Entities m' ! k) ! j) \<noteq> None) = (bpIndex bp \<noteq> None)
           \<and> mpRelationTarget (meProperties (Entities m' ! k) ! j)
                = (case bpRelation bp of Some targetName \<Rightarrow> targetName | None \<Rightarrow> [])
           \<and> mpType (meProperties (Entities m' ! k) ! j) = bpObType bp
           \<and> mpFlags (meProperties (Entities m' ! k) ! j) = ObFlagsCombined bp"
    using ok j len3 by (simp add: p')
qed

lemma mergeModelProperty_update:
  assumes "k < length (Entities m)" "j < length (meProperties (Entities m ! k))"
    and "mergeModelProperty bp k j m = (err, bp', m')"
  shows "meProperties (Entities m' ! k)
           = (meProperties (Entities m ! k))[j := meProperties (Entities m' ! k) ! j]"
proof (rule nth_equalityI)
  note e = mergeModelProperty_effect [OF assms]
  show "length (meProperties (Entities m' ! k))
      = length ((meProperties (Entities m ! k))[j := meProperties (Entities m' ! k) ! j])"
    using e(3) by simp
  fix i assume "i < length (meProperties (Entities m' ! k))"
  then show "meProperties (Entities m' ! k) ! i
      = (meProperties (Entities m ! k))[j := meProperties (Entities m' ! k) ! j] ! i"
    using e(3) e(4) [of i] by (cases "i = j") simp_all
qed

lemma getModelProperty_plain:
  assumes "k < length (Entities m)" "bpUid bp = 0" "getModelProperty bp k m = (Inr j, m')"
  shows "\<not> bpUidRequest bp"
    and "(findIndex (\<lambda>p. mpName p = bpName bp) (meProperties (Entities m ! k)) = Some j \<and> m' = m)
       \<or> (findIndex (\<lambda>p. mpName p = bpName bp) (meProperties (Entities m ! k)) = None
           \<and> CreateProperty k m = (Inr j, m'))"
  using assms
  by (auto simp: getModelProperty_def FindPropertyByName_def Let_def
      split: if_splits option.splits sum.splits prod.splits)

lemma mergeProperties_names:
  "mergeProperties bps k m = (err, bps', m') \<Longrightarrow> map bpName bps' = map bpName bps"
proof (induction bps arbitrary: m err bps' m')
  case Nil
  then show ?case by simp
next
  case (Cons bp bps)
  obtain r1 m1 where g: "getModelProperty bp k m = (r1, m1)" by (cases "getModelProperty bp k m")
  show ?case
  proof (cases r1)
    case (Inl e)
    with Cons.prems g show ?thesis by auto
  next
    case (Inr j)
    obtain e2 bp2 m2 where r: "mergeModelProperty bp k j m1 = (e2, bp2, m2)"
      by (cases "mergeModelProperty bp k j m1")
    from r obtain ma bpa mb where "mergeModelPropertyIndex bpa k j ma = (e2, bp2, mb)"
      and "bpa = bp\<lparr>bpId := idPart (mpId (theProperty ma k j)),
              bpUid := uidPart (mpId (theProperty ma k j))\<rparr>"
      by (rule mergeModelProperty_cases)
    then have n2: "bpName bp2 = bpName bp"
      by (auto simp: mergeModelPropertyIndex_def Let_def
          split: option.splits if_splits prod.splits sum.splits)
    show ?thesis
    proof (cases e2)
      case (Some e)
      with Cons.prems g Inr r n2 show ?thesis by auto
    next
      case None
      obtain e3 bps3 m3 where l: "mergeProperties bps k m2 = (e3, bps3, m3)"
        by (cases "mergeProperties bps k m2")
      from Cons.IH [OF l] Cons.prems g Inr r None l n2 show ?thesis by auto
    qed
  qed
qed

lemma RemoveProperty_at:
  assumes "k < length (Entities m)" "meProperties (Entities m ! k) = pre @ p # rest"
  shows "RemoveProperty k (length pre) m =
      (None, m\<lparr>Entities := (Entities m)[k := (Entities m ! k)\<lparr>meProperties := pre @ rest\<rparr>],
               RetiredIndexUids := RetiredIndexUids m @ tl (propertyUids p),
               RetiredPropertyUids := RetiredPropertyUids m @ [uidPart (mpId p)]\<rparr>)"
  using assms
  by (cases "mpIndexId p")
     (simp_all add: RemoveProperty_def RemoveIndex_def theProperty_def updProperty_def
        updEntity_def deleteAt_def propertyUids_def nth_append)

lemma meProperties_same: "meProperties e = ps \<Longrightarrow> e\<lparr>meProperties := ps\<rparr> = e"
  by auto

lemma meRelations_same: "meRelations e = rs \<Longrightarrow> e\<lparr>meRelations := rs\<rparr> = e"
  by auto

lemma removeProperties_filter_gen:
  assumes "k < length (Entities m)" "meProperties (Entities m ! k) = pre @ rest"
  shows "removeProperties (map (\<lambda>i. i + (length pre + r)) (removedProperties rest be)) r k m =
      (None, m\<lparr>Entities := (Entities m)[k := (Entities m ! k)
                    \<lparr>meProperties := pre @ filter (\<lambda>p. bindingPropertyExists p be) rest\<rparr>],
               RetiredIndexUids := RetiredIndexUids m
                 @ concat (map (\<lambda>p. tl (propertyUids p))
                     (filter (\<lambda>p. \<not> bindingPropertyExists p be) rest)),
               RetiredPropertyUids := RetiredPropertyUids m
                 @ map (\<lambda>p. uidPart (mpId p))
                     (filter (\<lambda>p. \<not> bindingPropertyExists p be) rest)\<rparr>)"
  using assms
proof (induction rest arbitrary: pre r m)
  case Nil
  then show ?case by (simp add: meProperties_same)
next
  case (Cons p rest)
  show ?case
  proof (cases "bindingPropertyExists p be")
    case True
    have "meProperties (Entities m ! k) = (pre @ [p]) @ rest" using Cons.prems(2) by simp
    from Cons.IH [OF Cons.prems(1) this, of r] True show ?thesis
      by (simp add: removedProperties_Cons comp_def)
  next
    case False
    define m1 where "m1 = m\<lparr>Entities := (Entities m)[k := (Entities m ! k)\<lparr>meProperties := pre @ rest\<rparr>],
               RetiredIndexUids := RetiredIndexUids m @ tl (propertyUids p),
               RetiredPropertyUids := RetiredPropertyUids m @ [uidPart (mpId p)]\<rparr>"
    have rm: "RemoveProperty k (length pre) m = (None, m1)"
      unfolding m1_def by (rule RemoveProperty_at [OF Cons.prems])
    have k1: "k < length (Entities m1)" and p1: "meProperties (Entities m1 ! k) = pre @ rest"
      using Cons.prems(1) by (simp_all add: m1_def)
    from Cons.IH [OF k1 p1, of "Suc r"] False rm Cons.prems(1) show ?thesis
      by (simp add: removedProperties_Cons comp_def m1_def)
  qed
qed

lemma removeProperties_filter:
  assumes "k < length (Entities m)"
  shows "removeProperties (removedProperties (meProperties (Entities m ! k)) be) 0 k m =
      (None, m\<lparr>Entities := (Entities m)[k := (Entities m ! k)
                    \<lparr>meProperties := filter (\<lambda>p. bindingPropertyExists p be)
                                       (meProperties (Entities m ! k))\<rparr>],
               RetiredIndexUids := RetiredIndexUids m
                 @ concat (map (\<lambda>p. tl (propertyUids p))
                     (filter (\<lambda>p. \<not> bindingPropertyExists p be) (meProperties (Entities m ! k)))),
               RetiredPropertyUids := RetiredPropertyUids m
                 @ map (\<lambda>p. uidPart (mpId p))
                     (filter (\<lambda>p. \<not> bindingPropertyExists p be) (meProperties (Entities m ! k)))\<rparr>)"
  using removeProperties_filter_gen [OF assms, of "[]" "meProperties (Entities m ! k)" 0 be]
  by simp

lemma targetId_othersSame:
  assumes "othersSame k m m'"
  shows "targetId m' n = targetId m n"
proof -
  from assms have len: "length (Entities m') = length (Entities m)"
    and nm: "\<And>i. meName (Entities m' ! i) = meName (Entities m ! i)"
    and ids: "\<And>i. meId (Entities m' ! i) = meId (Entities m ! i)"
    by (auto simp: othersSame_def)
  have "findIndex (\<lambda>e. meName e = n) (Entities m') = findIndex (\<lambda>e. meName e = n) (Entities m)"
    by (rule findIndex_cong_nth) (simp_all add: len nm)
  then show ?thesis by (simp add: targetId_def ids split: option.splits)
qed

lemma length_Entities_updRelation [simp]:
  "length (Entities (updRelation k j f m)) = length (Entities m)"
  by (simp add: updRelation_def)

lemma updRelation_relsStep:
  "k < length (Entities m) \<Longrightarrow> relsStep k m (updRelation k j f m)"
  by (simp add: relsStep_def othersSame_def updRelation_def updEntity_def)

lemma relations_updRelation:
  "k < length (Entities m) \<Longrightarrow>
   meRelations (Entities (updRelation k j f m) ! k)
     = (meRelations (Entities m ! k))[j := f (meRelations (Entities m ! k) ! j)]"
  by (simp add: updRelation_def updEntity_def)

lemma CreateRelation_Inl: "CreateRelation k m = (Inl e, m') \<Longrightarrow> Entities m' = Entities m"
  by (auto simp: CreateRelation_def Let_def split: if_splits prod.splits sum.splits
           dest: GenerateUid_Inl)

lemma CreateRelation_Inr:
  assumes "k < length (Entities m)" "CreateRelation k m = (Inr j, m')"
  shows "relsStep k m m'" and "j = length (meRelations (Entities m ! k))"
    and "\<exists>newr. meRelations (Entities m' ! k) = meRelations (Entities m ! k) @ [newr]"
  using assms
  by (auto simp: CreateRelation_def Let_def relsStep_def othersSame_def updEntity_def
      split: if_splits prod.splits sum.splits dest!: GenerateUid_Inr)

lemma mergeModelRelation_effect:
  assumes k: "k < length (Entities m)" and j: "j < length (meRelations (Entities m ! k))"
    and r: "mergeModelRelation br k j m = (err, br', m')"
  shows "relsStep k m m'"
    and "meRelations (Entities m' ! k)
           = (meRelations (Entities m ! k))[j := meRelations (Entities m' ! k) ! j]"
    and "mrName (meRelations (Entities m' ! k) ! j) = brName br"
    and "mrId (meRelations (Entities m' ! k) ! j) = mrId (meRelations (Entities m ! k) ! j)"
    and "err = None \<Longrightarrow>
           targetId m (btName (brTarget br)) = Some (mrTargetEntityId (meRelations (Entities m' ! k) ! j))"
    and "brName br' = brName br"
proof -
  define m1 where "m1 = updRelation k j (\<lambda>r. r\<lparr>mrName := brName br\<rparr>) m"
  let ?R = "meRelations (Entities m ! k)"
  have k1: "k < length (Entities m1)" and s1: "relsStep k m m1"
    and r1: "meRelations (Entities m1 ! k) = ?R[j := (?R ! j)\<lparr>mrName := brName br\<rparr>]"
    using k by (simp_all add: m1_def updRelation_relsStep relations_updRelation)
  have t1: "targetId m1 (btName (brTarget br)) = targetId m (btName (brTarget br))"
    using s1 targetId_othersSame [of k m m1] by (simp add: relsStep_def)
  define br1 where "br1 = br\<lparr>brId := idPart (mrId (theRelation m1 k j)),
                              brUid := uidPart (mrId (theRelation m1 k j))\<rparr>"
  have res: "(err, br', m') =
      (case findIndex (\<lambda>e. meName e = btName (brTarget br)) (Entities m1) of
         None \<Rightarrow> (Some (EntityNameNotFound (btName (brTarget br))), br1, m1)
       | Some t \<Rightarrow>
           (None, br1\<lparr>brTarget := (brTarget br1)\<lparr>btId := idPart (meId (Entities m1 ! t)),
                                                  btUid := uidPart (meId (Entities m1 ! t))\<rparr>\<rparr>,
            updRelation k j (SetTarget (Entities m1 ! t)) m1))"
    using r unfolding mergeModelRelation_def Let_def m1_def [symmetric]
    by (auto simp: br1_def FindEntityByName_def split: option.splits)
  show "relsStep k m m'"
    using res s1 k1 by (auto split: option.splits intro: relsStep_trans updRelation_relsStep)
  show "meRelations (Entities m' ! k) = ?R[j := meRelations (Entities m' ! k) ! j]"
    using res r1 k1 j by (auto split: option.splits simp: relations_updRelation)
  show "mrName (meRelations (Entities m' ! k) ! j) = brName br"
    using res r1 k1 j by (auto split: option.splits simp: relations_updRelation SetTarget_def)
  show "mrId (meRelations (Entities m' ! k) ! j) = mrId (?R ! j)"
    using res r1 k1 j by (auto split: option.splits simp: relations_updRelation SetTarget_def)
  show "brName br' = brName br"
    using res by (auto split: option.splits simp: br1_def)
  assume "err = None"
  with res r1 k1 j have "targetId m1 (btName (brTarget br))
      = Some (mrTargetEntityId (meRelations (Entities m' ! k) ! j))"
    by (auto split: option.splits simp: relations_updRelation SetTarget_def targetId_def)
  with t1 show "targetId m (btName (brTarget br))
      = Some (mrTargetEntityId (meRelations (Entities m' ! k) ! j))" by simp
qed

lemma mergeRelations_names:
  "mergeRelations brs k m = (err, brs', m') \<Longrightarrow> map brName brs' = map brName brs"
proof (induction brs arbitrary: m err brs' m')
  case Nil
  then show ?case by simp
next
  case (Cons br brs)
  obtain r1 m1 where g: "getModelRelation br k m = (r1, m1)" by (cases "getModelRelation br k m")
  show ?case
  proof (cases r1)
    case (Inl e)
    with Cons.prems g show ?thesis by auto
  next
    case (Inr j)
    obtain e2 br2 m2 where r: "mergeModelRelation br k j m1 = (e2, br2, m2)"
      by (cases "mergeModelRelation br k j m1")
    then have n2: "brName br2 = brName br"
      by (auto simp: mergeModelRelation_def Let_def split: sum.splits)
    show ?thesis
    proof (cases e2)
      case (Some e)
      with Cons.prems g Inr r n2 show ?thesis by auto
    next
      case None
      obtain e3 brs3 m3 where l: "mergeRelations brs k m2 = (e3, brs3, m3)"
        by (cases "mergeRelations brs k m2")
      from Cons.IH [OF l] Cons.prems g Inr r None l n2 show ?thesis by auto
    qed
  qed
qed

lemma RemoveRelation_at:
  assumes "k < length (Entities m)" "meRelations (Entities m ! k) = pre @ x # rest"
  shows "RemoveRelation k (length pre) m =
      (None, m\<lparr>Entities := (Entities m)[k := (Entities m ! k)\<lparr>meRelations := pre @ rest\<rparr>],
               RetiredRelationUids := RetiredRelationUids m @ [uidPart (mrId x)]\<rparr>)"
  using assms
  by (simp add: RemoveRelation_def theRelation_def updEntity_def deleteAt_def nth_append)

lemma removeRelations_filter_gen:
  assumes "k < length (Entities m)" "meRelations (Entities m ! k) = pre @ rest"
  shows "removeRelations (map (\<lambda>i. i + (length pre + r)) (removedRelations rest be)) r k m =
      (None, m\<lparr>Entities := (Entities m)[k := (Entities m ! k)
                    \<lparr>meRelations := pre @ filter (\<lambda>x. bindingRelationExists x be) rest\<rparr>],
               RetiredRelationUids := RetiredRelationUids m
                 @ map (\<lambda>x. uidPart (mrId x))
                     (filter (\<lambda>x. \<not> bindingRelationExists x be) rest)\<rparr>)"
  using assms
proof (induction rest arbitrary: pre r m)
  case Nil
  then show ?case by (simp add: meRelations_same)
next
  case (Cons x rest)
  show ?case
  proof (cases "bindingRelationExists x be")
    case True
    have "meRelations (Entities m ! k) = (pre @ [x]) @ rest" using Cons.prems(2) by simp
    from Cons.IH [OF Cons.prems(1) this, of r] True show ?thesis
      by (simp add: removedRelations_Cons comp_def)
  next
    case False
    define m1 where "m1 = m\<lparr>Entities := (Entities m)[k := (Entities m ! k)\<lparr>meRelations := pre @ rest\<rparr>],
               RetiredRelationUids := RetiredRelationUids m @ [uidPart (mrId x)]\<rparr>"
    have rm: "RemoveRelation k (length pre) m = (None, m1)"
      unfolding m1_def by (rule RemoveRelation_at [OF Cons.prems])
    have k1: "k < length (Entities m1)" and p1: "meRelations (Entities m1 ! k) = pre @ rest"
      using Cons.prems(1) by (simp_all add: m1_def)
    from Cons.IH [OF k1 p1, of "Suc r"] False rm Cons.prems(1) show ?thesis
      by (simp add: removedRelations_Cons comp_def m1_def)
  qed
qed

lemma removeRelations_filter:
  assumes "k < length (Entities m)"
  shows "removeRelations (removedRelations (meRelations (Entities m ! k)) be) 0 k m =
      (None, m\<lparr>Entities := (Entities m)[k := (Entities m ! k)
                    \<lparr>meRelations := filter (\<lambda>x. bindingRelationExists x be)
                                      (meRelations (Entities m ! k))\<rparr>],
               RetiredRelationUids := RetiredRelationUids m
                 @ map (\<lambda>x. uidPart (mrId x))
                     (filter (\<lambda>x. \<not> bindingRelationExists x be) (meRelations (Entities m ! k)))\<rparr>)"
  using removeRelations_filter_gen [OF assms, of "[]" "meRelations (Entities m ! k)" 0 be]
  by simp

lemma getModelProperty_frame:
  assumes "k < length (Entities m)" "getModelProperty bp k m = (r, m')"
  shows "propsStep k m m'"
    and "idPart (meLastPropertyId (Entities m ! k)) \<le> idPart (meLastPropertyId (Entities m' ! k))"
    and "\<And>j. r = Inr j \<Longrightarrow> j < length (meProperties (Entities m' ! k))"
proof -
  have c: "(m' = m \<and> (\<forall>j. r = Inr j \<longrightarrow> j < length (meProperties (Entities m ! k))))
      \<or> (\<exists>e. r = Inl e \<and> Entities m' = Entities m)
      \<or> (\<exists>j. r = Inr j \<and> CreateProperty k m = (Inr j, m'))"
    using assms(2)
    by (auto simp: getModelProperty_def FindPropertyByUid_def FindPropertyByName_def Let_def
        split: if_splits option.splits sum.splits prod.splits
        dest: findIndex_Some GenerateUid_Inl GenerateUid_Inr CreateProperty_Inl)
       (metis CreateProperty_Inl old.sum.exhaust)+
  then show "propsStep k m m'"
    using CreateProperty_Inr(1) [OF assms(1)] by (auto intro: propsStep_same_Entities)
  from c show "idPart (meLastPropertyId (Entities m ! k)) \<le> idPart (meLastPropertyId (Entities m' ! k))"
  proof (elim disjE exE conjE)
    fix j assume "r = Inr j" and cp: "CreateProperty k m = (Inr j, m')"
    from CreateProperty_Inr(3,4) [OF assms(1) cp] show ?thesis
      by (auto dest: word_less_succ)
  qed auto
  fix j assume "r = Inr j"
  with c show "j < length (meProperties (Entities m' ! k))"
    using CreateProperty_Inr(2,3) [OF assms(1)] by auto
qed

lemma mergeProperties_frame:
  assumes "k < length (Entities m)" "mergeProperties bps k m = (err, bps', m')"
  shows "propsStep k m m'
     \<and> idPart (meLastPropertyId (Entities m ! k)) \<le> idPart (meLastPropertyId (Entities m' ! k))"
  using assms
proof (induction bps arbitrary: m err bps' m')
  case Nil
  then show ?case by simp
next
  case (Cons bp bps)
  obtain r1 m1 where g: "getModelProperty bp k m = (r1, m1)" by (cases "getModelProperty bp k m")
  note f1 = getModelProperty_frame [OF Cons.prems(1) g]
  have k1: "k < length (Entities m1)"
    using f1(1) Cons.prems(1) by (simp add: propsStep_def othersSame_def)
  show ?case
  proof (cases r1)
    case (Inl e)
    with Cons.prems g f1 show ?thesis by auto
  next
    case (Inr j)
    obtain e2 bp2 m2 where r: "mergeModelProperty bp k j m1 = (e2, bp2, m2)"
      by (cases "mergeModelProperty bp k j m1")
    note f2 = mergeModelProperty_effect [OF k1 f1(3) [OF Inr] r]
    have k2: "k < length (Entities m2)"
      using f2(1) k1 by (simp add: propsStep_def othersSame_def)
    have s2: "propsStep k m m2" using f1(1) f2(1) by (rule propsStep_trans)
    have l2: "idPart (meLastPropertyId (Entities m ! k)) \<le> idPart (meLastPropertyId (Entities m2 ! k))"
      using f1(2) f2(2) by simp
    show ?thesis
    proof (cases e2)
      case (Some e)
      with Cons.prems g Inr r s2 l2 show ?thesis by auto
    next
      case None
      obtain e3 bps3 m3 where l: "mergeProperties bps k m2 = (e3, bps3, m3)"
        by (cases "mergeProperties bps k m2")
      from Cons.IH [OF k2 l] have "propsStep k m2 m3"
        and "idPart (meLastPropertyId (Entities m2 ! k)) \<le> idPart (meLastPropertyId (Entities m3 ! k))"
        by simp_all
      with s2 l2 have "propsStep k m m3
        \<and> idPart (meLastPropertyId (Entities m ! k)) \<le> idPart (meLastPropertyId (Entities m3 ! k))"
        by (auto intro: propsStep_trans)
      with Cons.prems g Inr r None l show ?thesis by auto
    qed
  qed
qed

lemma getModelRelation_frame:
  assumes "k < length (Entities m)" "getModelRelation br k m = (r, m')"
  shows "relsStep k m m'"
    and "\<And>j. r = Inr j \<Longrightarrow> j < length (meRelations (Entities m' ! k))"
proof -
  have c: "(m' = m \<and> (\<forall>j. r = Inr j \<longrightarrow> j < length (meRelations (Entities m ! k))))
      \<or> (\<exists>e. r = Inl e \<and> Entities m' = Entities m)
      \<or> (\<exists>j. r = Inr j \<and> CreateRelation k m = (Inr j, m'))"
    using assms(2)
    by (auto simp: getModelRelation_def FindRelationByUid_def FindRelationByName_def Let_def
        split: if_splits option.splits sum.splits prod.splits
        dest: findIndex_Some CreateRelation_Inl)
       (metis CreateRelation_Inl old.sum.exhaust)+
  then show "relsStep k m m'"
    using CreateRelation_Inr(1) [OF assms(1)] by (auto intro: relsStep_same_Entities)
  fix j assume "r = Inr j"
  with c show "j < length (meRelations (Entities m' ! k))"
    using CreateRelation_Inr(2,3) [OF assms(1)] by auto
qed

lemma mergeRelations_frame:
  assumes "k < length (Entities m)" "mergeRelations brs k m = (err, brs', m')"
  shows "relsStep k m m'"
  using assms
proof (induction brs arbitrary: m err brs' m')
  case Nil
  then show ?case by simp
next
  case (Cons br brs)
  obtain r1 m1 where g: "getModelRelation br k m = (r1, m1)" by (cases "getModelRelation br k m")
  note f1 = getModelRelation_frame [OF Cons.prems(1) g]
  have k1: "k < length (Entities m1)"
    using f1(1) Cons.prems(1) by (simp add: relsStep_def othersSame_def)
  show ?case
  proof (cases r1)
    case (Inl e)
    with Cons.prems g f1 show ?thesis by auto
  next
    case (Inr j)
    obtain e2 br2 m2 where r: "mergeModelRelation br k j m1 = (e2, br2, m2)"
      by (cases "mergeModelRelation br k j m1")
    note f2 = mergeModelRelation_effect [OF k1 f1(2) [OF Inr] r]
    have k2: "k < length (Entities m2)"
      using f2(1) k1 by (simp add: relsStep_def othersSame_def)
    have s2: "relsStep k m m2" using f1(1) f2(1) by (rule relsStep_trans)
    show ?thesis
    proof (cases e2)
      case (Some e)
      with Cons.prems g Inr r s2 show ?thesis by auto
    next
      case None
      obtain e3 brs3 m3 where l: "mergeRelations brs k m2 = (e3, brs3, m3)"
        by (cases "mergeRelations brs k m2")
      from Cons.IH [OF k2 l] s2 have "relsStep k m m3" by (auto intro: relsStep_trans)
      with Cons.prems g Inr r None l show ?thesis by auto
    qed
  qed
qed

lemma bindingPropertyExists_iff:
  "bindingPropertyExists p be = (mpName p \<in> set (map bpName (beProperties be)))"
  by (force simp: bindingPropertyExists_def list_ex_iff)

lemma bindingRelationExists_iff:
  "bindingRelationExists x be = (mrName x \<in> set (map brName (beRelations be)))"
  by (force simp: bindingRelationExists_def list_ex_iff)

lemma withoutMissingProperties_names:
  "map bpName (beProperties be') = map bpName (beProperties be) \<Longrightarrow>
   withoutMissingProperties be' k m = withoutMissingProperties be k m"
  by (simp add: withoutMissingProperties_def bindingPropertyExists_iff)

lemma withoutMissingRelations_names:
  "map brName (beRelations be') = map brName (beRelations be) \<Longrightarrow>
   withoutMissingRelations be' k m = withoutMissingRelations be k m"
  by (simp add: withoutMissingRelations_def bindingRelationExists_iff)

lemma removeProperties_eq:
  "k < length (Entities m) \<Longrightarrow>
   removeProperties (removedProperties (meProperties (Entities m ! k)) be) 0 k m
     = (None, withoutMissingProperties be k m)"
  by (simp add: removeProperties_filter withoutMissingProperties_def)

lemma removeRelations_eq:
  "k < length (Entities m) \<Longrightarrow>
   removeRelations (removedRelations (meRelations (Entities m ! k)) be) 0 k m
     = (None, withoutMissingRelations be k m)"
  by (simp add: removeRelations_filter withoutMissingRelations_def)

lemma withoutMissingProperties_frame:
  "k < length (Entities m) \<Longrightarrow> propsStep k m (withoutMissingProperties be k m)"
  "k < length (Entities m) \<Longrightarrow>
   meLastPropertyId (Entities (withoutMissingProperties be k m) ! k)
     = meLastPropertyId (Entities m ! k)"
  "k < length (Entities m) \<Longrightarrow>
   meProperties (Entities (withoutMissingProperties be k m) ! k)
     = filter (\<lambda>p. bindingPropertyExists p be) (meProperties (Entities m ! k))"
  by (simp_all add: withoutMissingProperties_def propsStep_def othersSame_def)

lemma withoutMissingRelations_frame:
  "k < length (Entities m) \<Longrightarrow> relsStep k m (withoutMissingRelations be k m)"
  "k < length (Entities m) \<Longrightarrow>
   meRelations (Entities (withoutMissingRelations be k m) ! k)
     = filter (\<lambda>x. bindingRelationExists x be) (meRelations (Entities m ! k))"
  by (simp_all add: withoutMissingRelations_def relsStep_def othersSame_def)

lemma propsStep_length: "propsStep k m m' \<Longrightarrow> length (Entities m') = length (Entities m)"
  by (simp add: propsStep_def othersSame_def)

lemma relsStep_length: "relsStep k m m' \<Longrightarrow> length (Entities m') = length (Entities m)"
  by (simp add: relsStep_def othersSame_def)

lemma mergeModelEntity_steps:
  assumes k: "k < length (Entities m)"
  shows "mergeModelEntity be k m =
     (let m1 = updEntity k (\<lambda>e. e\<lparr>meName := beName be\<rparr>) m;
          be1 = be\<lparr>beId := idPart (meId (Entities m1 ! k)),
                    beUid := uidPart (meId (Entities m1 ! k))\<rparr>
      in case mergeProperties (beProperties be) k m1 of
           (Some err, bps, m2) \<Rightarrow> (Some err, be1\<lparr>beProperties := bps\<rparr>, m2)
         | (None, bps, m2) \<Rightarrow>
             let m3 = withoutMissingProperties be k m2;
                 be3 = be1\<lparr>beProperties := bps,
                           beLastPropertyId := meLastPropertyId (Entities m3 ! k)\<rparr>
             in case mergeRelations (beRelations be) k m3 of
                  (Some err, brs, m4) \<Rightarrow> (Some err, be3\<lparr>beRelations := brs\<rparr>, m4)
                | (None, brs, m4) \<Rightarrow>
                    (None, be3\<lparr>beRelations := brs\<rparr>, withoutMissingRelations be k m4))"
proof -
  define m1 where "m1 = updEntity k (\<lambda>e. e\<lparr>meName := beName be\<rparr>) m"
  define be1 where "be1 = be\<lparr>beId := idPart (meId (Entities m1 ! k)),
                    beUid := uidPart (meId (Entities m1 ! k))\<rparr>"
  have k1: "k < length (Entities m1)" using k by (simp add: m1_def)
  obtain e2 bps m2 where p: "mergeProperties (beProperties be) k m1 = (e2, bps, m2)"
    by (cases "mergeProperties (beProperties be) k m1")
  have k2: "k < length (Entities m2)"
    using mergeProperties_frame [OF k1 p] k1 by (auto dest: propsStep_length)
  have n2: "map bpName bps = map bpName (beProperties be)" by (rule mergeProperties_names [OF p])
  define m3 where "m3 = withoutMissingProperties be k m2"
  have rp: "removeProperties (removedProperties (meProperties (Entities m2 ! k))
                (be1\<lparr>beProperties := bps\<rparr>)) 0 k m2 = (None, m3)"
    using removeProperties_eq [OF k2, of "be1\<lparr>beProperties := bps\<rparr>"]
      withoutMissingProperties_names [of "be1\<lparr>beProperties := bps\<rparr>" be k m2] n2
    by (simp add: m3_def)
  have k3: "k < length (Entities m3)"
    using withoutMissingProperties_frame(1) [OF k2, of be] k2 by (auto simp: m3_def dest: propsStep_length)
  define be3 where "be3 = be1\<lparr>beProperties := bps,
                           beLastPropertyId := meLastPropertyId (Entities m3 ! k)\<rparr>"
  obtain e4 brs m4 where q: "mergeRelations (beRelations be) k m3 = (e4, brs, m4)"
    by (cases "mergeRelations (beRelations be) k m3")
  have k4: "k < length (Entities m4)"
    using mergeRelations_frame [OF k3 q] k3 by (auto dest: relsStep_length)
  have n4: "map brName brs = map brName (beRelations be)" by (rule mergeRelations_names [OF q])
  have rr: "removeRelations (removedRelations (meRelations (Entities m4 ! k))
                (be3\<lparr>beRelations := brs\<rparr>)) 0 k m4 = (None, withoutMissingRelations be k m4)"
    using removeRelations_eq [OF k4, of "be3\<lparr>beRelations := brs\<rparr>"]
      withoutMissingRelations_names [of "be3\<lparr>beRelations := brs\<rparr>" be k m4] n4
    by simp
  show ?thesis
    unfolding mergeModelEntity_def Let_def m1_def [symmetric]
    using p rp q rr
    by (cases e2; cases e4; simp add: be1_def [symmetric] m3_def [symmetric] be3_def [symmetric])
       (simp_all add: be1_def be3_def)
qed

lemma updEntity_id: "f (Entities m ! k) = Entities m ! k \<Longrightarrow> updEntity k f m = m"
  by (simp add: updEntity_def)

lemma propsStep_othersSame: "propsStep k m m' \<Longrightarrow> othersSame k m m'"
  by (simp add: propsStep_def)

lemma relsStep_othersSame: "relsStep k m m' \<Longrightarrow> othersSame k m m'"
  by (simp add: relsStep_def)

lemma relsStep_last:
  "relsStep k m m' \<Longrightarrow> meLastPropertyId (Entities m' ! k) = meLastPropertyId (Entities m ! k)"
  by (simp add: relsStep_def)

lemma relsStep_props:
  "relsStep k m m' \<Longrightarrow> meProperties (Entities m' ! k) = meProperties (Entities m ! k)"
  by (simp add: relsStep_def)

lemma mergeModelEntity_from_named:
  assumes k: "k < length (Entities m)"
    and r: "mergeModelEntity be k m = (err, be', m')"
  shows "othersSame k (updEntity k (\<lambda>e. e\<lparr>meName := beName be\<rparr>) m) m'"
    and "idPart (meLastPropertyId (Entities m ! k)) \<le> idPart (meLastPropertyId (Entities m' ! k))"
proof -
  define m1 where "m1 = updEntity k (\<lambda>e. e\<lparr>meName := beName be\<rparr>) m"
  have k1: "k < length (Entities m1)"
    and l1: "meLastPropertyId (Entities m1 ! k) = meLastPropertyId (Entities m ! k)"
    using k by (simp_all add: m1_def updEntity_def)
  obtain e2 bps m2 where p: "mergeProperties (beProperties be) k m1 = (e2, bps, m2)"
    by (cases "mergeProperties (beProperties be) k m1")
  from mergeProperties_frame [OF k1 p]
  have s2: "propsStep k m1 m2"
    and l2: "idPart (meLastPropertyId (Entities m1 ! k)) \<le> idPart (meLastPropertyId (Entities m2 ! k))"
    by simp_all
  have k2: "k < length (Entities m2)" using s2 k1 by (auto dest: propsStep_length)
  define m3 where "m3 = withoutMissingProperties be k m2"
  have s3: "propsStep k m2 m3" and l3: "meLastPropertyId (Entities m3 ! k) = meLastPropertyId (Entities m2 ! k)"
    using withoutMissingProperties_frame(1,2) [OF k2, of be] by (simp_all add: m3_def)
  have k3: "k < length (Entities m3)" using s3 k2 by (auto dest: propsStep_length)
  obtain e4 brs m4 where q: "mergeRelations (beRelations be) k m3 = (e4, brs, m4)"
    by (cases "mergeRelations (beRelations be) k m3")
  have s4: "relsStep k m3 m4" by (rule mergeRelations_frame [OF k3 q])
  have k4: "k < length (Entities m4)" using s4 k3 by (auto dest: relsStep_length)
  have s5: "relsStep k m4 (withoutMissingRelations be k m4)"
    by (rule withoutMissingRelations_frame(1) [OF k4])
  have o2: "othersSame k m1 m2" using s2 by (rule propsStep_othersSame)
  have o3: "othersSame k m1 m3" using o2 s3 by (blast intro: othersSame_trans propsStep_othersSame)
  have o4: "othersSame k m1 m4" using o3 s4 by (blast intro: othersSame_trans relsStep_othersSame)
  have o5: "othersSame k m1 (withoutMissingRelations be k m4)"
    using o4 s5 by (blast intro: othersSame_trans relsStep_othersSame)
  have l4: "meLastPropertyId (Entities m4 ! k) = meLastPropertyId (Entities m2 ! k)"
    using relsStep_last [OF s4] l3 by simp
  have l5: "meLastPropertyId (Entities (withoutMissingRelations be k m4) ! k)
      = meLastPropertyId (Entities m2 ! k)"
    using relsStep_last [OF s5] l4 by simp
  have m': "m' = (case e2 of Some e \<Rightarrow> m2
                  | None \<Rightarrow> (case e4 of Some e \<Rightarrow> m4 | None \<Rightarrow> withoutMissingRelations be k m4))"
    using r p q [unfolded m3_def] unfolding mergeModelEntity_steps [OF k] Let_def m1_def [symmetric]
    by (cases e2; cases e4; auto)
  show "othersSame k (updEntity k (\<lambda>e. e\<lparr>meName := beName be\<rparr>) m) m'"
    unfolding m1_def [symmetric] m' using o2 o4 o5 by (cases e2; cases e4; simp)
  show "idPart (meLastPropertyId (Entities m ! k)) \<le> idPart (meLastPropertyId (Entities m' ! k))"
    unfolding m' using l2 l4 l5 l1 by (cases e2; cases e4; simp)
qed

lemma getModelEntity_plain:
  assumes "beUid be = 0" "getModelEntity be m = (Inr k, m')"
  shows "\<not> beUidRequest be"
    and "findIndex (\<lambda>e. meName e = beName be) (Entities m') = Some k"
    and "\<exists>new. Entities m' = Entities m @ new"
proof -
  from assms show "\<not> beUidRequest be"
    by (auto simp: getModelEntity_def Let_def split: if_splits sum.splits)
  from assms(2) show "\<exists>new. Entities m' = Entities m @ new" by (rule getModelEntity_Entities)
  from assms show "findIndex (\<lambda>e. meName e = beName be) (Entities m') = Some k"
    by (auto simp: getModelEntity_def FindEntityByName_def CreateEntity_def Let_def
          findIndex_append
        split: if_splits sum.splits option.splits prod.splits dest!: GenerateUid_Inr)
qed

lemma mergeModelProperty_settled:
  assumes k: "k < length (Entities m)" and j: "j < length (meProperties (Entities m ! k))"
    and u: "bpUid bp = 0 \<or> uidPart (mpId (theProperty m k j)) = bpUid bp"
    and ix: "(mpIndexId (theProperty m k j) \<noteq> None) = (bpIndex bp \<noteq> None)"
    and tg: "mpRelationTarget (theProperty m k j)
           = (case bpRelation bp of Some targetName \<Rightarrow> targetName | None \<Rightarrow> [])"
    and ty: "mpType (theProperty m k j) = bpObType bp"
    and fl: "mpFlags (theProperty m k j) = ObFlagsCombined bp"
  shows "\<exists>bp'. mergeModelProperty bp k j m
                = (None, bp', updProperty k j (\<lambda>p. p\<lparr>mpName := bpName bp\<rparr>) m)"
proof -
  define m1 where "m1 = updProperty k j (\<lambda>p. p\<lparr>mpName := bpName bp\<rparr>) m"
  have k1: "k < length (Entities m1)" and j1: "j < length (meProperties (Entities m1 ! k))"
    and p1: "theProperty m1 k j = (theProperty m k j)\<lparr>mpName := bpName bp\<rparr>"
    using k j by (simp_all add: m1_def properties_updProperty theProperty_updProperty)
  have same: "updProperty k j
      (\<lambda>p. p\<lparr>mpId := CreateIdUid (idPart (mpId (theProperty m1 k j))) (bpUid bp)\<rparr>) m1 = m1"
    if "bpUid bp \<noteq> 0"
  proof -
    from that u have e: "uidPart (mpId (theProperty m k j)) = bpUid bp" by simp
    show ?thesis by (rule updProperty_id) (simp add: p1 e [symmetric])
  qed
  have last: "updProperty k j
      (\<lambda>p. p\<lparr>mpRelationTarget :=
                (case bpRelation bp of Some targetName \<Rightarrow> targetName | None \<Rightarrow> []),
              mpType := bpObType bp, mpFlags := ObFlagsCombined bp\<rparr>) m1 = m1"
    by (rule updProperty_id) (simp add: p1 tg [symmetric] ty [symmetric] fl [symmetric])
  have "\<exists>bp2. mergeModelPropertyIndex
                (bp\<lparr>bpId := idPart (mpId (theProperty m1 k j)),
                    bpUid := uidPart (mpId (theProperty m1 k j))\<rparr>) k j m1 = (None, bp2, m1)"
    using ix by (auto simp: mergeModelPropertyIndex_def p1 split: option.splits)
  then obtain bp2 where "mergeModelPropertyIndex
                (bp\<lparr>bpId := idPart (mpId (theProperty m1 k j)),
                    bpUid := uidPart (mpId (theProperty m1 k j))\<rparr>) k j m1 = (None, bp2, m1)" ..
  then have "mergeModelProperty bp k j m = (None, bp2, m1)"
    unfolding mergeModelProperty_steps Let_def m1_def [symmetric]
    by (cases "bpUid bp = 0") (simp_all add: same last)
  then show ?thesis unfolding m1_def by blast
qed

lemma withoutMissingProperties_settled:
  assumes "list_all (\<lambda>p. bindingPropertyExists p be) (meProperties (Entities m ! k))"
  shows "withoutMissingProperties be k m = m"
proof -
  from assms have "filter (\<lambda>p. bindingPropertyExists p be) (meProperties (Entities m ! k))
      = meProperties (Entities m ! k)"
    and "filter (\<lambda>p. \<not> bindingPropertyExists p be) (meProperties (Entities m ! k)) = []"
    by (simp_all add: list_all_iff filter_empty_conv)
  then show ?thesis by (simp add: withoutMissingProperties_def)
qed

lemma withoutMissingRelations_settled:
  assumes "list_all (\<lambda>x. bindingRelationExists x be) (meRelations (Entities m ! k))"
  shows "withoutMissingRelations be k m = m"
proof -
  from assms have "filter (\<lambda>x. bindingRelationExists x be) (meRelations (Entities m ! k))
      = meRelations (Entities m ! k)"
    and "filter (\<lambda>x. \<not> bindingRelationExists x be) (meRelations (Entities m ! k)) = []"
    by (simp_all add: list_all_iff filter_empty_conv)
  then show ?thesis by (simp add: withoutMissingRelations_def)
qed

lemma updRelation_id:
  "f (theRelation m k j) = theRelation m k j \<Longrightarrow> updRelation k j f m = m"
  by (simp add: updRelation_def updEntity_def theRelation_def)

lemma getModelRelation_retired:
  "getModelRelation br k m = (r, m') \<Longrightarrow> RetiredPropertyUids m' = RetiredPropertyUids m"
  by (auto simp: getModelRelation_def CreateRelation_def GenerateUid_def updEntity_def Let_def
      split: if_splits option.splits sum.splits prod.splits)

lemma mergeModelRelation_retired:
  "mergeModelRelation br k j m = (err, br', m') \<Longrightarrow> RetiredPropertyUids m' = RetiredPropertyUids m"
  by (auto simp: mergeModelRelation_def updRelation_def updEntity_def Let_def
      split: if_splits option.splits sum.splits prod.splits)

lemma mergeRelations_retired:
  "mergeRelations brs k m = (err, brs', m') \<Longrightarrow> RetiredPropertyUids m' = RetiredPropertyUids m"
proof (induction brs arbitrary: m err brs' m')
  case Nil
  then show ?case by simp
next
  case (Cons br brs)
  obtain r1 m1 where g: "getModelRelation br k m = (r1, m1)" by (cases "getModelRelation br k m")
  note a = getModelRelation_retired [OF g]
  show ?case
  proof (cases r1)
    case (Inl e)
    with Cons.prems g a show ?thesis by auto
  next
    case (Inr j)
    obtain e2 br2 m2 where r: "mergeModelRelation br k j m1 = (e2, br2, m2)"
      by (cases "mergeModelRelation br k j m1")
    note b = mergeModelRelation_retired [OF r]
    show ?thesis
    proof (cases e2)
      case (Some e)
      with Cons.prems g Inr r a b show ?thesis by auto
    next
      case None
      obtain e3 brs3 m3 where l: "mergeRelations brs k m2 = (e3, brs3, m3)"
        by (cases "mergeRelations brs k m2")
      from Cons.IH [OF l] Cons.prems g Inr r None l a b show ?thesis by auto
    qed
  qed
qed

lemma mergeModelEntity_removal:
  assumes k: "k < length (Entities m)" and r: "mergeModelEntity be k m = (None, be', m')"
  shows "\<exists>bps m2.
      mergeProperties (beProperties be) k (updEntity k (\<lambda>e. e\<lparr>meName := beName be\<rparr>) m) = (None, bps, m2)
      \<and> meProperties (Entities m' ! k)
           = filter (\<lambda>p. bindingPropertyExists p be) (meProperties (Entities m2 ! k))
      \<and> RetiredPropertyUids m'
           = RetiredPropertyUids m2
               @ map (\<lambda>p. uidPart (mpId p))
                   (filter (\<lambda>p. \<not> bindingPropertyExists p be) (meProperties (Entities m2 ! k)))"
proof -
  define m1 where "m1 = updEntity k (\<lambda>e. e\<lparr>meName := beName be\<rparr>) m"
  have k1: "k < length (Entities m1)" using k by (simp add: m1_def)
  from r obtain bps m2 brs m4 where
    p: "mergeProperties (beProperties be) k m1 = (None, bps, m2)"
    and q: "mergeRelations (beRelations be) k (withoutMissingProperties be k m2) = (None, brs, m4)"
    and m': "m' = withoutMissingRelations be k m4"
    unfolding mergeModelEntity_steps [OF k] Let_def m1_def [symmetric]
    by (auto split: prod.splits option.splits)
  have k2: "k < length (Entities m2)"
    using mergeProperties_frame [OF k1 p] k1 by (auto dest: propsStep_length)
  define m3 where "m3 = withoutMissingProperties be k m2"
  have k3: "k < length (Entities m3)"
    using withoutMissingProperties_frame(1) [OF k2, of be] k2
    by (auto simp: m3_def dest: propsStep_length)
  have s4: "relsStep k m3 m4" using mergeRelations_frame [OF k3 q [folded m3_def]] .
  have k4: "k < length (Entities m4)" using s4 k3 by (auto dest: relsStep_length)
  have s5: "relsStep k m4 m'" unfolding m' by (rule withoutMissingRelations_frame(1) [OF k4])
  have "meProperties (Entities m' ! k) = meProperties (Entities m3 ! k)"
    using relsStep_props [OF s5] relsStep_props [OF s4] by simp
  then have a: "meProperties (Entities m' ! k)
      = filter (\<lambda>p. bindingPropertyExists p be) (meProperties (Entities m2 ! k))"
    using withoutMissingProperties_frame(3) [OF k2, of be] by (simp add: m3_def)
  have "RetiredPropertyUids m' = RetiredPropertyUids m4"
    by (simp add: m' withoutMissingRelations_def)
  also have "\<dots> = RetiredPropertyUids m3" using mergeRelations_retired [OF q] by (simp add: m3_def)
  also have "\<dots> = RetiredPropertyUids m2
               @ map (\<lambda>p. uidPart (mpId p))
                   (filter (\<lambda>p. \<not> bindingPropertyExists p be) (meProperties (Entities m2 ! k)))"
    by (simp add: m3_def withoutMissingProperties_def)
  finally show ?thesis using p a unfolding m1_def by blast
qed

lemma lastPropertyIdsGrow_refl [simp]: "lastPropertyIdsGrow m m"
  by (simp add: lastPropertyIdsGrow_def)

lemma lastPropertyIdsGrow_trans:
  "lastPropertyIdsGrow m m1 \<Longrightarrow> lastPropertyIdsGrow m1 m2 \<Longrightarrow> lastPropertyIdsGrow m m2"
  unfolding lastPropertyIdsGrow_def
  by (meson le_trans less_le_trans order.trans)

lemma lastPropertyIdsGrow_append:
  "Entities m' = Entities m @ new \<Longrightarrow> lastPropertyIdsGrow m m'"
  by (simp add: lastPropertyIdsGrow_def nth_append)

lemma getModelEntity_valid:
  "getModelEntity be m = (Inr k, m') \<Longrightarrow> k < length (Entities m')"
  by (auto simp: getModelEntity_def FindEntityByUid_def FindEntityByName_def CreateEntity_def
        Let_def
      split: if_splits sum.splits option.splits prod.splits
      dest: findIndex_Some dest!: GenerateUid_Inr)

lemma getModelEntities_valid:
  "getModelEntities bes m = (Inr ks, m') \<Longrightarrow> list_all (\<lambda>k. k < length (Entities m')) ks"
proof (induction bes arbitrary: m ks)
  case Nil
  then show ?case by simp
next
  case (Cons be bes)
  from Cons.prems obtain k m1 ks1 where
    g: "getModelEntity be m = (Inr k, m1)" and l: "getModelEntities bes m1 = (Inr ks1, m')"
    and ks: "ks = k # ks1"
    by (auto split: prod.splits sum.splits)
  from getModelEntities_Entities [OF l] obtain new where "Entities m' = Entities m1 @ new" ..
  with getModelEntity_valid [OF g] Cons.IH [OF l] ks show ?case by simp
qed

lemma mergeModelEntity_grow:
  assumes k: "k < length (Entities m)" and r: "mergeModelEntity be k m = (err, be', m')"
  shows "lastPropertyIdsGrow m m'" and "length (Entities m') = length (Entities m)"
proof -
  note f = mergeModelEntity_from_named [OF k r]
  from f(1) have len: "length (Entities m') = length (Entities m)"
    and oth: "\<And>i. i \<noteq> k \<Longrightarrow> Entities m' ! i = Entities m ! i"
    using k by (auto simp: othersSame_def updEntity_def)
  show "length (Entities m') = length (Entities m)" by (rule len)
  show "lastPropertyIdsGrow m m'"
    unfolding lastPropertyIdsGrow_def
  proof (intro conjI allI impI)
    show "length (Entities m) \<le> length (Entities m')" using len by simp
    fix i assume "i < length (Entities m)"
    show "idPart (meLastPropertyId (Entities m ! i)) \<le> idPart (meLastPropertyId (Entities m' ! i))"
      using f(2) oth [of i] by (cases "i = k") simp_all
  qed
qed

lemma mergeModelEntities_grow:
  assumes "list_all (\<lambda>k. k < length (Entities m)) ks"
    and "mergeModelEntities bes ks m = (err, bes', m')"
  shows "lastPropertyIdsGrow m m'"
  using assms
proof (induction bes ks m arbitrary: err bes' m' rule: mergeModelEntities.induct)
  case (1 be bes k ks m)
  obtain e1 be1 m1 where r: "mergeModelEntity be k m = (e1, be1, m1)"
    by (cases "mergeModelEntity be k m")
  from "1.prems"(1) have k: "k < length (Entities m)" by simp
  note g = mergeModelEntity_grow [OF k r]
  show ?case
  proof (cases e1)
    case (Some e)
    with "1.prems"(2) r g show ?thesis by auto
  next
    case None
    obtain e2 bes2 m2 where l: "mergeModelEntities bes ks m1 = (e2, bes2, m2)"
      by (cases "mergeModelEntities bes ks m1")
    have v: "list_all (\<lambda>k. k < length (Entities m1)) ks" using "1.prems"(1) g(2) by simp
    from "1.IH" [OF _ _ _ v l] r None have "lastPropertyIdsGrow m1 m2" by simp
    with g(1) have "lastPropertyIdsGrow m m2" by (rule lastPropertyIdsGrow_trans)
    with "1.prems"(2) r None l show ?thesis by auto
  qed
qed auto

lemma mergeBindingWithModelInfo_grow:
  assumes "mergeBindingWithModelInfo b m = (err, b', m')"
  shows "lastPropertyIdsGrow m m'"
proof -
  obtain r1 m1 where g: "getModelEntities (bEntities b) m = (r1, m1)"
    by (cases "getModelEntities (bEntities b) m")
  from getModelEntities_Entities [OF g] have g1: "lastPropertyIdsGrow m m1"
    by (auto intro: lastPropertyIdsGrow_append)
  show ?thesis
  proof (cases r1)
    case (Inl e)
    with assms g g1 show ?thesis by (auto simp: mergeBindingWithModelInfo_def)
  next
    case (Inr ks)
    obtain e2 bes m2 where l: "mergeModelEntities (bEntities b) ks m1 = (e2, bes, m2)"
      by (cases "mergeModelEntities (bEntities b) ks m1")
    from getModelEntities_valid [OF g [unfolded Inr]] l
    have "lastPropertyIdsGrow m1 m2" by (rule mergeModelEntities_grow)
    with g1 have g2: "lastPropertyIdsGrow m m2" by (rule lastPropertyIdsGrow_trans)
    then have "lastPropertyIdsGrow m (m2\<lparr>Package := bPackageName b\<rparr>)"
      by (simp add: lastPropertyIdsGrow_def)
    with assms g Inr l g2 show ?thesis
      by (cases e2) (auto simp: mergeBindingWithModelInfo_def)
  qed
qed

lemma findIndex_SomeI:
  "k < length xs \<Longrightarrow> P (xs ! k) \<Longrightarrow> (\<And>i. i < k \<Longrightarrow> \<not> P (xs ! i)) \<Longrightarrow> findIndex P xs = Some k"
proof (induction xs arbitrary: k)
  case Nil
  then show ?case by simp
next
  case (Cons x xs)
  show ?case
  proof (cases k)
    case 0
    with Cons.prems show ?thesis by simp
  next
    case (Suc k')
    from Cons.prems(3) [of 0] Suc have nx: "\<not> P x" by simp
    have "findIndex P xs = Some k'"
    proof (rule Cons.IH)
      show "k' < length xs" using Cons.prems(1) Suc by simp
      show "P (xs ! k')" using Cons.prems(2) Suc by simp
      fix i assume "i < k'"
      with Cons.prems(3) [of "Suc i"] Suc show "\<not> P (xs ! i)" by simp
    qed
    with nx Suc show ?thesis by simp
  qed
qed

lemma findIndex_update_other:
  assumes f: "findIndex Q xs = Some j0" and ne: "j \<noteq> j0" and ny: "j < j0 \<Longrightarrow> \<not> Q y"
  shows "findIndex Q (xs[j := y]) = Some j0"
proof (rule findIndex_SomeI)
  note s = findIndex_Some [OF f]
  show "j0 < length (xs[j := y])" using s by simp
  show "Q (xs[j := y] ! j0)" using s ne by simp
  fix i assume i: "i < j0"
  show "\<not> Q (xs[j := y] ! i)"
  proof (cases "i = j")
    case True
    with i ny s show ?thesis by simp
  next
    case False
    with i s show ?thesis by simp
  qed
qed

lemma findIndex_append_keep:
  "findIndex Q xs = Some j0 \<Longrightarrow> findIndex Q (xs @ ys) = Some j0"
  by (simp add: findIndex_append)

lemma find_filter_keep:
  "find P xs = Some x \<Longrightarrow> Q x \<Longrightarrow> find P (filter Q xs) = Some x"
  by (induction xs) (auto split: if_splits)

lemma getModelProperty_cases:
  assumes k: "k < length (Entities m)" and g: "getModelProperty bp k m = (Inr j, m1)"
  shows "bpUid bp \<noteq> 0 \<or> \<not> bpUidRequest bp"
    and "(m1 = m \<and> j < length (meProperties (Entities m ! k))
          \<and> (if bpUid bp \<noteq> 0
              then findIndex (\<lambda>p. uidPart (mpId p) = bpUid bp) (meProperties (Entities m ! k)) = Some j
                \<or> (findIndex (\<lambda>p. uidPart (mpId p) = bpUid bp) (meProperties (Entities m ! k)) = None
                    \<and> findIndex (\<lambda>p. mpName p = bpName bp) (meProperties (Entities m ! k)) = Some j)
              else findIndex (\<lambda>p. mpName p = bpName bp) (meProperties (Entities m ! k)) = Some j))
       \<or> (bpUid bp = 0
           \<and> findIndex (\<lambda>p. mpName p = bpName bp) (meProperties (Entities m ! k)) = None
           \<and> CreateProperty k m = (Inr j, m1))"
proof -
  from g show "bpUid bp \<noteq> 0 \<or> \<not> bpUidRequest bp"
    by (auto simp: getModelProperty_def Let_def split: if_splits sum.splits prod.splits)
  from g show "(m1 = m \<and> j < length (meProperties (Entities m ! k))
          \<and> (if bpUid bp \<noteq> 0
              then findIndex (\<lambda>p. uidPart (mpId p) = bpUid bp) (meProperties (Entities m ! k)) = Some j
                \<or> (findIndex (\<lambda>p. uidPart (mpId p) = bpUid bp) (meProperties (Entities m ! k)) = None
                    \<and> findIndex (\<lambda>p. mpName p = bpName bp) (meProperties (Entities m ! k)) = Some j)
              else findIndex (\<lambda>p. mpName p = bpName bp) (meProperties (Entities m ! k)) = Some j))
       \<or> (bpUid bp = 0
           \<and> findIndex (\<lambda>p. mpName p = bpName bp) (meProperties (Entities m ! k)) = None
           \<and> CreateProperty k m = (Inr j, m1))"
    by (auto simp: getModelProperty_def FindPropertyByUid_def FindPropertyByName_def Let_def
        split: if_splits option.splits sum.splits prod.splits dest: findIndex_Some)
qed


lemma property_step:
  assumes k: "k < length (Entities m)"
    and g: "getModelProperty bp k m = (Inr j, m1)"
    and r: "mergeModelProperty bp k j m1 = (None, bp', m2)"
  shows "k < length (Entities m2)"
    and "bpId bp' = idPart (mpId (meProperties (Entities m2 ! k) ! j))"
    and "findIndex (propertyKey bp) (meProperties (Entities m2 ! k)) = Some j"
    and "propertyMerged bp (meProperties (Entities m2 ! k) ! j)"
    and "(j < length (meProperties (Entities m ! k))
          \<and> meProperties (Entities m2 ! k)
              = (meProperties (Entities m ! k))[j := meProperties (Entities m2 ! k) ! j]
          \<and> idPart (mpId (meProperties (Entities m2 ! k) ! j))
              = idPart (mpId (meProperties (Entities m ! k) ! j))
          \<and> (if bpUid bp \<noteq> 0
              then uidPart (mpId (meProperties (Entities m2 ! k) ! j)) = bpUid bp
                \<and> findIndex (\<lambda>p. uidPart (mpId p) = bpUid bp) (meProperties (Entities m ! k))
                     \<in> {None, Some j}
              else uidPart (mpId (meProperties (Entities m2 ! k) ! j))
                     = uidPart (mpId (meProperties (Entities m ! k) ! j))))
       \<or> (j = length (meProperties (Entities m ! k))
           \<and> meProperties (Entities m2 ! k)
               = meProperties (Entities m ! k) @ [meProperties (Entities m2 ! k) ! j])"
proof -
  let ?P = "meProperties (Entities m ! k)"
  let ?P2 = "meProperties (Entities m2 ! k)"
  let ?y = "?P2 ! j"
  note gc = getModelProperty_cases [OF k g]
  note fr = getModelProperty_frame [OF k g]
  have k1: "k < length (Entities m1)" using fr(1) k by (auto dest: propsStep_length)
  have j1: "j < length (meProperties (Entities m1 ! k))" using fr(3) by simp
  note e = mergeModelProperty_effect [OF k1 j1 r]
  note upd = mergeModelProperty_update [OF k1 j1 r]
  show k2: "k < length (Entities m2)" using e(1) k1 by (auto dest: propsStep_length)
  have yn: "mpName ?y = bpName bp" by (rule e(5))
  have yi: "mpId ?y = (if bpUid bp \<noteq> 0
              then CreateIdUid (idPart (mpId (meProperties (Entities m1 ! k) ! j))) (bpUid bp)
              else mpId (meProperties (Entities m1 ! k) ! j))" by (rule e(6))
  from e(7) yn show "propertyMerged bp ?y" by (simp add: propertyMerged_def)
  from r obtain ma bpa mb where ix: "mergeModelPropertyIndex bpa k j ma = (None, bp', mb)"
    and bpa: "bpa = bp\<lparr>bpId := idPart (mpId (theProperty ma k j)),
              bpUid := uidPart (mpId (theProperty ma k j))\<rparr>"
    and ma: "ma = (if bpUid bp \<noteq> 0
           then updProperty k j
                  (\<lambda>p. p\<lparr>mpId := CreateIdUid
                            (idPart (mpId (theProperty (updProperty k j (\<lambda>p. p\<lparr>mpName := bpName bp\<rparr>) m1) k j)))
                            (bpUid bp)\<rparr>)
                  (updProperty k j (\<lambda>p. p\<lparr>mpName := bpName bp\<rparr>) m1)
           else updProperty k j (\<lambda>p. p\<lparr>mpName := bpName bp\<rparr>) m1)"
    by (rule mergeModelProperty_cases) simp
  have ida: "idPart (mpId (theProperty ma k j)) = idPart (mpId (meProperties (Entities m1 ! k) ! j))"
    using k1 j1 by (simp add: ma theProperty_def properties_updProperty)
  have "bpId bp' = bpId bpa"
    using ix by (auto simp: mergeModelPropertyIndex_def Let_def
        split: option.splits if_splits prod.splits sum.splits)
  with bpa ida have b1: "bpId bp' = idPart (mpId (meProperties (Entities m1 ! k) ! j))" by simp
  with yi show "bpId bp' = idPart (mpId ?y)" by simp
  have key: "propertyKey bp ?y" using yn yi by (simp add: propertyKey_def)
  from gc(2) show "(j < length ?P \<and> ?P2 = ?P[j := ?y]
          \<and> idPart (mpId ?y) = idPart (mpId (?P ! j))
          \<and> (if bpUid bp \<noteq> 0
              then uidPart (mpId ?y) = bpUid bp
                \<and> findIndex (\<lambda>p. uidPart (mpId p) = bpUid bp) ?P \<in> {None, Some j}
              else uidPart (mpId ?y) = uidPart (mpId (?P ! j))))
       \<or> (j = length ?P \<and> ?P2 = ?P @ [?y])"
  proof
    assume a: "m1 = m \<and> j < length ?P
          \<and> (if bpUid bp \<noteq> 0
              then findIndex (\<lambda>p. uidPart (mpId p) = bpUid bp) ?P = Some j
                \<or> (findIndex (\<lambda>p. uidPart (mpId p) = bpUid bp) ?P = None
                    \<and> findIndex (\<lambda>p. mpName p = bpName bp) ?P = Some j)
              else findIndex (\<lambda>p. mpName p = bpName bp) ?P = Some j)"
    then have "j < length ?P \<and> ?P2 = ?P[j := ?y]
          \<and> idPart (mpId ?y) = idPart (mpId (?P ! j))
          \<and> (if bpUid bp \<noteq> 0
              then uidPart (mpId ?y) = bpUid bp
                \<and> findIndex (\<lambda>p. uidPart (mpId p) = bpUid bp) ?P \<in> {None, Some j}
              else uidPart (mpId ?y) = uidPart (mpId (?P ! j)))"
      using upd yi by (auto split: if_splits)
    then show ?thesis ..
  next
    assume a: "bpUid bp = 0 \<and> findIndex (\<lambda>p. mpName p = bpName bp) ?P = None
           \<and> CreateProperty k m = (Inr j, m1)"
    then have cp: "CreateProperty k m = (Inr j, m1)" by simp
    from CreateProperty_Inr(2,3) [OF k cp] upd
    have "j = length ?P \<and> ?P2 = ?P @ [?y]" by auto
    then show ?thesis ..
  qed
  from gc(2) show "findIndex (propertyKey bp) ?P2 = Some j"
  proof
    assume a: "m1 = m \<and> j < length ?P
          \<and> (if bpUid bp \<noteq> 0
              then findIndex (\<lambda>p. uidPart (mpId p) = bpUid bp) ?P = Some j
                \<or> (findIndex (\<lambda>p. uidPart (mpId p) = bpUid bp) ?P = None
                    \<and> findIndex (\<lambda>p. mpName p = bpName bp) ?P = Some j)
              else findIndex (\<lambda>p. mpName p = bpName bp) ?P = Some j)"
    then have p2: "?P2 = ?P[j := ?y]" and j: "j < length ?P" using upd by simp_all
    show ?thesis
    proof (rule findIndex_SomeI)
      show "j < length ?P2" using e(3) j1 by simp
      show "propertyKey bp ?y" by (rule key)
      fix i assume i: "i < j"
      then have same: "?P2 ! i = ?P ! i" using e(4) [of i] a by simp
      have "\<not> propertyKey bp (?P ! i)"
      proof (cases "bpUid bp = 0")
        case True
        with a have "findIndex (\<lambda>p. mpName p = bpName bp) ?P = Some j" by simp
        from findIndex_Some [OF this] i True show ?thesis by (simp add: propertyKey_def)
      next
        case False
        with a have "findIndex (\<lambda>p. uidPart (mpId p) = bpUid bp) ?P = Some j
                \<or> findIndex (\<lambda>p. uidPart (mpId p) = bpUid bp) ?P = None" by auto
        then show ?thesis
        proof
          assume "findIndex (\<lambda>p. uidPart (mpId p) = bpUid bp) ?P = Some j"
          from findIndex_Some [OF this] i False show ?thesis by (simp add: propertyKey_def)
        next
          assume "findIndex (\<lambda>p. uidPart (mpId p) = bpUid bp) ?P = None"
          then have "\<forall>p\<in>set ?P. uidPart (mpId p) \<noteq> bpUid bp" by (simp add: findIndex_None)
          moreover have "?P ! i \<in> set ?P" using i j by simp
          ultimately show ?thesis using False by (simp add: propertyKey_def)
        qed
      qed
      with same show "\<not> propertyKey bp (?P2 ! i)" by simp
    qed
  next
    assume a: "bpUid bp = 0 \<and> findIndex (\<lambda>p. mpName p = bpName bp) ?P = None
           \<and> CreateProperty k m = (Inr j, m1)"
    then have cp: "CreateProperty k m = (Inr j, m1)" by simp
    from CreateProperty_Inr(2,3) [OF k cp] upd
    have jl: "j = length ?P" and p2: "?P2 = ?P @ [?y]" by auto
    show ?thesis
    proof (rule findIndex_SomeI)
      show "j < length ?P2" using e(3) j1 by simp
      show "propertyKey bp ?y" by (rule key)
      fix i assume i: "i < j"
      with jl p2 have same: "?P2 ! i = ?P ! i" by (metis nth_append)
      from a have "\<forall>p\<in>set ?P. mpName p \<noteq> bpName bp" by (simp add: findIndex_None)
      moreover have "?P ! i \<in> set ?P" using i jl by simp
      ultimately show "\<not> propertyKey bp (?P2 ! i)" using same a by (simp add: propertyKey_def)
    qed
  qed
qed

lemma property_step_keeps:
  assumes st: "(j < length P \<and> P2 = P[j := y]
          \<and> idPart (mpId y) = idPart (mpId (P ! j))
          \<and> (if bpUid bp \<noteq> 0
              then uidPart (mpId y) = bpUid bp
                \<and> findIndex (\<lambda>p. uidPart (mpId p) = bpUid bp) P \<in> {None, Some j}
              else uidPart (mpId y) = uidPart (mpId (P ! j))))
       \<or> (j = length P \<and> P2 = P @ [y])"
    and yn: "mpName y = bpName bp"
    and f0: "findIndex (propertyKey bp0) P = Some j0"
    and nn: "bpName bp0 \<noteq> bpName bp"
    and ni: "idPart (mpId (P ! j0)) \<noteq> idPart (mpId y)"
  shows "findIndex (propertyKey bp0) P2 = Some j0 \<and> P2 ! j0 = P ! j0"
  using st
proof
  assume a: "j = length P \<and> P2 = P @ [y]"
  from findIndex_Some [OF f0] have "j0 < length P" by simp
  with a f0 show ?thesis by (simp add: findIndex_append nth_append)
next
  assume a: "j < length P \<and> P2 = P[j := y]
          \<and> idPart (mpId y) = idPart (mpId (P ! j))
          \<and> (if bpUid bp \<noteq> 0
              then uidPart (mpId y) = bpUid bp
                \<and> findIndex (\<lambda>p. uidPart (mpId p) = bpUid bp) P \<in> {None, Some j}
              else uidPart (mpId y) = uidPart (mpId (P ! j)))"
  note s0 = findIndex_Some [OF f0]
  from a ni have ne: "j \<noteq> j0" by auto
  have ny: "\<not> propertyKey bp0 y" if lt: "j < j0"
  proof (cases "bpUid bp0 = 0")
    case True
    with yn nn show ?thesis by (auto simp: propertyKey_def)
  next
    case u0: False
    from s0 lt have nk: "\<not> propertyKey bp0 (P ! j)" by simp
    show ?thesis
    proof (cases "bpUid bp = 0")
      case True
      with a nk u0 show ?thesis by (simp add: propertyKey_def)
    next
      case False
      show ?thesis
      proof
        assume "propertyKey bp0 y"
        with u0 a False have eq: "bpUid bp = bpUid bp0" by (simp add: propertyKey_def)
        from u0 have "propertyKey bp0 = (\<lambda>p. uidPart (mpId p) = bpUid bp0)"
          by (auto simp: propertyKey_def fun_eq_iff)
        with f0 eq have "findIndex (\<lambda>p. uidPart (mpId p) = bpUid bp) P = Some j0" by simp
        with a False ne show False by auto
      qed
    qed
  qed
  from findIndex_update_other [OF f0 ne ny] a ne show ?thesis by simp
qed

lemma mergeProperties_keeps:
  assumes "k < length (Entities m)" "mergeProperties bps k m = (None, bps', m')"
    and "findIndex (propertyKey bp0) (meProperties (Entities m ! k)) = Some j0"
    and "bpName bp0 \<notin> set (map bpName bps)"
    and "idPart (mpId (meProperties (Entities m ! k) ! j0)) \<notin> set (map bpId bps')"
  shows "findIndex (propertyKey bp0) (meProperties (Entities m' ! k)) = Some j0
       \<and> meProperties (Entities m' ! k) ! j0 = meProperties (Entities m ! k) ! j0"
  using assms
proof (induction bps arbitrary: m bps' m')
  case Nil
  then show ?case by simp
next
  case (Cons bp bps)
  from Cons.prems(2) obtain j m1 bp2 m2 bps3 where
    g: "getModelProperty bp k m = (Inr j, m1)"
    and r: "mergeModelProperty bp k j m1 = (None, bp2, m2)"
    and l: "mergeProperties bps k m2 = (None, bps3, m')"
    and out: "bps' = bp2 # bps3"
    by (auto split: prod.splits sum.splits option.splits)
  note st = property_step [OF Cons.prems(1) g r]
  from st(4) have yn: "mpName (meProperties (Entities m2 ! k) ! j) = bpName bp"
    by (simp add: propertyMerged_def)
  from Cons.prems(4) have nn: "bpName bp0 \<noteq> bpName bp" and nns: "bpName bp0 \<notin> set (map bpName bps)"
    by auto
  from Cons.prems(5) out st(2)
  have ni: "idPart (mpId (meProperties (Entities m ! k) ! j0))
      \<noteq> idPart (mpId (meProperties (Entities m2 ! k) ! j))"
    and nis: "idPart (mpId (meProperties (Entities m ! k) ! j0)) \<notin> set (map bpId bps3)"
    by auto
  from property_step_keeps [OF st(5) yn Cons.prems(3) nn ni]
  have f2: "findIndex (propertyKey bp0) (meProperties (Entities m2 ! k)) = Some j0"
    and s2: "meProperties (Entities m2 ! k) ! j0 = meProperties (Entities m ! k) ! j0"
    by simp_all
  from Cons.IH [OF st(1) l f2 nns] nis s2 show ?case by simp
qed

lemma mergeProperties_merged:
  assumes "k < length (Entities m)" "mergeProperties bps k m = (None, bps', m')"
    and "distinct (map bpName bps)" "distinct (map bpId bps')"
  shows "list_all (\<lambda>bp. propertyInPlace bp (meProperties (Entities m' ! k))) bps"
  using assms
proof (induction bps arbitrary: m bps' m')
  case Nil
  then show ?case by simp
next
  case (Cons bp bps)
  from Cons.prems(2) obtain j m1 bp2 m2 bps3 where
    g: "getModelProperty bp k m = (Inr j, m1)"
    and r: "mergeModelProperty bp k j m1 = (None, bp2, m2)"
    and l: "mergeProperties bps k m2 = (None, bps3, m')"
    and out: "bps' = bp2 # bps3"
    by (auto split: prod.splits sum.splits option.splits)
  note st = property_step [OF Cons.prems(1) g r]
  note gc = getModelProperty_cases(1) [OF Cons.prems(1) g]
  from Cons.prems(3) have d: "distinct (map bpName bps)" and nn: "bpName bp \<notin> set (map bpName bps)"
    by simp_all
  from Cons.prems(4) out st(2)
  have di: "distinct (map bpId bps3)"
    and ni: "idPart (mpId (meProperties (Entities m2 ! k) ! j)) \<notin> set (map bpId bps3)"
    by auto
  from mergeProperties_keeps [OF st(1) l st(3) nn ni]
  have f: "findIndex (propertyKey bp) (meProperties (Entities m' ! k)) = Some j"
    and s: "meProperties (Entities m' ! k) ! j = meProperties (Entities m2 ! k) ! j"
    by simp_all
  have "propertyInPlace bp (meProperties (Entities m' ! k))"
    using f s st(4) gc by (simp add: propertyInPlace_def find_findIndex)
  with Cons.IH [OF st(1) l d di] show ?case by simp
qed


lemma getModelRelation_cases:
  assumes k: "k < length (Entities m)" and g: "getModelRelation br k m = (Inr j, m1)"
  shows "brUid br \<noteq> 0 \<or> \<not> brUidRequest br"
    and "(m1 = m \<and> j < length (meRelations (Entities m ! k))
          \<and> findIndex (relationKey br) (meRelations (Entities m ! k)) = Some j)
       \<or> (brUid br = 0
           \<and> findIndex (\<lambda>r. mrName r = brName br) (meRelations (Entities m ! k)) = None
           \<and> CreateRelation k m = (Inr j, m1))"
proof -
  from g show "brUid br \<noteq> 0 \<or> \<not> brUidRequest br"
    by (auto simp: getModelRelation_def Let_def split: if_splits sum.splits prod.splits)
  have ku: "brUid br \<noteq> 0 \<Longrightarrow> relationKey br = (\<lambda>r. uidPart (mrId r) = brUid br)"
    and kn: "brUid br = 0 \<Longrightarrow> relationKey br = (\<lambda>r. mrName r = brName br)"
    by (auto simp: relationKey_def fun_eq_iff)
  from g show "(m1 = m \<and> j < length (meRelations (Entities m ! k))
          \<and> findIndex (relationKey br) (meRelations (Entities m ! k)) = Some j)
       \<or> (brUid br = 0
           \<and> findIndex (\<lambda>r. mrName r = brName br) (meRelations (Entities m ! k)) = None
           \<and> CreateRelation k m = (Inr j, m1))"
    by (cases "brUid br = 0")
       (auto simp: getModelRelation_def FindRelationByUid_def FindRelationByName_def Let_def ku kn
        split: if_splits option.splits sum.splits prod.splits dest: findIndex_Some)
qed

lemma mergeModelRelation_written:
  assumes k: "k < length (Entities m)" and j: "j < length (meRelations (Entities m ! k))"
    and r: "mergeModelRelation br k j m = (None, br', m')"
  shows "brId br' = idPart (mrId (meRelations (Entities m ! k) ! j))"
    and "btName (brTarget br') = btName (brTarget br)"
    and "mrTargetEntityId (meRelations (Entities m' ! k) ! j)
           = CreateIdUid (btId (brTarget br')) (btUid (brTarget br'))"
proof -
  define m1 where "m1 = updRelation k j (\<lambda>r. r\<lparr>mrName := brName br\<rparr>) m"
  let ?R = "meRelations (Entities m ! k)"
  have k1: "k < length (Entities m1)"
    and r1: "meRelations (Entities m1 ! k) = ?R[j := (?R ! j)\<lparr>mrName := brName br\<rparr>]"
    using k by (simp_all add: m1_def relations_updRelation)
  define br1 where "br1 = br\<lparr>brId := idPart (mrId (theRelation m1 k j)),
                              brUid := uidPart (mrId (theRelation m1 k j))\<rparr>"
  from r obtain t where
    br': "br' = br1\<lparr>brTarget := (brTarget br1)\<lparr>btId := idPart (meId (Entities m1 ! t)),
                                                  btUid := uidPart (meId (Entities m1 ! t))\<rparr>\<rparr>"
    and m': "m' = updRelation k j (SetTarget (Entities m1 ! t)) m1"
    unfolding mergeModelRelation_def Let_def m1_def [symmetric]
    by (auto simp: br1_def FindEntityByName_def split: option.splits sum.splits)
  show "brId br' = idPart (mrId (?R ! j))"
    using j by (simp add: br' br1_def theRelation_def r1)
  show "btName (brTarget br') = btName (brTarget br)" by (simp add: br' br1_def)
  show "mrTargetEntityId (meRelations (Entities m' ! k) ! j)
           = CreateIdUid (btId (brTarget br')) (btUid (brTarget br'))"
    using j k1 by (simp add: br' m' relations_updRelation r1 SetTarget_def)
qed

lemma relation_step:
  assumes k: "k < length (Entities m)"
    and g: "getModelRelation br k m = (Inr j, m1)"
    and r: "mergeModelRelation br k j m1 = (None, br', m2)"
  shows "k < length (Entities m2)"
    and "brId br' = idPart (mrId (meRelations (Entities m2 ! k) ! j))"
    and "findIndex (relationKey br) (meRelations (Entities m2 ! k)) = Some j"
    and "mrName (meRelations (Entities m2 ! k) ! j) = brName br
         \<and> btName (brTarget br') = btName (brTarget br)
         \<and> mrTargetEntityId (meRelations (Entities m2 ! k) ! j)
             = CreateIdUid (btId (brTarget br')) (btUid (brTarget br'))"
    and "(j < length (meRelations (Entities m ! k))
          \<and> meRelations (Entities m2 ! k)
              = (meRelations (Entities m ! k))[j := meRelations (Entities m2 ! k) ! j]
          \<and> mrId (meRelations (Entities m2 ! k) ! j) = mrId (meRelations (Entities m ! k) ! j))
       \<or> (j = length (meRelations (Entities m ! k))
           \<and> meRelations (Entities m2 ! k)
               = meRelations (Entities m ! k) @ [meRelations (Entities m2 ! k) ! j])"
proof -
  let ?R = "meRelations (Entities m ! k)"
  let ?R1 = "meRelations (Entities m1 ! k)"
  let ?R2 = "meRelations (Entities m2 ! k)"
  let ?y = "?R2 ! j"
  note gc = getModelRelation_cases [OF k g]
  note fr = getModelRelation_frame [OF k g]
  have k1: "k < length (Entities m1)" using fr(1) k by (auto dest: relsStep_length)
  have j1: "j < length ?R1" using fr(2) by simp
  note e = mergeModelRelation_effect [OF k1 j1 r]
  note w = mergeModelRelation_written [OF k1 j1 r]
  show k2: "k < length (Entities m2)" using e(1) k1 by (auto dest: relsStep_length)
  have yn: "mrName ?y = brName br" by (rule e(3))
  have yi: "mrId ?y = mrId (?R1 ! j)" by (rule e(4))
  from w(1) yi show "brId br' = idPart (mrId ?y)" by simp
  from yn w(2,3) show "mrName ?y = brName br
         \<and> btName (brTarget br') = btName (brTarget br)
         \<and> mrTargetEntityId ?y = CreateIdUid (btId (brTarget br')) (btUid (brTarget br'))"
    by simp
  have len2: "length ?R2 = length ?R1" by (subst e(2)) simp
  have oth: "\<And>i. i \<noteq> j \<Longrightarrow> ?R2 ! i = ?R1 ! i" by (subst e(2)) simp
  from gc(2) show "(j < length ?R \<and> ?R2 = ?R[j := ?y] \<and> mrId ?y = mrId (?R ! j))
       \<or> (j = length ?R \<and> ?R2 = ?R @ [?y])"
  proof
    assume "m1 = m \<and> j < length ?R \<and> findIndex (relationKey br) ?R = Some j"
    with e(2) yi have "j < length ?R \<and> ?R2 = ?R[j := ?y] \<and> mrId ?y = mrId (?R ! j)" by simp
    then show ?thesis ..
  next
    assume a: "brUid br = 0 \<and> findIndex (\<lambda>r. mrName r = brName br) ?R = None
           \<and> CreateRelation k m = (Inr j, m1)"
    then have cr: "CreateRelation k m = (Inr j, m1)" by simp
    from CreateRelation_Inr(2,3) [OF k cr] e(2)
    have "j = length ?R \<and> ?R2 = ?R @ [?y]" by auto
    then show ?thesis ..
  qed
  from gc(2) show "findIndex (relationKey br) ?R2 = Some j"
  proof
    assume a: "m1 = m \<and> j < length ?R \<and> findIndex (relationKey br) ?R = Some j"
    note s = findIndex_Some [of "relationKey br" ?R j]
    show ?thesis
    proof (rule findIndex_SomeI)
      show "j < length ?R2" using len2 j1 by simp
      from a s have "relationKey br (?R ! j)" by simp
      with yn yi a show "relationKey br ?y" by (simp add: relationKey_def)
      fix i assume i: "i < j"
      with oth [of i] a s show "\<not> relationKey br (?R2 ! i)" by simp
    qed
  next
    assume a: "brUid br = 0 \<and> findIndex (\<lambda>r. mrName r = brName br) ?R = None
           \<and> CreateRelation k m = (Inr j, m1)"
    then have cr: "CreateRelation k m = (Inr j, m1)" by simp
    from CreateRelation_Inr(2,3) [OF k cr] e(2)
    have jl: "j = length ?R" and r2: "?R2 = ?R @ [?y]" by auto
    show ?thesis
    proof (rule findIndex_SomeI)
      show "j < length ?R2" using len2 j1 by simp
      show "relationKey br ?y" using yn a by (simp add: relationKey_def)
      fix i assume i: "i < j"
      with jl r2 have same: "?R2 ! i = ?R ! i" by (metis nth_append)
      from a have "\<forall>x\<in>set ?R. mrName x \<noteq> brName br" by (simp add: findIndex_None)
      moreover have "?R ! i \<in> set ?R" using i jl by simp
      ultimately show "\<not> relationKey br (?R2 ! i)" using same a by (simp add: relationKey_def)
    qed
  qed
qed

lemma relation_step_keeps:
  assumes st: "(j < length R \<and> R2 = R[j := y] \<and> mrId y = mrId (R ! j))
       \<or> (j = length R \<and> R2 = R @ [y])"
    and yn: "mrName y = brName br"
    and f0: "findIndex (relationKey br0) R = Some j0"
    and nn: "brName br0 \<noteq> brName br"
    and ni: "idPart (mrId (R ! j0)) \<noteq> idPart (mrId y)"
  shows "findIndex (relationKey br0) R2 = Some j0 \<and> R2 ! j0 = R ! j0"
  using st
proof
  assume a: "j = length R \<and> R2 = R @ [y]"
  from findIndex_Some [OF f0] have "j0 < length R" by simp
  with a f0 show ?thesis by (simp add: findIndex_append nth_append)
next
  assume a: "j < length R \<and> R2 = R[j := y] \<and> mrId y = mrId (R ! j)"
  note s0 = findIndex_Some [OF f0]
  from a ni have ne: "j \<noteq> j0" by auto
  have ny: "\<not> relationKey br0 y" if lt: "j < j0"
  proof -
    from s0 lt have "\<not> relationKey br0 (R ! j)" by simp
    with a yn nn show ?thesis by (auto simp: relationKey_def split: if_splits)
  qed
  from findIndex_update_other [OF f0 ne ny] a ne show ?thesis by simp
qed

lemma mergeRelations_keeps:
  assumes "k < length (Entities m)" "mergeRelations brs k m = (None, brs', m')"
    and "findIndex (relationKey br0) (meRelations (Entities m ! k)) = Some j0"
    and "brName br0 \<notin> set (map brName brs)"
    and "idPart (mrId (meRelations (Entities m ! k) ! j0)) \<notin> set (map brId brs')"
  shows "findIndex (relationKey br0) (meRelations (Entities m' ! k)) = Some j0
       \<and> meRelations (Entities m' ! k) ! j0 = meRelations (Entities m ! k) ! j0"
  using assms
proof (induction brs arbitrary: m brs' m')
  case Nil
  then show ?case by simp
next
  case (Cons br brs)
  from Cons.prems(2) obtain j m1 br2 m2 brs3 where
    g: "getModelRelation br k m = (Inr j, m1)"
    and r: "mergeModelRelation br k j m1 = (None, br2, m2)"
    and l: "mergeRelations brs k m2 = (None, brs3, m')"
    and out: "brs' = br2 # brs3"
    by (auto split: prod.splits sum.splits option.splits)
  note st = relation_step [OF Cons.prems(1) g r]
  from st(4) have yn: "mrName (meRelations (Entities m2 ! k) ! j) = brName br" by simp
  from Cons.prems(4) have nn: "brName br0 \<noteq> brName br" and nns: "brName br0 \<notin> set (map brName brs)"
    by auto
  from Cons.prems(5) out st(2)
  have ni: "idPart (mrId (meRelations (Entities m ! k) ! j0))
      \<noteq> idPart (mrId (meRelations (Entities m2 ! k) ! j))"
    and nis: "idPart (mrId (meRelations (Entities m ! k) ! j0)) \<notin> set (map brId brs3)"
    by auto
  from relation_step_keeps [OF st(5) yn Cons.prems(3) nn ni]
  have f2: "findIndex (relationKey br0) (meRelations (Entities m2 ! k)) = Some j0"
    and s2: "meRelations (Entities m2 ! k) ! j0 = meRelations (Entities m ! k) ! j0"
    by simp_all
  from Cons.IH [OF st(1) l f2 nns] nis s2 show ?case by simp
qed

lemma mergeRelations_merged:
  assumes "k < length (Entities m)" "mergeRelations brs k m = (None, brs', m')"
    and "distinct (map brName brs)" "distinct (map brId brs')"
  shows "list_all2 (\<lambda>br br'. relationResolved br br' (meRelations (Entities m' ! k))) brs brs'"
  using assms
proof (induction brs arbitrary: m brs' m')
  case Nil
  then show ?case by simp
next
  case (Cons br brs)
  from Cons.prems(2) obtain j m1 br2 m2 brs3 where
    g: "getModelRelation br k m = (Inr j, m1)"
    and r: "mergeModelRelation br k j m1 = (None, br2, m2)"
    and l: "mergeRelations brs k m2 = (None, brs3, m')"
    and out: "brs' = br2 # brs3"
    by (auto split: prod.splits sum.splits option.splits)
  note st = relation_step [OF Cons.prems(1) g r]
  note gc = getModelRelation_cases(1) [OF Cons.prems(1) g]
  from Cons.prems(3) have d: "distinct (map brName brs)" and nn: "brName br \<notin> set (map brName brs)"
    by simp_all
  from Cons.prems(4) out st(2)
  have di: "distinct (map brId brs3)"
    and ni: "idPart (mrId (meRelations (Entities m2 ! k) ! j)) \<notin> set (map brId brs3)"
    by auto
  from mergeRelations_keeps [OF st(1) l st(3) nn ni]
  have f: "findIndex (relationKey br) (meRelations (Entities m' ! k)) = Some j"
    and s: "meRelations (Entities m' ! k) ! j = meRelations (Entities m2 ! k) ! j"
    by simp_all
  have "relationResolved br br2 (meRelations (Entities m' ! k))"
    using f s st(4) gc by (simp add: relationResolved_def find_findIndex)
  with Cons.IH [OF st(1) l d di] out show ?case by simp
qed


lemma mergeModelEntity_others:
  assumes k: "k < length (Entities m)" and r: "mergeModelEntity be k m = (err, be', m')"
  shows "length (Entities m') = length (Entities m)"
    and "\<And>i. i \<noteq> k \<Longrightarrow> Entities m' ! i = Entities m ! i"
    and "meId (Entities m' ! k) = meId (Entities m ! k)"
    and "meName (Entities m' ! k) = beName be"
  using mergeModelEntity_from_named(1) [OF k r] k
  by (simp_all add: othersSame_def nth_Entities_updEntity)

lemma mergeModelEntity_merged:
  assumes k: "k < length (Entities m)" and r: "mergeModelEntity be k m = (None, be', m')"
    and dp: "distinct (map bpName (beProperties be))"
    and dr: "distinct (map brName (beRelations be))"
    and ip: "distinct (map bpId (beProperties be'))"
    and ir: "distinct (map brId (beRelations be'))"
  shows "entityContent be be' (Entities m' ! k)"
    and "beId be' = idPart (meId (Entities m ! k))"
proof -
  define m1 where "m1 = updEntity k (\<lambda>e. e\<lparr>meName := beName be\<rparr>) m"
  have k1: "k < length (Entities m1)" using k by (simp add: m1_def)
  from r obtain bps m2 brs m4 where
    p: "mergeProperties (beProperties be) k m1 = (None, bps, m2)"
    and q: "mergeRelations (beRelations be) k (withoutMissingProperties be k m2) = (None, brs, m4)"
    and m': "m' = withoutMissingRelations be k m4"
    and be': "be' = be\<lparr>beId := idPart (meId (Entities m1 ! k)),
                        beUid := uidPart (meId (Entities m1 ! k)),
                        beProperties := bps,
                        beLastPropertyId := meLastPropertyId (Entities (withoutMissingProperties be k m2) ! k),
                        beRelations := brs\<rparr>"
    unfolding mergeModelEntity_steps [OF k] Let_def m1_def [symmetric]
    by (auto split: prod.splits option.splits)
  from be' k show "beId be' = idPart (meId (Entities m ! k))"
    by (simp add: m1_def nth_Entities_updEntity)
  from be' have bp': "beProperties be' = bps" and br': "beRelations be' = brs" by simp_all
  note P = mergeProperties_merged [OF k1 p dp ip [unfolded bp']]
  have k2: "k < length (Entities m2)"
    using mergeProperties_frame [OF k1 p] k1 by (auto dest: propsStep_length)
  define m3 where "m3 = withoutMissingProperties be k m2"
  have k3: "k < length (Entities m3)"
    using withoutMissingProperties_frame(1) [OF k2, of be] k2 by (auto simp: m3_def dest: propsStep_length)
  have p3: "meProperties (Entities m3 ! k)
      = filter (\<lambda>p. bindingPropertyExists p be) (meProperties (Entities m2 ! k))"
    unfolding m3_def by (rule withoutMissingProperties_frame(3) [OF k2])
  note R = mergeRelations_merged [OF k3 q [folded m3_def] dr ir [unfolded br']]
  have s4: "relsStep k m3 m4" by (rule mergeRelations_frame [OF k3 q [folded m3_def]])
  have k4: "k < length (Entities m4)" using s4 k3 by (auto dest: relsStep_length)
  have p4: "meProperties (Entities m4 ! k) = meProperties (Entities m3 ! k)"
    using s4 by (rule relsStep_props)
  have s5: "relsStep k m4 m'" unfolding m' by (rule withoutMissingRelations_frame(1) [OF k4])
  have p': "meProperties (Entities m' ! k)
      = filter (\<lambda>p. bindingPropertyExists p be) (meProperties (Entities m2 ! k))"
    using relsStep_props [OF s5] p4 p3 by simp
  have r': "meRelations (Entities m' ! k)
      = filter (\<lambda>x. bindingRelationExists x be) (meRelations (Entities m4 ! k))"
    unfolding m' by (rule withoutMissingRelations_frame(2) [OF k4])
  have nm: "meName (Entities m' ! k) = beName be"
    by (rule mergeModelEntity_others(4) [OF k r])
  have c1: "list_all (\<lambda>bp. propertyInPlace bp (meProperties (Entities m' ! k))) (beProperties be)"
    unfolding list_all_iff
  proof
    fix bp assume bp: "bp \<in> set (beProperties be)"
    with P obtain x where u: "bpUid bp \<noteq> 0 \<or> \<not> bpUidRequest bp"
      and f: "find (propertyKey bp) (meProperties (Entities m2 ! k)) = Some x"
      and mg: "propertyMerged bp x"
      by (auto simp: list_all_iff propertyInPlace_def split: option.splits)
    from mg bp have "bindingPropertyExists x be"
      by (auto simp: bindingPropertyExists_iff propertyMerged_def)
    from find_filter_keep [OF f, of "\<lambda>p. bindingPropertyExists p be", OF this] u mg
    show "propertyInPlace bp (meProperties (Entities m' ! k))"
      by (simp add: propertyInPlace_def p')
  qed
  have c2: "list_all (\<lambda>p. bindingPropertyExists p be) (meProperties (Entities m' ! k))"
    unfolding p' by (simp add: list_all_iff)
  have c3: "list_all2 (\<lambda>br br'. relationResolved br br' (meRelations (Entities m' ! k)))
      (beRelations be) brs"
    unfolding list_all2_conv_all_nth
  proof (intro conjI allI impI)
    from R show "length (beRelations be) = length brs" by (rule list_all2_lengthD)
    fix i assume i: "i < length (beRelations be)"
    let ?br = "beRelations be ! i"
    from R i have rr: "relationResolved ?br (brs ! i) (meRelations (Entities m4 ! k))"
      by (simp add: list_all2_conv_all_nth)
    then obtain x where f: "find (relationKey ?br) (meRelations (Entities m4 ! k)) = Some x"
      and xn: "mrName x = brName ?br"
      by (auto simp: relationResolved_def split: option.splits)
    from xn i have "bindingRelationExists x be"
      by (auto simp: bindingRelationExists_iff)
    from find_filter_keep [OF f, of "\<lambda>x. bindingRelationExists x be", OF this] rr f
    show "relationResolved ?br (brs ! i) (meRelations (Entities m' ! k))"
      by (simp add: relationResolved_def r')
  qed
  have c4: "list_all (\<lambda>x. bindingRelationExists x be) (meRelations (Entities m' ! k))"
    unfolding r' by (simp add: list_all_iff)
  from nm c1 c2 c3 c4 show "entityContent be be' (Entities m' ! k)"
    by (simp add: entityContent_def br')
qed

lemma getModelEntity_resolved:
  assumes "getModelEntity be m = (Inr k, m')"
  shows "findIndex (entityKey be) (Entities m') = Some k"
    and "beUid be \<noteq> 0 \<or> \<not> beUidRequest be"
proof -
  from assms show "beUid be \<noteq> 0 \<or> \<not> beUidRequest be"
    by (auto simp: getModelEntity_def Let_def split: if_splits sum.splits)
  show "findIndex (entityKey be) (Entities m') = Some k"
  proof (cases "beUid be = 0")
    case True
    then have "entityKey be = (\<lambda>e. meName e = beName be)"
      by (auto simp: entityKey_def fun_eq_iff)
    with getModelEntity_plain(2) [OF True assms] show ?thesis by simp
  next
    case False
    then have "entityKey be = (\<lambda>e. uidPart (meId e) = beUid be)"
      by (auto simp: entityKey_def fun_eq_iff)
    with False assms show ?thesis
      by (auto simp: getModelEntity_def FindEntityByUid_def split: option.splits)
  qed
qed

lemma getModelEntities_resolved:
  assumes "getModelEntities bes m = (Inr ks, m')"
  shows "list_all2 (\<lambda>be k. findIndex (entityKey be) (Entities m') = Some k
                          \<and> (beUid be \<noteq> 0 \<or> \<not> beUidRequest be)) bes ks"
  using assms
proof (induction bes arbitrary: m ks)
  case Nil
  then show ?case by simp
next
  case (Cons be bes)
  from Cons.prems obtain k m1 ks1 where
    g: "getModelEntity be m = (Inr k, m1)" and l: "getModelEntities bes m1 = (Inr ks1, m')"
    and ks: "ks = k # ks1"
    by (auto split: prod.splits sum.splits)
  note g1 = getModelEntity_resolved [OF g]
  from getModelEntities_Entities [OF l] obtain new where "Entities m' = Entities m1 @ new" ..
  with g1(1) have "findIndex (entityKey be) (Entities m') = Some k"
    by (simp add: findIndex_append)
  with Cons.IH [OF l] g1(2) ks show ?case by simp
qed

lemma entity_step_keeps:
  assumes k: "k < length (Entities m)" and r: "mergeModelEntity be k m = (err, be', m')"
    and f0: "findIndex (entityKey be0) (Entities m) = Some k0"
    and nn: "beName be0 \<noteq> beName be" and ne: "k \<noteq> k0"
  shows "findIndex (entityKey be0) (Entities m') = Some k0"
    and "Entities m' ! k0 = Entities m ! k0"
proof -
  note o = mergeModelEntity_others [OF k r]
  note s0 = findIndex_Some [OF f0]
  from o(2) [of k0] ne show same: "Entities m' ! k0 = Entities m ! k0" by simp
  show "findIndex (entityKey be0) (Entities m') = Some k0"
  proof (rule findIndex_SomeI)
    show "k0 < length (Entities m')" using s0 o(1) by simp
    show "entityKey be0 (Entities m' ! k0)" using s0 same by simp
    fix i assume i: "i < k0"
    show "\<not> entityKey be0 (Entities m' ! i)"
    proof (cases "i = k")
      case True
      from s0 i True have "\<not> entityKey be0 (Entities m ! k)" by simp
      with o(3,4) nn True show ?thesis by (auto simp: entityKey_def split: if_splits)
    next
      case False
      with o(2) [of i] s0 i show ?thesis by simp
    qed
  qed
qed

lemma mergeModelEntities_ids:
  assumes "list_all2 (\<lambda>be k. k < length (Entities m)) bes ks"
    and "mergeModelEntities bes ks m = (None, bes', m')"
  shows "map beId bes' = map (\<lambda>k. idPart (meId (Entities m ! k))) ks"
    and "length (Entities m') = length (Entities m)"
    and "map meId (Entities m') = map meId (Entities m)"
  using assms
proof (induction bes arbitrary: ks m bes' m')
  case Nil
  {
    case 1 then show ?case by simp
  next
    case 2 then show ?case by simp
  next
    case 3 then show ?case by simp
  }
next
  case (Cons be bes)
  {
    case 1
    from 1(1) obtain k ks0 where ks: "ks = k # ks0" and k: "k < length (Entities m)"
      and rest: "list_all2 (\<lambda>be k. k < length (Entities m)) bes ks0"
      by (auto simp: list_all2_Cons1)
    from 1(2) ks obtain be1 m1 bes1 where
      r: "mergeModelEntity be k m = (None, be1, m1)"
      and l: "mergeModelEntities bes ks0 m1 = (None, bes1, m')"
      and out: "bes' = be1 # bes1"
      by (auto split: prod.splits option.splits)
    note o = mergeModelEntity_others [OF k r]
    have ids: "\<And>i. meId (Entities m1 ! i) = meId (Entities m ! i)"
      using o(2,3) by metis
    have rest1: "list_all2 (\<lambda>be k. k < length (Entities m1)) bes ks0"
      using rest by (simp add: o(1))
    have "beId be1 = idPart (meId (Entities m ! k))"
      using r k unfolding mergeModelEntity_steps [OF k] Let_def
      by (auto split: prod.splits option.splits simp: nth_Entities_updEntity)
    with Cons.IH(1) [OF rest1 l] ids out ks show ?case by simp
  next
    case 2
    from 2(1) obtain k ks0 where ks: "ks = k # ks0" and k: "k < length (Entities m)"
      and rest: "list_all2 (\<lambda>be k. k < length (Entities m)) bes ks0"
      by (auto simp: list_all2_Cons1)
    from 2(2) ks obtain be1 m1 bes1 where
      r: "mergeModelEntity be k m = (None, be1, m1)"
      and l: "mergeModelEntities bes ks0 m1 = (None, bes1, m')"
      by (auto split: prod.splits option.splits)
    note o = mergeModelEntity_others [OF k r]
    have rest1: "list_all2 (\<lambda>be k. k < length (Entities m1)) bes ks0"
      using rest by (simp add: o(1))
    from Cons.IH(2) [OF rest1 l] o(1) show ?case by simp
  next
    case 3
    from 3(1) obtain k ks0 where ks: "ks = k # ks0" and k: "k < length (Entities m)"
      and rest: "list_all2 (\<lambda>be k. k < length (Entities m)) bes ks0"
      by (auto simp: list_all2_Cons1)
    from 3(2) ks obtain be1 m1 bes1 where
      r: "mergeModelEntity be k m = (None, be1, m1)"
      and l: "mergeModelEntities bes ks0 m1 = (None, bes1, m')"
      by (auto split: prod.splits option.splits)
    note o = mergeModelEntity_others [OF k r]
    have ids: "\<And>i. meId (Entities m1 ! i) = meId (Entities m ! i)"
      using o(2,3) by metis
    have rest1: "list_all2 (\<lambda>be k. k < length (Entities m1)) bes ks0"
      using rest by (simp add: o(1))
    have "map meId (Entities m1) = map meId (Entities m)"
      by (rule nth_equalityI) (simp_all add: o(1) ids)
    with Cons.IH(3) [OF rest1 l] show ?case by simp
  }
qed


lemma mergeModelEntities_keeps:
  assumes "list_all2 (\<lambda>be k. k < length (Entities m)) bes ks"
    and "mergeModelEntities bes ks m = (None, bes', m')"
    and "findIndex (entityKey be0) (Entities m) = Some k0"
    and "beName be0 \<notin> set (map beName bes)" and "k0 \<notin> set ks"
  shows "findIndex (entityKey be0) (Entities m') = Some k0
       \<and> Entities m' ! k0 = Entities m ! k0"
  using assms
proof (induction bes arbitrary: ks m bes' m')
  case Nil
  then show ?case by simp
next
  case (Cons be bes)
  from Cons.prems(1) obtain k ks0 where ks: "ks = k # ks0" and k: "k < length (Entities m)"
    and rest: "list_all2 (\<lambda>be k. k < length (Entities m)) bes ks0"
    by (auto simp: list_all2_Cons1)
  from Cons.prems(2) ks obtain be1 m1 bes1 where
    r: "mergeModelEntity be k m = (None, be1, m1)"
    and l: "mergeModelEntities bes ks0 m1 = (None, bes1, m')"
    by (auto split: prod.splits option.splits)
  note o = mergeModelEntity_others [OF k r]
  have rest1: "list_all2 (\<lambda>be k. k < length (Entities m1)) bes ks0"
    using rest by (simp add: o(1))
  from Cons.prems(4) have nn: "beName be0 \<noteq> beName be" and nns: "beName be0 \<notin> set (map beName bes)"
    by auto
  from Cons.prems(5) ks have ne: "k \<noteq> k0" and nes: "k0 \<notin> set ks0" by auto
  note st = entity_step_keeps [OF k r Cons.prems(3) nn ne]
  from Cons.IH [OF rest1 l st(1) nns nes] st(2) show ?case by simp
qed

lemma mergeModelEntities_merged:
  assumes "list_all2 (\<lambda>be k. findIndex (entityKey be) (Entities m) = Some k) bes ks"
    and "distinct (map beName bes)" and "distinct ks"
    and "mergeModelEntities bes ks m = (None, bes', m')"
    and "list_all (\<lambda>be. distinct (map bpName (beProperties be))
                        \<and> distinct (map brName (beRelations be))) bes"
    and "list_all (\<lambda>be. distinct (map bpId (beProperties be))
                        \<and> distinct (map brId (beRelations be))) bes'"
  shows "list_all2 (\<lambda>be be'. entityResolved be be' (Entities m')) bes bes'"
  using assms
proof (induction bes arbitrary: ks m bes' m')
  case Nil
  then show ?case by simp
next
  case (Cons be bes)
  from Cons.prems(1) obtain k ks0 where ks: "ks = k # ks0"
    and f: "findIndex (entityKey be) (Entities m) = Some k"
    and rest: "list_all2 (\<lambda>be k. findIndex (entityKey be) (Entities m) = Some k) bes ks0"
    by (auto simp: list_all2_Cons1)
  from findIndex_Some [OF f] have k: "k < length (Entities m)" and kk: "entityKey be (Entities m ! k)"
    and kb: "\<And>i. i < k \<Longrightarrow> \<not> entityKey be (Entities m ! i)" by simp_all
  from Cons.prems(4) ks obtain be1 m1 bes1 where
    r: "mergeModelEntity be k m = (None, be1, m1)"
    and l: "mergeModelEntities bes ks0 m1 = (None, bes1, m')"
    and out: "bes' = be1 # bes1"
    by (auto split: prod.splits option.splits)
  note o = mergeModelEntity_others [OF k r]
  from Cons.prems(2) have dn: "distinct (map beName bes)" and nn: "beName be \<notin> set (map beName bes)"
    by simp_all
  from Cons.prems(3) ks have dk: "distinct ks0" and nk: "k \<notin> set ks0" by simp_all
  from Cons.prems(5) have inn: "distinct (map bpName (beProperties be))"
      "distinct (map brName (beRelations be))"
    and inns: "list_all (\<lambda>be. distinct (map bpName (beProperties be))
                        \<and> distinct (map brName (beRelations be))) bes" by simp_all
  from Cons.prems(6) out have ini: "distinct (map bpId (beProperties be1))"
      "distinct (map brId (beRelations be1))"
    and inis: "list_all (\<lambda>be. distinct (map bpId (beProperties be))
                        \<and> distinct (map brId (beRelations be))) bes1" by simp_all
  note mg = mergeModelEntity_merged [OF k r inn ini]
  have f1: "findIndex (entityKey be) (Entities m1) = Some k"
  proof (rule findIndex_SomeI)
    show "k < length (Entities m1)" using k o(1) by simp
    from kk o(3,4) show "entityKey be (Entities m1 ! k)"
      by (auto simp: entityKey_def split: if_splits)
    fix i assume "i < k"
    with kb [of i] o(2) [of i] show "\<not> entityKey be (Entities m1 ! i)" by simp
  qed
  have rest1: "list_all2 (\<lambda>be k. findIndex (entityKey be) (Entities m1) = Some k) bes ks0"
    unfolding list_all2_conv_all_nth
  proof (intro conjI allI impI)
    from rest show "length bes = length ks0" by (rule list_all2_lengthD)
    fix i assume i: "i < length bes"
    with rest have fi: "findIndex (entityKey (bes ! i)) (Entities m) = Some (ks0 ! i)"
      by (simp add: list_all2_conv_all_nth)
    from i nn have n1: "beName (bes ! i) \<noteq> beName be" by (metis length_map nth_map nth_mem)
    from i rest nk have n2: "k \<noteq> ks0 ! i"
      by (metis list_all2_lengthD nth_mem)
    show "findIndex (entityKey (bes ! i)) (Entities m1) = Some (ks0 ! i)"
      by (rule entity_step_keeps(1) [OF k r fi n1 n2])
  qed
  have v1: "list_all2 (\<lambda>be k. k < length (Entities m1)) bes ks0"
    using rest1 by (rule list_all2_mono) (auto dest: findIndex_Some)
  from mergeModelEntities_keeps [OF v1 l f1 nn nk]
  have f': "findIndex (entityKey be) (Entities m') = Some k"
    and s': "Entities m' ! k = Entities m1 ! k" by simp_all
  have "entityResolved be be1 (Entities m')"
    using f' s' mg(1) by (simp add: entityResolved_def find_findIndex)
  with Cons.IH [OF rest1 dn dk l inns inis] out show ?case by simp
qed

lemma merge_puts_in_place:
  assumes r: "mergeBindingWithModelInfo b m = (None, b', m')"
    and dn: "distinctNames b" and ra: "resolvedApart b'" and tn: "targetsAsNamed b' m'"
  shows "inPlace b m'" and "Package m' = bPackageName b"
proof -
  from r obtain ks m1 bes m2 where
    g: "getModelEntities (bEntities b) m = (Inr ks, m1)"
    and l: "mergeModelEntities (bEntities b) ks m1 = (None, bes, m2)"
    and m': "m' = m2\<lparr>Package := bPackageName b\<rparr>"
    and b': "b' = b\<lparr>bEntities := bes\<rparr>"
    by (auto simp: mergeBindingWithModelInfo_def split: prod.splits sum.splits option.splits)
  from m' show "Package m' = bPackageName b" by simp
  note p1 = getModelEntities_resolved [OF g]
  have res: "list_all2 (\<lambda>be k. findIndex (entityKey be) (Entities m1) = Some k) (bEntities b) ks"
    using p1 by (rule list_all2_mono) simp
  have v: "list_all2 (\<lambda>be k. k < length (Entities m1)) (bEntities b) ks"
    using p1 by (rule list_all2_mono) (auto dest: findIndex_Some)
  from ra b' have di: "distinct (map beId bes)"
    and ini: "list_all (\<lambda>be. distinct (map bpId (beProperties be))
                        \<and> distinct (map brId (beRelations be))) bes"
    by (simp_all add: resolvedApart_def)
  from dn have dnn: "distinct (map beName (bEntities b))"
    and inn: "list_all (\<lambda>be. distinct (map bpName (beProperties be))
                        \<and> distinct (map brName (beRelations be))) (bEntities b)"
    by (simp_all add: distinctNames_def)
  from mergeModelEntities_ids(1) [OF v l] di
  have "distinct (map (\<lambda>k. idPart (meId (Entities m1 ! k))) ks)" by simp
  then have dk: "distinct ks" by (simp add: distinct_map)
  note p2 = mergeModelEntities_merged [OF res dnn dk l inn ini]
  have t: "\<And>n. targetId m' n = targetId m2 n"
    by (simp add: targetId_def m' cong: option.case_cong)
  from tn b' have tn': "\<forall>be'\<in>set bes. \<forall>br'\<in>set (beRelations be').
      targetId m2 (btName (brTarget br'))
        = Some (CreateIdUid (btId (brTarget br')) (btUid (brTarget br')))"
    by (simp add: targetsAsNamed_def list_all_iff t)
  have "\<forall>be\<in>set (bEntities b). entityInPlace be m'"
  proof
    fix be assume "be \<in> set (bEntities b)"
    then obtain i where i: "i < length (bEntities b)" and be: "be = bEntities b ! i"
      by (auto simp: in_set_conv_nth)
    from p1 i be have nr: "beUid be \<noteq> 0 \<or> \<not> beUidRequest be"
      by (simp add: list_all2_conv_all_nth)
    from p2 i be have len: "i < length bes" and er: "entityResolved be (bes ! i) (Entities m2)"
      by (simp_all add: list_all2_conv_all_nth)
    then obtain e where f: "find (entityKey be) (Entities m2) = Some e"
      and c: "entityContent be (bes ! i) e"
      by (auto simp: entityResolved_def split: option.splits)
    from len have mem: "bes ! i \<in> set bes" by simp
    from c have rl: "list_all2 (\<lambda>br br'. relationResolved br br' (meRelations e))
        (beRelations be) (beRelations (bes ! i))" by (simp add: entityContent_def)
    have "list_all (\<lambda>br. relationInPlace br (meRelations e) m') (beRelations be)"
      unfolding list_all_iff
    proof
      fix br assume "br \<in> set (beRelations be)"
      then obtain n where n: "n < length (beRelations be)" and br: "br = beRelations be ! n"
        by (auto simp: in_set_conv_nth)
      from rl n br have n': "n < length (beRelations (bes ! i))"
        and rr: "relationResolved br (beRelations (bes ! i) ! n) (meRelations e)"
        by (simp_all add: list_all2_conv_all_nth)
      from n' mem tn' have "targetId m2 (btName (brTarget (beRelations (bes ! i) ! n)))
          = Some (CreateIdUid (btId (brTarget (beRelations (bes ! i) ! n)))
                    (btUid (brTarget (beRelations (bes ! i) ! n))))"
        by simp
      with rr show "relationInPlace br (meRelations e) m'"
        by (auto simp: relationResolved_def relationInPlace_def t split: option.splits)
    qed
    with c have "meName e = beName be \<and> contentInPlace be e m'"
      by (simp add: entityContent_def contentInPlace_def)
    with f nr show "entityInPlace be m'"
      by (simp add: entityInPlace_def m')
  qed
  then show "inPlace b m'" by (simp add: inPlace_def list_all_iff)
qed


lemma property_in_place_noop:
  assumes k: "k < length (Entities m)"
    and st: "propertyInPlace bp (meProperties (Entities m ! k))"
  shows "\<exists>j bp'. getModelProperty bp k m = (Inr j, m)
           \<and> mergeModelProperty bp k j m = (None, bp', m)"
proof -
  from st obtain p where nr: "bpUid bp \<noteq> 0 \<or> \<not> bpUidRequest bp"
    and f: "find (propertyKey bp) (meProperties (Entities m ! k)) = Some p"
    and a: "propertyMerged bp p"
    by (auto simp: propertyInPlace_def split: option.splits)
  from findIndex_find_Some [OF f] obtain j where
    fi: "findIndex (propertyKey bp) (meProperties (Entities m ! k)) = Some j"
    and j: "j < length (meProperties (Entities m ! k))"
    and pj: "meProperties (Entities m ! k) ! j = p" by blast
  have tp: "theProperty m k j = p" using pj by (simp add: theProperty_def)
  from findIndex_Some [OF fi] pj have key: "propertyKey bp p" by simp
  have g: "getModelProperty bp k m = (Inr j, m)"
  proof (cases "bpUid bp = 0")
    case True
    then have "propertyKey bp = (\<lambda>p. mpName p = bpName bp)"
      by (auto simp: propertyKey_def fun_eq_iff)
    with fi True nr show ?thesis
      by (simp add: getModelProperty_def FindPropertyByName_def)
  next
    case False
    then have "propertyKey bp = (\<lambda>p. uidPart (mpId p) = bpUid bp)"
      by (auto simp: propertyKey_def fun_eq_iff)
    with fi False show ?thesis
      by (simp add: getModelProperty_def FindPropertyByUid_def)
  qed
  have u: "bpUid bp = 0 \<or> uidPart (mpId (theProperty m k j)) = bpUid bp"
    using key tp by (auto simp: propertyKey_def split: if_splits)
  from mergeModelProperty_settled [OF k j u] a tp
  obtain bp' where "mergeModelProperty bp k j m
      = (None, bp', updProperty k j (\<lambda>p. p\<lparr>mpName := bpName bp\<rparr>) m)"
    by (auto simp: propertyMerged_def)
  moreover have "updProperty k j (\<lambda>p. p\<lparr>mpName := bpName bp\<rparr>) m = m"
    using a tp by (intro updProperty_id) (simp add: propertyMerged_def)
  ultimately show ?thesis using g by auto
qed

lemma mergeProperties_in_place:
  assumes "k < length (Entities m)"
    and "list_all (\<lambda>bp. propertyInPlace bp (meProperties (Entities m ! k))) bps"
  shows "\<exists>bps'. mergeProperties bps k m = (None, bps', m)"
  using assms(2)
proof (induction bps)
  case Nil
  then show ?case by simp
next
  case (Cons bp bps)
  then have "propertyInPlace bp (meProperties (Entities m ! k))" by simp
  from property_in_place_noop [OF assms(1) this] obtain j bp' where
    "getModelProperty bp k m = (Inr j, m)" "mergeModelProperty bp k j m = (None, bp', m)" by blast
  moreover from Cons obtain bps' where "mergeProperties bps k m = (None, bps', m)" by auto
  ultimately show ?case by simp
qed

lemma relation_in_place_noop:
  assumes k: "k < length (Entities m)"
    and st: "relationInPlace br (meRelations (Entities m ! k)) m"
  shows "\<exists>j br'. getModelRelation br k m = (Inr j, m)
           \<and> mergeModelRelation br k j m = (None, br', m)"
proof -
  from st obtain x where nr: "brUid br \<noteq> 0 \<or> \<not> brUidRequest br"
    and f: "find (relationKey br) (meRelations (Entities m ! k)) = Some x"
    and xn: "mrName x = brName br"
    and t: "targetId m (btName (brTarget br)) = Some (mrTargetEntityId x)"
    by (auto simp: relationInPlace_def split: option.splits)
  from findIndex_find_Some [OF f] obtain j where
    fi: "findIndex (relationKey br) (meRelations (Entities m ! k)) = Some j"
    and j: "j < length (meRelations (Entities m ! k))"
    and xj: "meRelations (Entities m ! k) ! j = x" by blast
  have n: "mrName (theRelation m k j) = brName br"
    using xn xj by (simp add: theRelation_def)
  have g: "getModelRelation br k m = (Inr j, m)"
  proof (cases "brUid br = 0")
    case True
    then have "relationKey br = (\<lambda>r. mrName r = brName br)"
      by (auto simp: relationKey_def fun_eq_iff)
    with fi True nr show ?thesis
      by (simp add: getModelRelation_def FindRelationByName_def)
  next
    case False
    then have "relationKey br = (\<lambda>r. uidPart (mrId r) = brUid br)"
      by (auto simp: relationKey_def fun_eq_iff)
    with fi False show ?thesis
      by (simp add: getModelRelation_def FindRelationByUid_def)
  qed
  have m1: "updRelation k j (\<lambda>r. r\<lparr>mrName := brName br\<rparr>) m = m"
    by (rule updRelation_id) (simp add: n [symmetric])
  from t obtain t' where ft: "findIndex (\<lambda>e. meName e = btName (brTarget br)) (Entities m) = Some t'"
    and it: "meId (Entities m ! t') = mrTargetEntityId x"
    by (auto simp: targetId_def split: option.splits)
  have m2: "updRelation k j (SetTarget (Entities m ! t')) m = m"
    by (rule updRelation_id) (simp add: SetTarget_def theRelation_def xj it)
  have "\<exists>br'. mergeModelRelation br k j m = (None, br', m)"
    unfolding mergeModelRelation_def Let_def m1
    using ft by (simp add: FindEntityByName_def m2)
  with g show ?thesis by blast
qed

lemma mergeRelations_in_place:
  assumes "k < length (Entities m)"
    and "list_all (\<lambda>br. relationInPlace br (meRelations (Entities m ! k)) m) brs"
  shows "\<exists>brs'. mergeRelations brs k m = (None, brs', m)"
  using assms(2)
proof (induction brs)
  case Nil
  then show ?case by simp
next
  case (Cons br brs)
  then have "relationInPlace br (meRelations (Entities m ! k)) m" by simp
  from relation_in_place_noop [OF assms(1) this] obtain j br' where
    "getModelRelation br k m = (Inr j, m)" "mergeModelRelation br k j m = (None, br', m)" by blast
  moreover from Cons obtain brs' where "mergeRelations brs k m = (None, brs', m)" by auto
  ultimately show ?case by simp
qed

lemma mergeModelEntity_in_place:
  assumes k: "k < length (Entities m)" and nm: "meName (Entities m ! k) = beName be"
    and c: "contentInPlace be (Entities m ! k) m"
  shows "\<exists>be'. mergeModelEntity be k m = (None, be', m)"
proof -
  have m1: "updEntity k (\<lambda>e. e\<lparr>meName := beName be\<rparr>) m = m"
    by (rule updEntity_id) (simp add: nm [symmetric])
  from c have c1: "list_all (\<lambda>bp. propertyInPlace bp (meProperties (Entities m ! k))) (beProperties be)"
    and c2: "list_all (\<lambda>p. bindingPropertyExists p be) (meProperties (Entities m ! k))"
    and c3: "list_all (\<lambda>br. relationInPlace br (meRelations (Entities m ! k)) m) (beRelations be)"
    and c4: "list_all (\<lambda>x. bindingRelationExists x be) (meRelations (Entities m ! k))"
    by (simp_all add: contentInPlace_def)
  from mergeProperties_in_place [OF k c1] obtain bps where
    p: "mergeProperties (beProperties be) k m = (None, bps, m)" ..
  from mergeRelations_in_place [OF k c3] obtain brs where
    q: "mergeRelations (beRelations be) k m = (None, brs, m)" ..
  show ?thesis
    unfolding mergeModelEntity_steps [OF k] Let_def m1
    using p q by (simp add: withoutMissingProperties_settled [OF c2]
        withoutMissingRelations_settled [OF c4])
qed

lemma getModelEntities_in_place:
  "list_all (\<lambda>be. entityInPlace be m) bes \<Longrightarrow>
   \<exists>ks. getModelEntities bes m = (Inr ks, m)
     \<and> list_all2 (\<lambda>be k. k < length (Entities m) \<and> meName (Entities m ! k) = beName be
                       \<and> contentInPlace be (Entities m ! k) m) bes ks"
proof (induction bes)
  case Nil
  then show ?case by simp
next
  case (Cons be bes)
  then obtain e where nr: "beUid be \<noteq> 0 \<or> \<not> beUidRequest be"
    and f: "find (entityKey be) (Entities m) = Some e"
    and n: "meName e = beName be" and c: "contentInPlace be e m"
    by (auto simp: entityInPlace_def split: option.splits)
  from findIndex_find_Some [OF f] obtain k where
    fi: "findIndex (entityKey be) (Entities m) = Some k"
    and k: "k < length (Entities m)" and ek: "Entities m ! k = e" by blast
  have "getModelEntity be m = (Inr k, m)"
  proof (cases "beUid be = 0")
    case True
    then have "entityKey be = (\<lambda>e. meName e = beName be)"
      by (auto simp: entityKey_def fun_eq_iff)
    with fi True nr show ?thesis
      by (simp add: getModelEntity_def FindEntityByName_def)
  next
    case False
    then have "entityKey be = (\<lambda>e. uidPart (meId e) = beUid be)"
      by (auto simp: entityKey_def fun_eq_iff)
    with fi False show ?thesis
      by (simp add: getModelEntity_def FindEntityByUid_def)
  qed
  moreover from Cons obtain ks where "getModelEntities bes m = (Inr ks, m)"
    and "list_all2 (\<lambda>be k. k < length (Entities m) \<and> meName (Entities m ! k) = beName be
                       \<and> contentInPlace be (Entities m ! k) m) bes ks" by auto
  ultimately show ?case using k n c ek by auto
qed

lemma mergeModelEntities_in_place:
  "list_all2 (\<lambda>be k. k < length (Entities m) \<and> meName (Entities m ! k) = beName be
                    \<and> contentInPlace be (Entities m ! k) m) bes ks \<Longrightarrow>
   \<exists>bes'. mergeModelEntities bes ks m = (None, bes', m)"
proof (induction rule: list_all2_induct)
  case Nil
  then show ?case by simp
next
  case (Cons be bes k ks)
  from mergeModelEntity_in_place [of k m be] Cons.hyps(1) obtain be' where
    "mergeModelEntity be k m = (None, be', m)" by auto
  with Cons.IH show ?case by auto
qed

lemma in_place_merge_noop:
  assumes "inPlace b m"
  shows "\<exists>b'. mergeBindingWithModelInfo b m = (None, b', m\<lparr>Package := bPackageName b\<rparr>)"
proof -
  from assms getModelEntities_in_place [of m "bEntities b"] obtain ks where
    g1: "getModelEntities (bEntities b) m = (Inr ks, m)"
    and a: "list_all2 (\<lambda>be k. k < length (Entities m) \<and> meName (Entities m ! k) = beName be
                          \<and> contentInPlace be (Entities m ! k) m) (bEntities b) ks"
    by (auto simp: inPlace_def)
  from mergeModelEntities_in_place [OF a] obtain bes' where
    "mergeModelEntities (bEntities b) ks m = (None, bes', m)" ..
  with g1 show ?thesis by (simp add: mergeBindingWithModelInfo_def)
qed

section \<open>The claims\<close>

subsection \<open>Merging twice\<close>

text \<open>Claim C1, amended. When a merge into a document succeeds, the names of the
  binding are distinct (entity names, and property names and relation names within each
  entity), no two descriptors were resolved to one document element (the local ids
  written back to the entities are pairwise distinct, as are the ones written back to
  the properties and to the relations of each entity), and the target written back to
  every relation is the first entity of the resulting document that bears the target's
  name, then merging the same binding into the resulting document succeeds again and
  leaves that document unchanged, so every identity pair in it is the same. Explicit
  UIDs are allowed on entities, properties and relations: renaming by UID and giving a
  property a new UID are covered.\<close>
theorem merge_twice_resolved_apart:
  assumes "mergeBindingWithModelInfo b m = (None, b', m')"
    and "distinctNames b" and "resolvedApart b'" and "targetsAsNamed b' m'"
  shows "\<exists>b''. mergeBindingWithModelInfo b m' = (None, b'', m')"
proof -
  from merge_puts_in_place [OF assms] have s: "inPlace b m'" and p: "Package m' = bPackageName b"
    by simp_all
  from p have "m'\<lparr>Package := bPackageName b\<rparr> = m'" by simp
  with in_place_merge_noop [OF s] show ?thesis by simp
qed

text \<open>Claim C1 as stated fails. The binding renames \<open>Task\<close> to \<open>Job\<close> by its UID and
  declares a new entity \<open>Task\<close>; both resolve to the one document entity. The first
  merge succeeds, the second merge of the same binding fails.\<close>
theorem second_merge_fails_after_alias:
  "fst (mergeBindingWithModelInfo exAliasBinding exModel) = None
   \<and> fst (mergeBindingWithModelInfo exAliasBinding
            (snd (snd (mergeBindingWithModelInfo exAliasBinding exModel))))
       = Some (ErrPair (PropertyUidNotFound 100) (PropertyNameNotFound ''Id''))"
  by (simp add: ex_defs ex2_defs eval_defs)

text \<open>The amended C1 on the example document, for a binding that renames the entity by
  its UID, gives one property a new UID, renames the other property by its UID, and adds
  an entity with a relation to the renamed entity.\<close>
theorem merge_twice_resolved_apart_witness:
  "distinctNames exMovedBinding
   \<and> fst (mergeBindingWithModelInfo exMovedBinding exModel) = None
   \<and> resolvedApart (mergedBinding exMovedBinding exModel)
   \<and> targetsAsNamed (mergedBinding exMovedBinding exModel) (mergedModel exMovedBinding exModel)
   \<and> (\<exists>b''. mergeBindingWithModelInfo exMovedBinding (mergedModel exMovedBinding exModel)
              = (None, b'', mergedModel exMovedBinding exModel))"
proof -
  have d: "distinctNames exMovedBinding"
    by (simp add: ex_defs ex2_defs ex3_defs)
  have ok: "fst (mergeBindingWithModelInfo exMovedBinding exModel) = None"
    by (simp add: ex_defs ex2_defs ex3_defs eval_defs)
  then have r: "mergeBindingWithModelInfo exMovedBinding exModel
      = (None, mergedBinding exMovedBinding exModel, mergedModel exMovedBinding exModel)"
    by (simp add: mergedBinding_def mergedModel_def prod_eq_iff)
  have ra: "resolvedApart (mergedBinding exMovedBinding exModel)"
    by (simp add: ex_defs ex2_defs ex3_defs eval_defs)
  have tn: "targetsAsNamed (mergedBinding exMovedBinding exModel)
      (mergedModel exMovedBinding exModel)"
    by (simp add: ex_defs ex2_defs ex3_defs eval_defs)
  from merge_twice_resolved_apart [OF r d ra tn] d ok ra tn show ?thesis by simp
qed

text \<open>None of the three conditions can be dropped. In each of the bindings below the
  first merge succeeds and two of the conditions hold; the third one fails, and the
  second merge changes the document or fails. With two entities named alike, the second
  merge finds the renamed entity for both. With a relation whose target is renamed later
  in the same merge, the second merge does not find the target. With two properties
  resolved to one document property, the second merge creates a property.\<close>
lemma second_merge_conditions_needed:
  "fst (mergeBindingWithModelInfo exTwinBinding exModel) = None
   \<and> \<not> distinctNames exTwinBinding
   \<and> resolvedApart (mergedBinding exTwinBinding exModel)
   \<and> targetsAsNamed (mergedBinding exTwinBinding exModel) (mergedModel exTwinBinding exModel)
   \<and> mergedModel exTwinBinding (mergedModel exTwinBinding exModel)
       \<noteq> mergedModel exTwinBinding exModel"
  "fst (mergeBindingWithModelInfo exLateTargetBinding exModel) = None
   \<and> distinctNames exLateTargetBinding
   \<and> resolvedApart (mergedBinding exLateTargetBinding exModel)
   \<and> \<not> targetsAsNamed (mergedBinding exLateTargetBinding exModel)
          (mergedModel exLateTargetBinding exModel)
   \<and> fst (mergeBindingWithModelInfo exLateTargetBinding (mergedModel exLateTargetBinding exModel))
       = Some (EntityNameNotFound ''Task'')"
  "fst (mergeBindingWithModelInfo exSharedPropertyBinding exModel) = None
   \<and> distinctNames exSharedPropertyBinding
   \<and> \<not> resolvedApart (mergedBinding exSharedPropertyBinding exModel)
   \<and> targetsAsNamed (mergedBinding exSharedPropertyBinding exModel)
        (mergedModel exSharedPropertyBinding exModel)
   \<and> mergedModel exSharedPropertyBinding (mergedModel exSharedPropertyBinding exModel)
       \<noteq> mergedModel exSharedPropertyBinding exModel"
  by (simp_all add: ex_defs ex2_defs ex3_defs eval_defs)

subsection \<open>Entity resolution\<close>

text \<open>Claim C2. Entity resolution follows the precedence of \<open>getModelEntity\<close>: a
  non-zero explicit UID is looked up among the document's entities, giving the entity that
  has it or the unknown-UID error; without one the entity is looked up by name; when no
  entity has the name and no UID is requested, a new entity is appended whose local id is
  one past \<open>lastEntityId.id\<close> and whose UID is freshly generated (not zero, not known to
  the document). The creation goes through when the counter is not at its maximum and
  the UID pool yields a value, the two failures the specification gives for it.\<close>
theorem getModelEntity_precedence:
  "(beUid be \<noteq> 0 \<and> (\<exists>e\<in>set (Entities m). uidPart (meId e) = beUid be) \<longrightarrow>
      (\<exists>k. getModelEntity be m = (Inr k, m) \<and> k < length (Entities m)
           \<and> uidPart (meId (Entities m ! k)) = beUid be))
   \<and> (beUid be \<noteq> 0 \<and> (\<forall>e\<in>set (Entities m). uidPart (meId e) \<noteq> beUid be) \<longrightarrow>
      getModelEntity be m = (Inl (EntityUidNotFound (beUid be)), m))
   \<and> (beUid be = 0 \<and> \<not> beUidRequest be \<and> (\<exists>e\<in>set (Entities m). meName e = beName be) \<longrightarrow>
      (\<exists>k. getModelEntity be m = (Inr k, m) \<and> k < length (Entities m)
           \<and> meName (Entities m ! k) = beName be))
   \<and> (beUid be = 0 \<and> \<not> beUidRequest be \<and> (\<forall>e\<in>set (Entities m). meName e \<noteq> beName be)
        \<and> idPart (LastEntityId m) \<noteq> - 1 \<and> drawUid (knownUids m) (Rand m) = Some (u, rest) \<longrightarrow>
      u \<noteq> 0 \<and> u \<notin> set (knownUids m)
      \<and> getModelEntity be m =
          (Inr (length (Entities m)),
           m\<lparr>Rand := rest, HandedOutUids := HandedOutUids m @ [u],
             Entities := Entities m @
               [\<lparr>meId = CreateIdUid (idPart (LastEntityId m) + 1) u, meName = beName be,
                 meLastPropertyId = CreateIdUid 0 0, meProperties = [], meRelations = []\<rparr>],
             LastEntityId := CreateIdUid (idPart (LastEntityId m) + 1) u\<rparr>))"
proof (intro conjI impI)
  assume a: "beUid be \<noteq> 0 \<and> (\<exists>e\<in>set (Entities m). uidPart (meId e) = beUid be)"
  then obtain k where k: "findIndex (\<lambda>e. uidPart (meId e) = beUid be) (Entities m) = Some k"
    using findIndex_exists [of "Entities m" "\<lambda>e. uidPart (meId e) = beUid be"] by blast
  from findIndex_Some [OF k] a k
  show "\<exists>k. getModelEntity be m = (Inr k, m) \<and> k < length (Entities m)
           \<and> uidPart (meId (Entities m ! k)) = beUid be"
    by (simp add: getModelEntity_def FindEntityByUid_def)
next
  assume a: "beUid be \<noteq> 0 \<and> (\<forall>e\<in>set (Entities m). uidPart (meId e) \<noteq> beUid be)"
  then have "findIndex (\<lambda>e. uidPart (meId e) = beUid be) (Entities m) = None"
    by (simp add: findIndex_None)
  with a show "getModelEntity be m = (Inl (EntityUidNotFound (beUid be)), m)"
    by (simp add: getModelEntity_def FindEntityByUid_def)
next
  assume a: "beUid be = 0 \<and> \<not> beUidRequest be \<and> (\<exists>e\<in>set (Entities m). meName e = beName be)"
  then obtain k where k: "findIndex (\<lambda>e. meName e = beName be) (Entities m) = Some k"
    using findIndex_exists [of "Entities m" "\<lambda>e. meName e = beName be"] by blast
  from findIndex_Some [OF k] a k
  show "\<exists>k. getModelEntity be m = (Inr k, m) \<and> k < length (Entities m)
           \<and> meName (Entities m ! k) = beName be"
    by (simp add: getModelEntity_def FindEntityByName_def)
next
  assume a: "beUid be = 0 \<and> \<not> beUidRequest be \<and> (\<forall>e\<in>set (Entities m). meName e \<noteq> beName be)
        \<and> idPart (LastEntityId m) \<noteq> - 1 \<and> drawUid (knownUids m) (Rand m) = Some (u, rest)"
  then show "u \<noteq> 0" using drawUid_Some by blast
next
  assume a: "beUid be = 0 \<and> \<not> beUidRequest be \<and> (\<forall>e\<in>set (Entities m). meName e \<noteq> beName be)
        \<and> idPart (LastEntityId m) \<noteq> - 1 \<and> drawUid (knownUids m) (Rand m) = Some (u, rest)"
  then show "u \<notin> set (knownUids m)" using drawUid_Some by blast
next
  assume a: "beUid be = 0 \<and> \<not> beUidRequest be \<and> (\<forall>e\<in>set (Entities m). meName e \<noteq> beName be)
        \<and> idPart (LastEntityId m) \<noteq> - 1 \<and> drawUid (knownUids m) (Rand m) = Some (u, rest)"
  then have "findIndex (\<lambda>e. meName e = beName be) (Entities m) = None"
    by (simp add: findIndex_None)
  with a show "getModelEntity be m =
          (Inr (length (Entities m)),
           m\<lparr>Rand := rest, HandedOutUids := HandedOutUids m @ [u],
             Entities := Entities m @
               [\<lparr>meId = CreateIdUid (idPart (LastEntityId m) + 1) u, meName = beName be,
                 meLastPropertyId = CreateIdUid 0 0, meProperties = [], meRelations = []\<rparr>],
             LastEntityId := CreateIdUid (idPart (LastEntityId m) + 1) u\<rparr>)"
    by (simp add: getModelEntity_def FindEntityByName_def CreateEntity_def GenerateUid_def Let_def)
qed

text \<open>The four cases of C2 on the example document: found by UID under another name, an
  unknown UID, found by name, and created.\<close>
theorem getModelEntity_precedence_witness:
  "(\<exists>k. getModelEntity (exBindingEntity ''Renamed'' 50 False [] []) exModel = (Inr k, exModel)
        \<and> k < length (Entities exModel) \<and> uidPart (meId (Entities exModel ! k)) = 50)
   \<and> getModelEntity (exBindingEntity ''Task'' 51 False [] []) exModel
        = (Inl (EntityUidNotFound 51), exModel)
   \<and> (\<exists>k. getModelEntity (exBindingEntity ''Task'' 0 False [] []) exModel = (Inr k, exModel)
        \<and> k < length (Entities exModel) \<and> meName (Entities exModel ! k) = ''Task'')
   \<and> getModelEntity (exBindingEntity ''Group'' 0 False [] []) exModel =
        (Inr 1,
         exModel\<lparr>Rand := [8, 9], HandedOutUids := [7],
           Entities := Entities exModel @
             [\<lparr>meId = CreateIdUid 2 7, meName = ''Group'',
               meLastPropertyId = CreateIdUid 0 0, meProperties = [], meRelations = []\<rparr>],
           LastEntityId := CreateIdUid 2 7\<rparr>)"
proof -
  have d: "drawUid (knownUids exModel) (Rand exModel) = Some (7, [8, 9])"
    by (simp add: ex_defs knownUids_def entityUids_def propertyUids_def)
  show ?thesis
    using getModelEntity_precedence [of "exBindingEntity ''Renamed'' 50 False [] []" exModel 0 "[]"]
      getModelEntity_precedence [of "exBindingEntity ''Task'' 51 False [] []" exModel 0 "[]"]
      getModelEntity_precedence [of "exBindingEntity ''Task'' 0 False [] []" exModel 0 "[]"]
      getModelEntity_precedence [of "exBindingEntity ''Group'' 0 False [] []" exModel 7 "[8, 9]"] d
    by (simp add: ex_defs)
qed

subsection \<open>Properties with an explicit UID that is not in the document\<close>

text \<open>Claim C3, amended. A binding property with a non-zero explicit UID that no property
  of the entity has is looked up by name next: reconciliation fails, with the UID-not-found
  and name-not-found errors joined and the document unchanged, only when no property of
  the entity has the binding property's name either; when one has, that property is the
  result (the "reset property data" use-case of \<open>getModelProperty\<close>).\<close>
theorem explicit_uid_property_resolution:
  "(bpUid bp \<noteq> 0
      \<and> (\<forall>p\<in>set (meProperties (Entities m ! k)). uidPart (mpId p) \<noteq> bpUid bp)
      \<and> (\<forall>p\<in>set (meProperties (Entities m ! k)). mpName p \<noteq> bpName bp) \<longrightarrow>
      getModelProperty bp k m =
        (Inl (ErrPair (PropertyUidNotFound (bpUid bp)) (PropertyNameNotFound (bpName bp))), m))
   \<and> (bpUid bp \<noteq> 0
      \<and> (\<forall>p\<in>set (meProperties (Entities m ! k)). uidPart (mpId p) \<noteq> bpUid bp)
      \<and> (\<exists>p\<in>set (meProperties (Entities m ! k)). mpName p = bpName bp) \<longrightarrow>
      (\<exists>j<length (meProperties (Entities m ! k)).
         getModelProperty bp k m = (Inr j, m)
         \<and> mpName (meProperties (Entities m ! k) ! j) = bpName bp))"
proof (intro conjI impI)
  assume a: "bpUid bp \<noteq> 0
      \<and> (\<forall>p\<in>set (meProperties (Entities m ! k)). uidPart (mpId p) \<noteq> bpUid bp)
      \<and> (\<forall>p\<in>set (meProperties (Entities m ! k)). mpName p \<noteq> bpName bp)"
  then have "findIndex (\<lambda>p. uidPart (mpId p) = bpUid bp) (meProperties (Entities m ! k)) = None"
    and "findIndex (\<lambda>p. mpName p = bpName bp) (meProperties (Entities m ! k)) = None"
    by (simp_all add: findIndex_None)
  with a show "getModelProperty bp k m =
        (Inl (ErrPair (PropertyUidNotFound (bpUid bp)) (PropertyNameNotFound (bpName bp))), m)"
    by (simp add: getModelProperty_def FindPropertyByUid_def FindPropertyByName_def)
next
  assume a: "bpUid bp \<noteq> 0
      \<and> (\<forall>p\<in>set (meProperties (Entities m ! k)). uidPart (mpId p) \<noteq> bpUid bp)
      \<and> (\<exists>p\<in>set (meProperties (Entities m ! k)). mpName p = bpName bp)"
  then have u: "findIndex (\<lambda>p. uidPart (mpId p) = bpUid bp) (meProperties (Entities m ! k)) = None"
    by (simp add: findIndex_None)
  from a obtain j where j: "findIndex (\<lambda>p. mpName p = bpName bp) (meProperties (Entities m ! k)) = Some j"
    using findIndex_exists [of "meProperties (Entities m ! k)" "\<lambda>p. mpName p = bpName bp"] by blast
  from findIndex_Some [OF j] a u j
  show "\<exists>j<length (meProperties (Entities m ! k)).
         getModelProperty bp k m = (Inr j, m)
         \<and> mpName (meProperties (Entities m ! k) ! j) = bpName bp"
    by (auto simp: getModelProperty_def FindPropertyByUid_def FindPropertyByName_def)
qed

text \<open>Claim C3 as stated fails: UID 999 occurs nowhere in the example document, yet the
  binding property \<open>Name\<close> carrying it resolves to the model property of that name.\<close>
theorem explicit_unknown_uid_matches_by_name:
  "bpUid (exBindingProperty ''Name'' 999 True) = 999 \<and> 999 \<notin> set (knownUids exModel)
   \<and> getModelProperty (exBindingProperty ''Name'' 999 True) 0 exModel = (Inr 1, exModel)"
  by (simp add: ex_defs eval_defs)

text \<open>Both cases of the amended C3 on the example document.\<close>
theorem explicit_uid_property_resolution_witness:
  "getModelProperty (exBindingProperty ''Missing'' 999 False) 0 exModel
     = (Inl (ErrPair (PropertyUidNotFound 999) (PropertyNameNotFound ''Missing'')), exModel)
   \<and> (\<exists>j<length (meProperties (Entities exModel ! 0)).
         getModelProperty (exBindingProperty ''Name'' 999 True) 0 exModel = (Inr j, exModel)
         \<and> mpName (meProperties (Entities exModel ! 0) ! j) = ''Name'')"
  using explicit_uid_property_resolution [of "exBindingProperty ''Missing'' 999 False" exModel 0]
    explicit_uid_property_resolution [of "exBindingProperty ''Name'' 999 True" exModel 0]
  by (simp add: ex_defs)

subsection \<open>UID requests on entities\<close>

text \<open>Claim C4. A binding entity with the UID request set and no explicit UID makes
  \<open>getModelEntity\<close> fail and leaves the document as it was: the error carries the UID of
  the entity of that name when there is one, and says that the entity is not in the model
  otherwise. A binding that holds such an entity makes the whole merge fail in the first
  loop, before any entity is merged: the binding is untouched and the entities the
  document had are unchanged.\<close>
theorem uidRequest_entity_fails:
  "(beUid be = 0 \<and> beUidRequest be \<and> (\<exists>e\<in>set (Entities m). meName e = beName be) \<longrightarrow>
      (\<exists>k<length (Entities m). meName (Entities m ! k) = beName be
         \<and> getModelEntity be m =
             (Inl (EntityUidAnnotationEmpty (ModelUid (uidPart (meId (Entities m ! k))))
                     (beName be)), m)))
   \<and> (beUid be = 0 \<and> beUidRequest be \<and> (\<forall>e\<in>set (Entities m). meName e \<noteq> beName be) \<longrightarrow>
      getModelEntity be m = (Inl (EntityUidAnnotationEmpty NotFoundInModel (beName be)), m))
   \<and> ((\<exists>be\<in>set (bEntities binding). beUid be = 0 \<and> beUidRequest be) \<longrightarrow>
      (\<exists>err m'. mergeBindingWithModelInfo binding m = (Some err, binding, m')
         \<and> take (length (Entities m)) (Entities m') = Entities m))"
proof (intro conjI impI)
  assume a: "beUid be = 0 \<and> beUidRequest be \<and> (\<exists>e\<in>set (Entities m). meName e = beName be)"
  then obtain k where k: "findIndex (\<lambda>e. meName e = beName be) (Entities m) = Some k"
    using findIndex_exists [of "Entities m" "\<lambda>e. meName e = beName be"] by blast
  from findIndex_Some [OF k] a k
  show "\<exists>k<length (Entities m). meName (Entities m ! k) = beName be
         \<and> getModelEntity be m =
             (Inl (EntityUidAnnotationEmpty (ModelUid (uidPart (meId (Entities m ! k))))
                     (beName be)), m)"
    by (auto simp: getModelEntity_def FindEntityByName_def)
next
  assume a: "beUid be = 0 \<and> beUidRequest be \<and> (\<forall>e\<in>set (Entities m). meName e \<noteq> beName be)"
  then have "findIndex (\<lambda>e. meName e = beName be) (Entities m) = None"
    by (simp add: findIndex_None)
  with a show "getModelEntity be m =
      (Inl (EntityUidAnnotationEmpty NotFoundInModel (beName be)), m)"
    by (simp add: getModelEntity_def FindEntityByName_def)
next
  assume "\<exists>be\<in>set (bEntities binding). beUid be = 0 \<and> beUidRequest be"
  from getModelEntities_uidRequest [OF this, of m]
  obtain err m' where g: "getModelEntities (bEntities binding) m = (Inl err, m')" by blast
  from getModelEntities_Entities [OF g] have "take (length (Entities m)) (Entities m') = Entities m"
    by auto
  with g show "\<exists>err m'. mergeBindingWithModelInfo binding m = (Some err, binding, m')
         \<and> take (length (Entities m)) (Entities m') = Entities m"
    by (simp add: mergeBindingWithModelInfo_def)
qed

text \<open>C4 on the example document: a request for the existing \<open>Task\<close>, one for an unknown
  \<open>Group\<close>, and a merge of a binding with the former.\<close>
theorem uidRequest_entity_fails_witness:
  "(\<exists>k<length (Entities exModel). meName (Entities exModel ! k) = ''Task''
      \<and> getModelEntity (exBindingEntity ''Task'' 0 True [] []) exModel =
          (Inl (EntityUidAnnotationEmpty (ModelUid (uidPart (meId (Entities exModel ! k)))) ''Task''),
           exModel))
   \<and> getModelEntity (exBindingEntity ''Group'' 0 True [] []) exModel
        = (Inl (EntityUidAnnotationEmpty NotFoundInModel ''Group''), exModel)
   \<and> (\<exists>err m'. mergeBindingWithModelInfo
          \<lparr>bPackageName = ''model'', bEntities = [exBindingEntity ''Task'' 0 True [] []]\<rparr> exModel
            = (Some err, \<lparr>bPackageName = ''model'',
                          bEntities = [exBindingEntity ''Task'' 0 True [] []]\<rparr>, m')
          \<and> take (length (Entities exModel)) (Entities m') = Entities exModel)"
  using uidRequest_entity_fails [of "exBindingEntity ''Task'' 0 True [] []" exModel
      "\<lparr>bPackageName = ''model'', bEntities = [exBindingEntity ''Task'' 0 True [] []]\<rparr>"]
    uidRequest_entity_fails [of "exBindingEntity ''Group'' 0 True [] []" exModel
      "\<lparr>bPackageName = ''model'', bEntities = []\<rparr>"]
  by (simp add: ex_defs)

subsection \<open>Removed properties and the property counter\<close>

text \<open>Claim C5. A successful \<open>mergeModelEntity\<close> leaves exactly those properties that
  some binding property is named like, taken from the property list as it stands after
  the binding properties were merged; the UIDs of the others are appended to
  \<open>retiredPropertyUids\<close>. Across any merge, whatever its outcome, no entity's
  \<open>lastPropertyId\<close> local id decreases. A property created for a name that no model
  property bears (as after a removal) gets a local id above \<open>lastPropertyId\<close> and a UID
  that is not zero, not known to the document and in particular not retired.\<close>
theorem removed_properties_retired_counter_grows:
  "(k < length (Entities m) \<and> mergeModelEntity be k m = (None, be', m') \<longrightarrow>
      (\<exists>bps m2.
          mergeProperties (beProperties be) k (updEntity k (\<lambda>e. e\<lparr>meName := beName be\<rparr>) m)
            = (None, bps, m2)
          \<and> meProperties (Entities m' ! k)
               = filter (\<lambda>p. bindingPropertyExists p be) (meProperties (Entities m2 ! k))
          \<and> RetiredPropertyUids m'
               = RetiredPropertyUids m2
                   @ map (\<lambda>p. uidPart (mpId p))
                       (filter (\<lambda>p. \<not> bindingPropertyExists p be)
                          (meProperties (Entities m2 ! k)))))
   \<and> (mergeBindingWithModelInfo b m = (err, b', m'') \<longrightarrow>
        length (Entities m) \<le> length (Entities m'')
        \<and> (\<forall>i<length (Entities m).
              idPart (meLastPropertyId (Entities m ! i))
                \<le> idPart (meLastPropertyId (Entities m'' ! i))))
   \<and> (k < length (Entities m) \<and> bpUid bp = 0
        \<and> (\<forall>p\<in>set (meProperties (Entities m ! k)). mpName p \<noteq> bpName bp)
        \<and> getModelProperty bp k m = (Inr j, m1) \<longrightarrow>
        (\<exists>u. u \<noteq> 0 \<and> u \<notin> set (knownUids m) \<and> u \<notin> set (RetiredPropertyUids m)
           \<and> idPart (meLastPropertyId (Entities m ! k))
                < idPart (meLastPropertyId (Entities m ! k)) + 1
           \<and> meProperties (Entities m1 ! k) = meProperties (Entities m ! k) @
               [\<lparr>mpId = CreateIdUid (idPart (meLastPropertyId (Entities m ! k)) + 1) u,
                 mpName = [], mpIndexId = None, mpType = 0, mpFlags = 0, mpRelationTarget = []\<rparr>]
           \<and> meLastPropertyId (Entities m1 ! k)
                = CreateIdUid (idPart (meLastPropertyId (Entities m ! k)) + 1) u))"
proof (intro conjI impI)
  assume "k < length (Entities m) \<and> mergeModelEntity be k m = (None, be', m')"
  then show "\<exists>bps m2.
          mergeProperties (beProperties be) k (updEntity k (\<lambda>e. e\<lparr>meName := beName be\<rparr>) m)
            = (None, bps, m2)
          \<and> meProperties (Entities m' ! k)
               = filter (\<lambda>p. bindingPropertyExists p be) (meProperties (Entities m2 ! k))
          \<and> RetiredPropertyUids m'
               = RetiredPropertyUids m2
                   @ map (\<lambda>p. uidPart (mpId p))
                       (filter (\<lambda>p. \<not> bindingPropertyExists p be)
                          (meProperties (Entities m2 ! k)))"
    using mergeModelEntity_removal [of k m be be' m'] by simp
next
  assume a: "mergeBindingWithModelInfo b m = (err, b', m'')"
  from mergeBindingWithModelInfo_grow [OF a]
  show "length (Entities m) \<le> length (Entities m'')"
    and "\<forall>i<length (Entities m).
              idPart (meLastPropertyId (Entities m ! i))
                \<le> idPart (meLastPropertyId (Entities m'' ! i))"
    by (simp_all add: lastPropertyIdsGrow_def)
next
  assume a: "k < length (Entities m) \<and> bpUid bp = 0
        \<and> (\<forall>p\<in>set (meProperties (Entities m ! k)). mpName p \<noteq> bpName bp)
        \<and> getModelProperty bp k m = (Inr j, m1)"
  then have k: "k < length (Entities m)" and u: "bpUid bp = 0"
    and g: "getModelProperty bp k m = (Inr j, m1)"
    and n: "findIndex (\<lambda>p. mpName p = bpName bp) (meProperties (Entities m ! k)) = None"
    by (simp_all add: findIndex_None)
  from getModelProperty_plain(2) [OF k u g] n have c: "CreateProperty k m = (Inr j, m1)" by simp
  from CreateProperty_Inr(3,4) [OF k c] word_less_succ [of "idPart (meLastPropertyId (Entities m ! k))"]
  show "\<exists>u. u \<noteq> 0 \<and> u \<notin> set (knownUids m) \<and> u \<notin> set (RetiredPropertyUids m)
           \<and> idPart (meLastPropertyId (Entities m ! k))
                < idPart (meLastPropertyId (Entities m ! k)) + 1
           \<and> meProperties (Entities m1 ! k) = meProperties (Entities m ! k) @
               [\<lparr>mpId = CreateIdUid (idPart (meLastPropertyId (Entities m ! k)) + 1) u,
                 mpName = [], mpIndexId = None, mpType = 0, mpFlags = 0, mpRelationTarget = []\<rparr>]
           \<and> meLastPropertyId (Entities m1 ! k)
                = CreateIdUid (idPart (meLastPropertyId (Entities m ! k)) + 1) u"
    by (auto simp: knownUids_def)
qed

text \<open>C5 on the example document: \<open>Name\<close> removed and UID 101 retired; a merge of a
  larger binding; and \<open>Name\<close> added again after its removal, with pair \<open>3:u\<close> for a UID
  \<open>u\<close> that is not retired.\<close>
theorem removed_properties_retired_counter_grows_witness:
  "(\<exists>be' m'. mergeModelEntity (exBindingEntity ''Task'' 0 False [exBindingProperty ''Id'' 0 False] [])
                 0 exModel = (None, be', m')
        \<and> map mpName (meProperties (Entities m' ! 0)) = [''Id'']
        \<and> RetiredPropertyUids m' = [101])
   \<and> (\<exists>err b' m''. mergeBindingWithModelInfo exPlainBinding exModel = (err, b', m'')
        \<and> length (Entities exModel) \<le> length (Entities m'')
        \<and> idPart (meLastPropertyId (Entities exModel ! 0))
             \<le> idPart (meLastPropertyId (Entities m'' ! 0)))
   \<and> (\<exists>m1 u. getModelProperty (exBindingProperty ''Name'' 0 False) 0 exModelAfterRemoval = (Inr 1, m1)
        \<and> u \<notin> set (RetiredPropertyUids exModelAfterRemoval)
        \<and> meLastPropertyId (Entities m1 ! 0) = CreateIdUid 3 u
        \<and> mpId (meProperties (Entities m1 ! 0) ! 1) = CreateIdUid 3 u)"
proof -
  let ?be = "exBindingEntity ''Task'' 0 False [exBindingProperty ''Id'' 0 False] []"
  obtain be' m' where r: "mergeModelEntity ?be 0 exModel = (None, be', m')"
    by (simp add: ex_defs eval_defs)
  have k: "0 < length (Entities exModel)" by (simp add: ex_defs)
  from removed_properties_retired_counter_grows [of 0 exModel ?be be' m', THEN conjunct1] k r
  obtain bps m2 where
    p: "mergeProperties (beProperties ?be) 0 (updEntity 0 (\<lambda>e. e\<lparr>meName := beName ?be\<rparr>) exModel)
          = (None, bps, m2)"
    and a: "meProperties (Entities m' ! 0)
          = filter (\<lambda>p. bindingPropertyExists p ?be) (meProperties (Entities m2 ! 0))"
    and b: "RetiredPropertyUids m'
          = RetiredPropertyUids m2
              @ map (\<lambda>p. uidPart (mpId p))
                  (filter (\<lambda>p. \<not> bindingPropertyExists p ?be) (meProperties (Entities m2 ! 0)))"
    by blast
  from p have m2: "map mpName (meProperties (Entities m2 ! 0)) = [''Id'', ''Name'']"
    "map (\<lambda>p. uidPart (mpId p)) (meProperties (Entities m2 ! 0)) = [100, 101]"
    "RetiredPropertyUids m2 = []"
    by (auto simp: ex_defs eval_defs)
  have one: "map mpName (meProperties (Entities m' ! 0)) = [''Id''] \<and> RetiredPropertyUids m' = [101]"
    using m2 unfolding a b
    by (cases "meProperties (Entities m2 ! 0)"; cases "tl (meProperties (Entities m2 ! 0))")
       (auto simp: ex_defs bindingPropertyExists_def)
  obtain err b' m'' where r2: "mergeBindingWithModelInfo exPlainBinding exModel = (err, b', m'')"
    by (cases "mergeBindingWithModelInfo exPlainBinding exModel")
  from removed_properties_retired_counter_grows [of 0 exModel ?be be' m' exPlainBinding err b' m'',
      THEN conjunct2, THEN conjunct1] r2 k
  have two: "length (Entities exModel) \<le> length (Entities m'')
        \<and> idPart (meLastPropertyId (Entities exModel ! 0))
             \<le> idPart (meLastPropertyId (Entities m'' ! 0))" by simp
  obtain m1 where g: "getModelProperty (exBindingProperty ''Name'' 0 False) 0 exModelAfterRemoval = (Inr 1, m1)"
    by (simp add: ex_defs ex2_defs eval_defs)
  from removed_properties_retired_counter_grows [of 0 exModelAfterRemoval _ _ _ _ _ _ _
      "exBindingProperty ''Name'' 0 False" 1 m1, THEN conjunct2, THEN conjunct2] g
  have three: "\<exists>u. u \<notin> set (RetiredPropertyUids exModelAfterRemoval)
        \<and> meLastPropertyId (Entities m1 ! 0) = CreateIdUid 3 u
        \<and> mpId (meProperties (Entities m1 ! 0) ! 1) = CreateIdUid 3 u"
    by (auto simp: ex_defs ex2_defs)
  from r one have A: "\<exists>be' m'. mergeModelEntity ?be 0 exModel = (None, be', m')
        \<and> map mpName (meProperties (Entities m' ! 0)) = [''Id'']
        \<and> RetiredPropertyUids m' = [101]"
    by (intro exI [of _ be'] exI [of _ m']) simp
  from r2 two have B: "\<exists>err b' m''. mergeBindingWithModelInfo exPlainBinding exModel = (err, b', m'')
        \<and> length (Entities exModel) \<le> length (Entities m'')
        \<and> idPart (meLastPropertyId (Entities exModel ! 0))
             \<le> idPart (meLastPropertyId (Entities m'' ! 0))"
    by (intro exI [of _ err] exI [of _ b'] exI [of _ m'']) simp
  from g three have C: "\<exists>m1 u. getModelProperty (exBindingProperty ''Name'' 0 False) 0 exModelAfterRemoval = (Inr 1, m1)
        \<and> u \<notin> set (RetiredPropertyUids exModelAfterRemoval)
        \<and> meLastPropertyId (Entities m1 ! 0) = CreateIdUid 3 u
        \<and> mpId (meProperties (Entities m1 ! 0) ! 1) = CreateIdUid 3 u"
    by (intro exI [of _ m1]) simp
  from A B C show ?thesis by (intro conjI)
qed

subsection \<open>Index presence\<close>

text \<open>Claim C6. After a successful \<open>mergeModelProperty\<close> the model property has an index
  identity exactly when the binding property requests an index: a requested index that
  did not exist is created, one past \<open>lastIndexId\<close> with a generated UID; an index
  no longer requested is removed and its UID retired into \<open>retiredIndexUids\<close>; an
  existing index that is still requested is kept as it is.\<close>
theorem index_presence_follows_binding:
  assumes "k < length (Entities m)" "j < length (meProperties (Entities m ! k))"
    and "mergeModelProperty bp k j m = (None, bp', m')"
  shows "((mpIndexId (theProperty m' k j) \<noteq> None) = (bpIndex bp \<noteq> None))
    \<and> (bpIndex bp \<noteq> None \<and> mpIndexId (theProperty m k j) = None \<longrightarrow>
         (\<exists>u. u \<noteq> 0
            \<and> mpIndexId (theProperty m' k j) = Some (CreateIdUid (idPart (LastIndexId m) + 1) u)
            \<and> LastIndexId m' = CreateIdUid (idPart (LastIndexId m) + 1) u
            \<and> RetiredIndexUids m' = RetiredIndexUids m))
    \<and> (\<forall>ix. bpIndex bp = None \<and> mpIndexId (theProperty m k j) = Some ix \<longrightarrow>
         RetiredIndexUids m' = RetiredIndexUids m @ [uidPart ix] \<and> LastIndexId m' = LastIndexId m)
    \<and> (\<forall>ix. bpIndex bp \<noteq> None \<and> mpIndexId (theProperty m k j) = Some ix \<longrightarrow>
         mpIndexId (theProperty m' k j) = Some ix \<and> RetiredIndexUids m' = RetiredIndexUids m
         \<and> LastIndexId m' = LastIndexId m)"
proof -
  from assms(3) obtain m2 bp1 m3 where
    m2: "m2 = (if bpUid bp \<noteq> 0
           then updProperty k j
                  (\<lambda>p. p\<lparr>mpId := CreateIdUid
                            (idPart (mpId (theProperty (updProperty k j (\<lambda>p. p\<lparr>mpName := bpName bp\<rparr>) m) k j)))
                            (bpUid bp)\<rparr>)
                  (updProperty k j (\<lambda>p. p\<lparr>mpName := bpName bp\<rparr>) m)
           else updProperty k j (\<lambda>p. p\<lparr>mpName := bpName bp\<rparr>) m)"
    and bp1: "bp1 = bp\<lparr>bpId := idPart (mpId (theProperty m2 k j)),
              bpUid := uidPart (mpId (theProperty m2 k j))\<rparr>"
    and ix: "mergeModelPropertyIndex bp1 k j m2 = (None, bp', m3)"
    and m': "m' = (case (None :: error option) of Some e \<Rightarrow> m3
           | None \<Rightarrow> updProperty k j
                (\<lambda>p. p\<lparr>mpRelationTarget :=
                          (case bpRelation bp of Some targetName \<Rightarrow> targetName | None \<Rightarrow> []),
                        mpType := bpObType bp, mpFlags := ObFlagsCombined bp\<rparr>) m3)"
    by (rule mergeModelProperty_cases)
  have k2: "k < length (Entities m2)" and j2: "j < length (meProperties (Entities m2 ! k))"
    and i2: "mpIndexId (theProperty m2 k j) = mpIndexId (theProperty m k j)"
    and g2: "LastIndexId m2 = LastIndexId m" "RetiredIndexUids m2 = RetiredIndexUids m"
    using assms(1,2) unfolding m2
    by (simp_all add: properties_updProperty theProperty_updProperty)
       (simp_all add: updProperty_def updEntity_def)
  have b1: "bpIndex bp1 = bpIndex bp" by (simp add: bp1)
  from mergeModelPropertyIndex_keeps_id [OF k2 j2 ix]
  have k3: "k < length (Entities m3)" and j3: "j < length (meProperties (Entities m3 ! k))"
    using k2 j2 by simp_all
  have i': "mpIndexId (theProperty m' k j) = mpIndexId (theProperty m3 k j)"
    and g': "LastIndexId m' = LastIndexId m3" "RetiredIndexUids m' = RetiredIndexUids m3"
    using k3 j3 unfolding m'
    by (simp_all add: theProperty_updProperty) (simp_all add: updProperty_def updEntity_def)
  show ?thesis
    using mergeModelPropertyIndex_success [OF k2 j2 ix] unfolding i' g' i2 g2 b1
    by blast
qed

text \<open>The three cases of C6 on the example document: an index created for \<open>Id\<close>, the
  index of \<open>Name\<close> removed, and the index of \<open>Name\<close> kept.\<close>
theorem index_presence_follows_binding_witness:
  "(\<exists>bp' m'. mergeModelProperty (exBindingProperty ''Id'' 0 True) 0 0 exModel = (None, bp', m')
        \<and> (\<exists>u. u \<noteq> 0 \<and> mpIndexId (theProperty m' 0 0) = Some (CreateIdUid 2 u)
               \<and> LastIndexId m' = CreateIdUid 2 u))
   \<and> (\<exists>bp' m'. mergeModelProperty (exBindingProperty ''Name'' 0 False) 0 1 exModel = (None, bp', m')
        \<and> mpIndexId (theProperty m' 0 1) = None \<and> RetiredIndexUids m' = [300])
   \<and> (\<exists>bp' m'. mergeModelProperty (exBindingProperty ''Name'' 0 True) 0 1 exModel = (None, bp', m')
        \<and> mpIndexId (theProperty m' 0 1) = Some (CreateIdUid 1 300) \<and> RetiredIndexUids m' = [])"
proof -
  have k: "0 < length (Entities exModel)"
    and j: "0 < length (meProperties (Entities exModel ! 0))"
           "1 < length (meProperties (Entities exModel ! 0))"
    by (simp_all add: ex_defs)
  obtain bp1 m1 where r1: "mergeModelProperty (exBindingProperty ''Id'' 0 True) 0 0 exModel = (None, bp1, m1)"
    by (simp add: ex_defs eval_defs)
  obtain bp2 m2 where r2: "mergeModelProperty (exBindingProperty ''Name'' 0 False) 0 1 exModel = (None, bp2, m2)"
    by (simp add: ex_defs eval_defs)
  obtain bp3 m3 where r3: "mergeModelProperty (exBindingProperty ''Name'' 0 True) 0 1 exModel = (None, bp3, m3)"
    by (simp add: ex_defs eval_defs)
  have "\<exists>u. u \<noteq> 0 \<and> mpIndexId (theProperty m1 0 0) = Some (CreateIdUid 2 u)
               \<and> LastIndexId m1 = CreateIdUid 2 u"
    using index_presence_follows_binding [OF k j(1) r1] by (auto simp: ex_defs theProperty_def)
  moreover have "mpIndexId (theProperty m2 0 1) = None \<and> RetiredIndexUids m2 = [300]"
    using index_presence_follows_binding [OF k j(2) r2] by (simp add: ex_defs theProperty_def)
  moreover have "mpIndexId (theProperty m3 0 1) = Some (CreateIdUid 1 300) \<and> RetiredIndexUids m3 = []"
    using index_presence_follows_binding [OF k j(2) r3] by (simp add: ex_defs theProperty_def)
  ultimately show ?thesis using r1 r2 r3 by blast
qed

subsection \<open>Renaming a property\<close>

text \<open>Claim C7. When a binding property is matched by its explicit UID and agrees with
  the model property in index presence, relation target, type and flags, the lookup
  leaves the document unchanged and the merge yields the document with only the name of
  that property replaced: identity pair, index identity and the entity's
  \<open>lastPropertyId\<close> are as before.\<close>
theorem rename_changes_only_name:
  assumes "k < length (Entities m)" "bpUid bp \<noteq> 0"
    and "FindPropertyByUid (Entities m ! k) (bpUid bp) = Inr j"
    and "(bpIndex bp \<noteq> None) = (mpIndexId (theProperty m k j) \<noteq> None)"
    and "mpRelationTarget (theProperty m k j)
           = (case bpRelation bp of Some targetName \<Rightarrow> targetName | None \<Rightarrow> [])"
    and "mpType (theProperty m k j) = bpObType bp"
    and "mpFlags (theProperty m k j) = ObFlagsCombined bp"
  shows "getModelProperty bp k m = (Inr j, m)
     \<and> (\<exists>bp'. mergeModelProperty bp k j m
                = (None, bp', updProperty k j (\<lambda>p. p\<lparr>mpName := bpName bp\<rparr>) m))"
proof -
  from assms(3) have f: "findIndex (\<lambda>p. uidPart (mpId p) = bpUid bp) (meProperties (Entities m ! k)) = Some j"
    by (simp add: FindPropertyByUid_def split: option.splits)
  from findIndex_Some [OF f] have j: "j < length (meProperties (Entities m ! k))"
    and u: "uidPart (mpId (theProperty m k j)) = bpUid bp"
    by (simp_all add: theProperty_def)
  have g: "getModelProperty bp k m = (Inr j, m)"
    using assms(2,3) by (simp add: getModelProperty_def)
  define m1 where "m1 = updProperty k j (\<lambda>p. p\<lparr>mpName := bpName bp\<rparr>) m"
  have k1: "k < length (Entities m1)" and j1: "j < length (meProperties (Entities m1 ! k))"
    and p1: "theProperty m1 k j = (theProperty m k j)\<lparr>mpName := bpName bp\<rparr>"
    using assms(1) j by (simp_all add: m1_def properties_updProperty theProperty_updProperty)
  have same: "updProperty k j
      (\<lambda>p. p\<lparr>mpId := CreateIdUid (idPart (mpId (theProperty m1 k j))) (bpUid bp)\<rparr>) m1 = m1"
    by (rule updProperty_id) (simp add: p1 u [symmetric])
  have last: "updProperty k j
      (\<lambda>p. p\<lparr>mpRelationTarget :=
                (case bpRelation bp of Some targetName \<Rightarrow> targetName | None \<Rightarrow> []),
              mpType := bpObType bp, mpFlags := ObFlagsCombined bp\<rparr>) m1 = m1"
    by (rule updProperty_id) (simp add: p1 assms(5,6,7) [symmetric])
  have ix: "\<exists>bp2. mergeModelPropertyIndex
                (bp\<lparr>bpId := idPart (mpId (theProperty m1 k j)),
                    bpUid := uidPart (mpId (theProperty m1 k j))\<rparr>) k j m1 = (None, bp2, m1)"
    using assms(4) by (auto simp: mergeModelPropertyIndex_def p1 split: option.splits)
  then obtain bp2 where "mergeModelPropertyIndex
                (bp\<lparr>bpId := idPart (mpId (theProperty m1 k j)),
                    bpUid := uidPart (mpId (theProperty m1 k j))\<rparr>) k j m1 = (None, bp2, m1)" ..
  then have "mergeModelProperty bp k j m = (None, bp2, m1)"
    using assms(2) unfolding mergeModelProperty_steps Let_def m1_def [symmetric]
    by (simp add: same last)
  with g show ?thesis unfolding m1_def by blast
qed

text \<open>C7 on the example document: the property with UID 101 renamed to \<open>FullName\<close>.\<close>
theorem rename_changes_only_name_witness:
  "getModelProperty (exBindingProperty ''FullName'' 101 True) 0 exModel = (Inr 1, exModel)
   \<and> (\<exists>bp'. mergeModelProperty (exBindingProperty ''FullName'' 101 True) 0 1 exModel
              = (None, bp', updProperty 0 1 (\<lambda>p. p\<lparr>mpName := ''FullName''\<rparr>) exModel))"
proof -
  have f: "FindPropertyByUid (Entities exModel ! 0) (bpUid (exBindingProperty ''FullName'' 101 True)) = Inr 1"
    by (simp add: ex_defs FindPropertyByUid_def)
  show ?thesis
    using rename_changes_only_name [OF _ _ f]
    by (simp add: ex_defs theProperty_def ObFlagsCombined_def)
qed

subsection \<open>Relation targets\<close>

text \<open>Claim C8 fails on the code. In the example the relation \<open>jobs\<close> of entity \<open>Owner\<close>
  targets \<open>Job\<close>, an entity of the same binding whose explicit UID resolves to the
  document entity still named \<open>Task\<close>. The first loop prepares both entities, but
  \<open>Owner\<close> is merged before \<open>Job\<close> has been renamed, and the lookup of the target by
  name fails.\<close>
theorem renamed_relation_target_not_found:
  "''Job'' \<in> set (map beName (bEntities exRenameBinding))
   \<and> fst (mergeBindingWithModelInfo exRenameBinding exModel) = Some (EntityNameNotFound ''Job'')"
  by (simp add: ex_defs ex2_defs eval_defs)

subsection \<open>Version backfill of the loader\<close>

text \<open>Claim C9, amended. A file that \<open>LoadOrCreateModel\<close> loads is backfilled to
  \<open>modelVersion = 4\<close> and \<open>minimumParserVersion = 4\<close> when its document has both version
  fields zero and an empty first note; every other loaded document keeps its stored
  versions. The file system is left as it was.\<close>
theorem load_backfills_version_4:
  "fs path = Some (Inr model) \<Longrightarrow>
   \<exists>loaded. LoadOrCreateModel fs path = (Inr loaded, fs)
     \<and> (if ModelVersion model = 0 \<and> MinimumParserVersion model = 0 \<and> Note1 model = []
        then ModelVersion loaded = 4 \<and> MinimumParserVersion loaded = 4
        else ModelVersion loaded = ModelVersion model
           \<and> MinimumParserVersion loaded = MinimumParserVersion model)"
  by (auto simp: LoadOrCreateModel_def fileExists_def loadModelFromJSONFile_def fillMissing_def Let_def)

text \<open>Claim C9 as stated fails: a document with all version fields zero and a non-empty
  first note is loaded with its versions still zero.\<close>
theorem load_ignores_noted_file:
  "ModelVersion (exModel\<lparr>ModelVersion := 0, MinimumParserVersion := 0, Version := 0, Note1 := ''x''\<rparr>) = 0
   \<and> MinimumParserVersion (exModel\<lparr>ModelVersion := 0, MinimumParserVersion := 0, Version := 0, Note1 := ''x''\<rparr>) = 0
   \<and> (case fst (LoadOrCreateModel
                  (exFileSystem (exModel\<lparr>ModelVersion := 0, MinimumParserVersion := 0,
                                         Version := 0, Note1 := ''x''\<rparr>))
                  ''objectbox-model.json'') of
         Inl e \<Rightarrow> False
       | Inr loaded \<Rightarrow> ModelVersion loaded = 0 \<and> MinimumParserVersion loaded = 0)"
  by (simp add: ex2_defs LoadOrCreateModel_def fileExists_def loadModelFromJSONFile_def
        fillMissing_def Let_def)

text \<open>The amended C9 on a legacy file and on a version 5 file.\<close>
theorem load_backfills_version_4_witness:
  "(\<exists>loaded. LoadOrCreateModel (exFileSystem (exModel\<lparr>ModelVersion := 0, MinimumParserVersion := 0\<rparr>))
       ''objectbox-model.json''
        = (Inr loaded, exFileSystem (exModel\<lparr>ModelVersion := 0, MinimumParserVersion := 0\<rparr>))
      \<and> ModelVersion loaded = 4 \<and> MinimumParserVersion loaded = 4)
   \<and> (\<exists>loaded. LoadOrCreateModel (exFileSystem exModel) ''objectbox-model.json''
        = (Inr loaded, exFileSystem exModel)
      \<and> ModelVersion loaded = 5 \<and> MinimumParserVersion loaded = 5)"
  using load_backfills_version_4 [of "exFileSystem (exModel\<lparr>ModelVersion := 0, MinimumParserVersion := 0\<rparr>)"
      "''objectbox-model.json''" "exModel\<lparr>ModelVersion := 0, MinimumParserVersion := 0\<rparr>"]
    load_backfills_version_4 [of "exFileSystem exModel" "''objectbox-model.json''" exModel]
  by (simp add: ex2_defs) (simp add: ex_defs)

subsection \<open>Explicit UID on a resolved property\<close>

text \<open>Claim C10. A binding property with a non-zero explicit UID that \<open>getModelProperty\<close>
  resolves (by UID or, failing that, by name) leaves the document unchanged in the
  lookup; \<open>mergeModelProperty\<close> then sets the model property's identity pair to its
  existing local id with the binding's UID, and the binding descriptor reads this pair
  back. This holds whether or not the later index step of the merge fails.\<close>
theorem explicit_uid_overwrites_identity:
  assumes "bpUid bp \<noteq> 0" "k < length (Entities m)"
    and "getModelProperty bp k m = (Inr j, m1)"
    and "mergeModelProperty bp k j m1 = (err, bp', m')"
  shows "m1 = m \<and> j < length (meProperties (Entities m ! k))
         \<and> mpId (theProperty m' k j) = CreateIdUid (idPart (mpId (theProperty m k j))) (bpUid bp)
         \<and> bpId bp' = idPart (mpId (theProperty m k j)) \<and> bpUid bp' = bpUid bp"
proof -
  from getModelProperty_explicit_uid [OF assms(1,3)]
  have m1: "m1 = m" and j: "j < length (meProperties (Entities m ! k))" by simp_all
  define ma where "ma = updProperty k j (\<lambda>p. p\<lparr>mpName := bpName bp\<rparr>) m"
  define m2 where "m2 = updProperty k j
      (\<lambda>p. p\<lparr>mpId := CreateIdUid (idPart (mpId (theProperty ma k j))) (bpUid bp)\<rparr>) ma"
  define bp1 where "bp1 = bp\<lparr>bpId := idPart (mpId (theProperty m2 k j)),
                              bpUid := uidPart (mpId (theProperty m2 k j))\<rparr>"
  have ka: "k < length (Entities ma)" and ja: "j < length (meProperties (Entities ma ! k))"
    and ida: "mpId (theProperty ma k j) = mpId (theProperty m k j)"
    using assms(2) j by (simp_all add: ma_def properties_updProperty theProperty_updProperty)
  have k2: "k < length (Entities m2)" and j2: "j < length (meProperties (Entities m2 ! k))"
    and id2: "mpId (theProperty m2 k j) = CreateIdUid (idPart (mpId (theProperty m k j))) (bpUid bp)"
    using ka ja ida by (simp_all add: m2_def properties_updProperty theProperty_updProperty)
  obtain e3 bp3 m3 where ix: "mergeModelPropertyIndex bp1 k j m2 = (e3, bp3, m3)"
    by (cases "mergeModelPropertyIndex bp1 k j m2")
  from mergeModelPropertyIndex_keeps_id [OF k2 j2 ix]
  have keep: "mpId (theProperty m3 k j) = mpId (theProperty m2 k j)" "bpId bp3 = bpId bp1"
    "bpUid bp3 = bpUid bp1" "k < length (Entities m3)"
    "j < length (meProperties (Entities m3 ! k))"
    using k2 j2 by simp_all
  have "mpId (theProperty m' k j) = mpId (theProperty m3 k j) \<and> bp' = bp3"
    using assms(1,4) ix keep(4,5) unfolding m1 mergeModelProperty_steps
    by (cases e3) (auto simp: Let_def ma_def [symmetric] m2_def [symmetric] bp1_def [symmetric]
          theProperty_updProperty)
  with keep id2 m1 j show ?thesis by (simp add: bp1_def)
qed

text \<open>C10 on the example document: UID 999 given to the property \<open>Name\<close>, whose pair was
  \<open>2:101\<close>.\<close>
theorem explicit_uid_overwrites_identity_witness:
  "\<exists>err bp' m'. mergeModelProperty (exBindingProperty ''Name'' 999 True) 0 1 exModel = (err, bp', m')
     \<and> getModelProperty (exBindingProperty ''Name'' 999 True) 0 exModel = (Inr 1, exModel)
     \<and> mpId (theProperty m' 0 1) = CreateIdUid 2 999 \<and> bpId bp' = 2 \<and> bpUid bp' = 999"
proof -
  have g: "getModelProperty (exBindingProperty ''Name'' 999 True) 0 exModel = (Inr 1, exModel)"
    by (simp add: ex_defs eval_defs)
  obtain err bp' m' where
    r: "mergeModelProperty (exBindingProperty ''Name'' 999 True) 0 1 exModel = (err, bp', m')"
    by (cases "mergeModelProperty (exBindingProperty ''Name'' 999 True) 0 1 exModel")
  have "mpId (theProperty m' 0 1) = CreateIdUid 2 999 \<and> bpId bp' = 2 \<and> bpUid bp' = 999"
    using explicit_uid_overwrites_identity [OF _ _ g r] by (simp add: ex_defs theProperty_def)
  with g r show ?thesis by blast
qed

end
